theory Spec2Isabelle
  imports Main "HOL-Library.Word"
begin

unbundle bit_operations_syntax

section \<open>Error numbers and volume state\<close>

text \<open>
  The C functions return \<open>int\<close> error numbers, 0 meaning success. An error number is a
  value of \<open>errno\<close>; a C return value is \<open>errno option\<close> with \<open>None\<close> for 0.
  \<open>ECKSUM\<close> is the checksum-verification error of the object store.
\<close>

datatype errno = EIO | ENXIO | EBUSY | EROFS | EINVAL | EOPNOTSUPP | ECKSUM | ENOIOCTL
  | EOTHER nat

type_synonym error = "errno option"

datatype volmode = ZFS_VOLMODE_GEOM | ZFS_VOLMODE_DEV | ZFS_VOLMODE_NONE

text \<open>
  The fields of \<open>zvol_state_t\<close> (and of \<open>zvol_state_os\<close>) that the open/close and I/O
  paths read or write. \<open>zv_open_count\<close> and \<open>zv_flags\<close> are \<open>uint32_t\<close>, \<open>zv_volsize\<close>
  is \<open>uint64_t\<close>. \<open>zv_objset\<close> is the object-store handle (\<open>None\<close> is the NULL pointer),
  \<open>zv_zilog\<close> tells whether the log handle is non-NULL, and \<open>os_sync_always\<close> stands for
  \<open>zv->zv_objset->os_sync == ZFS_SYNC_ALWAYS\<close>.
\<close>

record zvol_state =
  zv_volsize :: nat
  zv_volmode :: volmode
  zv_flags :: "32 word"
  zv_open_count :: "32 word"
  zv_objset :: "nat option"
  zv_zilog :: bool
  zso_dying :: bool
  os_sync_always :: bool

text \<open>
  Modelled from the spec: the read-only, exclusive and removing flags of a volume. They are
  single bits of \<open>zv_flags\<close>; the bit values are those of the volume header, which is
  not part of this file. \<open>FREAD\<close>, \<open>FWRITE\<close> and \<open>O_EXCL\<close> are the open flags of
  FreeBSD's \<open>fcntl.h\<close>.
\<close>

definition ZVOL_RDONLY :: "32 word" where "ZVOL_RDONLY = 1"
definition ZVOL_WRITTEN_TO :: "32 word" where "ZVOL_WRITTEN_TO = 2"
definition ZVOL_EXCL :: "32 word" where "ZVOL_EXCL = 4"
definition ZVOL_REMOVING :: "32 word" where "ZVOL_REMOVING = 8"

definition FREAD :: "32 word" where "FREAD = 1"
definition FWRITE :: "32 word" where "FWRITE = 2"
definition O_EXCL :: "32 word" where "O_EXCL = 0x800"

section \<open>First open and last close\<close>

text \<open>
  What the surroundings decide during one call of an open routine: whether the calling
  thread already owns \<open>spa_namespace_lock\<close>, the outcomes of its successive
  \<open>mutex_tryenter\<close> attempts on that lock (one per pass through \<open>retry\<close>), the result of
  \<open>zvol_first_open\<close> (error, handle, discovered size), and the answer of
  \<open>dmu_objset_incompatible_encryption_version\<close>.
\<close>

record open_env =
  ns_owned :: bool
  ns_tries :: "bool list"
  fo_error :: error
  fo_handle :: nat
  fo_volsize :: nat
  incompat_enc :: bool

text \<open>
  Modelled from the spec: \<open>zvol_first_open\<close> is defined in the common volume code, which is
  not part of this file. First-open setup owns the backing object store and discovers its
  on-disk size; when it fails the volume is left without a handle.
\<close>

definition zvol_first_open :: "open_env \<Rightarrow> zvol_state \<Rightarrow> error \<times> zvol_state" where
  "zvol_first_open env zv =
     (case fo_error env of
        Some e \<Rightarrow> (Some e, zv)
      | None \<Rightarrow> (None, zv\<lparr>zv_volsize := fo_volsize env, zv_objset := Some (fo_handle env)\<rparr>))"

text \<open>
  Modelled from the spec: \<open>zvol_last_close\<close> is defined in the common volume code as well.
  Last-close teardown disowns the backing store and drops the references held while open
  (the log handle among them).
\<close>

definition zvol_last_close :: "zvol_state \<Rightarrow> zvol_state" where
  "zvol_last_close zv = zv\<lparr>zv_objset := None, zv_zilog := False\<rparr>"

section \<open>GEOM mode: open, close, access\<close>

text \<open>
  The tail of both open routines from the read-only check on (labels \<open>out_opened\<close> and
  below). \<open>wr_bad\<close> is the condition of the first \<open>if\<close>, \<open>excl\<close> is \<open>flag & O_EXCL\<close> and
  \<open>count\<close> the amount added to the open count.
\<close>

definition out_opened :: "zvol_state \<Rightarrow> zvol_state" where
  "out_opened zv = (if zv_open_count zv = 0 then zvol_last_close zv else zv)"

definition open_checks :: "bool \<Rightarrow> bool \<Rightarrow> 32 word \<Rightarrow> zvol_state \<Rightarrow> error \<times> zvol_state" where
  "open_checks wr_bad excl count zv =
     (if wr_bad then (Some EROFS, out_opened zv)
      else if zv_flags zv AND ZVOL_EXCL \<noteq> 0 then (Some EBUSY, out_opened zv)
      else if excl \<and> zv_open_count zv \<noteq> 0 then (Some EBUSY, out_opened zv)
      else
        let zv1 = (if excl then zv\<lparr>zv_flags := zv_flags zv OR ZVOL_EXCL\<rparr> else zv);
            zv2 = zv1\<lparr>zv_open_count := zv_open_count zv1 + count\<rparr>
        in (None, out_opened zv2))"

text \<open>
  \<open>zvol_geom_open\<close> from the label \<open>retry\<close>, for a provider whose \<open>private\<close> pointer is
  \<open>zv\<close>. The list is the remaining \<open>mutex_tryenter\<close> outcomes; each failed attempt jumps
  back to \<open>retry\<close>. \<open>None\<close> means the routine is still retrying when the list ends. The
  routine runs with \<open>zv_state_lock\<close> held, so the re-check after re-taking the lock reads
  the same open count.
\<close>

fun zvol_geom_open_retry ::
  "open_env \<Rightarrow> bool list \<Rightarrow> zvol_state \<Rightarrow> 32 word \<Rightarrow> 32 word \<Rightarrow> (error \<times> zvol_state) option" where
  "zvol_geom_open_retry env tries zv flag count =
     (if zso_dying zv \<or> zv_flags zv AND ZVOL_REMOVING \<noteq> 0 then Some (Some ENXIO, zv)
      else if zv_open_count zv = 0 then
        (if \<not> ns_owned env \<and> tries = [] then None
         else if \<not> ns_owned env \<and> \<not> hd tries then
           zvol_geom_open_retry env (tl tries) zv flag count
         else
           (case zvol_first_open env zv of
              (Some e, zv1) \<Rightarrow> Some (Some e, zv1)
            | (None, zv1) \<Rightarrow>
                Some (open_checks
                  (flag AND FWRITE \<noteq> 0 \<and> (zv_flags zv1 AND ZVOL_RDONLY \<noteq> 0 \<or> incompat_enc env))
                  (flag AND O_EXCL \<noteq> 0) count zv1)))
      else
        Some (open_checks
          (flag AND FWRITE \<noteq> 0 \<and> (zv_flags zv AND ZVOL_RDONLY \<noteq> 0 \<or> incompat_enc env))
          (flag AND O_EXCL \<noteq> 0) count zv))"

text \<open>
  The whole of \<open>zvol_geom_open\<close>: \<open>probing\<close> is
  \<open>!zpool_on_zvol && tsd_get(zfs_geom_probe_vdev_key) != NULL\<close>, and \<open>priv\<close> is
  \<open>pp->private\<close>.
\<close>

definition zvol_geom_open ::
  "bool \<Rightarrow> open_env \<Rightarrow> zvol_state option \<Rightarrow> 32 word \<Rightarrow> 32 word
     \<Rightarrow> (error \<times> zvol_state option) option" where
  "zvol_geom_open probing env priv flag count =
     (if probing then Some (Some EOPNOTSUPP, priv)
      else case priv of
        None \<Rightarrow> Some (Some ENXIO, None)
      | Some zv \<Rightarrow>
          map_option (\<lambda>(e, zv'). (e, Some zv'))
            (zvol_geom_open_retry env (ns_tries env) zv flag count))"

text \<open>
  \<open>zvol_geom_close\<close>. \<open>new_open_count\<close> is \<open>zv_open_count - count\<close> computed in 32 bits;
  the \<open>ASSERT\<close>s are compiled out of production kernels and do not stop the routine.
\<close>

definition zvol_geom_close_zv :: "zvol_state \<Rightarrow> 32 word \<Rightarrow> zvol_state" where
  "zvol_geom_close_zv zv count =
     (let zv1 = (if zv_flags zv AND ZVOL_EXCL \<noteq> 0
                 then zv\<lparr>zv_flags := zv_flags zv AND NOT ZVOL_EXCL\<rparr> else zv);
          new_open_count = zv_open_count zv1 - count;
          zv2 = zv1\<lparr>zv_open_count := new_open_count\<rparr>
      in if zv_open_count zv2 = 0 then zvol_last_close zv2 else zv2)"

definition zvol_geom_close :: "zvol_state option \<Rightarrow> 32 word \<Rightarrow> 32 word \<Rightarrow> error \<times> zvol_state option" where
  "zvol_geom_close priv flag count =
     (case priv of
        None \<Rightarrow> (Some ENXIO, None)
      | Some zv \<Rightarrow> (None, Some (zvol_geom_close_zv zv count)))"

text \<open>
  \<open>zvol_geom_access\<close>: the access counts \<open>acr\<close>, \<open>acw\<close>, \<open>ace\<close> are C \<open>int\<close>s, here
  integers that GEOM keeps small; \<open>pp_error\<close> is \<open>pp->error\<close>. The flags handed to the
  open and close routines hold \<open>FREAD\<close> and \<open>FWRITE\<close> only.
\<close>

definition zvol_geom_access ::
  "bool \<Rightarrow> open_env \<Rightarrow> error \<Rightarrow> zvol_state option \<Rightarrow> int \<Rightarrow> int \<Rightarrow> int
     \<Rightarrow> (error \<times> zvol_state option) option" where
  "zvol_geom_access probing env pp_error priv acr acw ace =
     (case priv of
        None \<Rightarrow>
          (if acr \<le> 0 \<and> acw \<le> 0 \<and> ace \<le> 0 then Some (None, None)
           else Some (pp_error, None))
      | Some zv \<Rightarrow>
          (let count = acr + acw + ace in
           if count = 0 then Some (None, priv)
           else
             let flags = (if acr \<noteq> 0 \<or> ace \<noteq> 0 then FREAD else 0)
                           OR (if acw \<noteq> 0 then FWRITE else 0)
             in if count > 0 then zvol_geom_open probing env priv flags (word_of_int count)
                else Some (zvol_geom_close priv flags (word_of_int (- count)))))"

section \<open>Character-device mode: open and close\<close>

text \<open>
  \<open>zvol_cdev_open\<close> from \<open>retry\<close> for a device whose \<open>si_drv2\<close> is \<open>zv\<close>. It tests
  \<open>zso_dying\<close> only, has no encryption-version test, and adds one to the open count.
\<close>

fun zvol_cdev_open_retry ::
  "open_env \<Rightarrow> bool list \<Rightarrow> zvol_state \<Rightarrow> 32 word \<Rightarrow> (error \<times> zvol_state) option" where
  "zvol_cdev_open_retry env tries zv flags =
     (if zso_dying zv then Some (Some ENXIO, zv)
      else if zv_open_count zv = 0 then
        (if \<not> ns_owned env \<and> tries = [] then None
         else if \<not> ns_owned env \<and> \<not> hd tries then
           zvol_cdev_open_retry env (tl tries) zv flags
         else
           (case zvol_first_open env zv of
              (Some e, zv1) \<Rightarrow> Some (Some e, zv1)
            | (None, zv1) \<Rightarrow>
                Some (open_checks
                  (flags AND FWRITE \<noteq> 0 \<and> zv_flags zv1 AND ZVOL_RDONLY \<noteq> 0)
                  (flags AND O_EXCL \<noteq> 0) 1 zv1)))
      else
        Some (open_checks
          (flags AND FWRITE \<noteq> 0 \<and> zv_flags zv AND ZVOL_RDONLY \<noteq> 0)
          (flags AND O_EXCL \<noteq> 0) 1 zv))"

definition zvol_cdev_open ::
  "open_env \<Rightarrow> zvol_state option \<Rightarrow> 32 word \<Rightarrow> (error \<times> zvol_state option) option" where
  "zvol_cdev_open env drv2 flags =
     (case drv2 of
        None \<Rightarrow> Some (Some ENXIO, None)
      | Some zv \<Rightarrow>
          map_option (\<lambda>(e, zv'). (e, Some zv'))
            (zvol_cdev_open_retry env (ns_tries env) zv flags))"

definition zvol_cdev_close_zv :: "zvol_state \<Rightarrow> zvol_state" where
  "zvol_cdev_close_zv zv =
     (let zv1 = (if zv_flags zv AND ZVOL_EXCL \<noteq> 0
                 then zv\<lparr>zv_flags := zv_flags zv AND NOT ZVOL_EXCL\<rparr> else zv);
          zv2 = zv1\<lparr>zv_open_count := zv_open_count zv1 - 1\<rparr>
      in if zv_open_count zv2 = 0 then zvol_last_close zv2 else zv2)"

definition zvol_cdev_close :: "zvol_state option \<Rightarrow> error \<times> zvol_state option" where
  "zvol_cdev_close drv2 =
     (case drv2 of
        None \<Rightarrow> (Some ENXIO, None)
      | Some zv \<Rightarrow> (None, Some (zvol_cdev_close_zv zv)))"

declare zvol_geom_open_retry.simps [simp del]
declare zvol_cdev_open_retry.simps [simp del]

section \<open>Sequences of opens and closes\<close>

text \<open>
  The entry points through which the host opens and closes a volume: GEOM calls
  \<open>zvol_geom_access\<close> on a provider, devfs calls \<open>zvol_cdev_open\<close> and
  \<open>zvol_cdev_close\<close> on a device node.
\<close>

datatype vol_op =
    GeomAccess bool open_env int int int
  | CdevOpen open_env "32 word"
  | CdevClose

text \<open>
  What the source asserts at each entry: the volume mode of the routine, access counts of
  one sign (\<open>KASSERT\<close> in \<open>zvol_geom_access\<close>), and a positive open count at every close
  (the open count being zero at a close is a spurious close, a bug of the caller).
\<close>

fun op_allowed :: "zvol_state \<Rightarrow> vol_op \<Rightarrow> bool" where
  "op_allowed zv (GeomAccess probing env acr acw ace) =
     (zv_volmode zv = ZFS_VOLMODE_GEOM
      \<and> ((acr \<ge> 0 \<and> acw \<ge> 0 \<and> ace \<ge> 0) \<or> (acr \<le> 0 \<and> acw \<le> 0 \<and> ace \<le> 0))
      \<and> (acr + acw + ace < 0 \<longrightarrow> zv_open_count zv \<noteq> 0))"
| "op_allowed zv (CdevOpen env flags) = (zv_volmode zv = ZFS_VOLMODE_DEV)"
| "op_allowed zv CdevClose = (zv_volmode zv = ZFS_VOLMODE_DEV \<and> zv_open_count zv \<noteq> 0)"

text \<open>One call on a live volume: the error returned and the volume afterwards.\<close>

fun step :: "zvol_state \<Rightarrow> vol_op \<Rightarrow> (error \<times> zvol_state) option" where
  "step zv (GeomAccess probing env acr acw ace) =
     (case zvol_geom_access probing env None (Some zv) acr acw ace of
        Some (e, Some zv') \<Rightarrow> Some (e, zv')
      | _ \<Rightarrow> None)"
| "step zv (CdevOpen env flags) =
     (case zvol_cdev_open env (Some zv) flags of
        Some (e, Some zv') \<Rightarrow> Some (e, zv')
      | _ \<Rightarrow> None)"
| "step zv CdevClose =
     (case zvol_cdev_close (Some zv) of
        (e, Some zv') \<Rightarrow> Some (e, zv')
      | _ \<Rightarrow> None)"

text \<open>
  A sequence of calls, one after the other. \<open>None\<close>: the sequence is not an execution, an
  assertion fails on the way or an open is still retrying when its lock attempts end.
\<close>

fun run :: "zvol_state \<Rightarrow> vol_op list \<Rightarrow> zvol_state option" where
  "run zv [] = Some zv"
| "run zv (x # xs) =
     (if \<not> op_allowed zv x then None
      else case step zv x of None \<Rightarrow> None | Some (e, zv') \<Rightarrow> run zv' xs)"

text \<open>
  The references handed out and taken back by one call: a successful open grants its
  count, a close releases its count.
\<close>

fun granted :: "zvol_state \<Rightarrow> vol_op \<Rightarrow> nat" where
  "granted zv (GeomAccess probing env acr acw ace) =
     (if acr + acw + ace > 0
         \<and> map_option fst (step zv (GeomAccess probing env acr acw ace)) = Some None
      then nat (acr + acw + ace) else 0)"
| "granted zv (CdevOpen env flags) =
     (if map_option fst (step zv (CdevOpen env flags)) = Some None then 1 else 0)"
| "granted zv CdevClose = 0"




text \<open>A volume as \<open>zvol_os_create_minor\<close> leaves it: never opened, no handle, not exclusive.\<close>

definition fresh :: "zvol_state \<Rightarrow> bool" where
  "fresh zv \<longleftrightarrow> zv_open_count zv = 0 \<and> zv_objset zv = None \<and> zv_flags zv AND ZVOL_EXCL = 0"

text \<open>
  The two invariants of the volume record stated in its data model: the handle is present
  exactly while the volume is open, and the exclusive flag goes with exactly one opener.
\<close>

definition handle_inv :: "zvol_state \<Rightarrow> bool" where
  "handle_inv zv \<longleftrightarrow> (zv_open_count zv = 0 \<longleftrightarrow> zv_objset zv = None)"

definition excl_inv :: "zvol_state \<Rightarrow> bool" where
  "excl_inv zv \<longleftrightarrow> (zv_flags zv AND ZVOL_EXCL \<noteq> 0 \<longrightarrow> zv_open_count zv = 1)"

section \<open>The object store as seen by the I/O paths\<close>

text \<open>
  Modelled from the spec: the fixed maximum per-transaction size. \<open>DMU_MAX_ACCESS\<close> is
  defined in the object store's header, which is not part of this file, as 64 MB;
  \<open>zvol_maxphys\<close> is the global of this file initialised to half of it, and the
  character-device routines write \<open>DMU_MAX_ACCESS >> 1\<close>. \<open>DEV_BSIZE\<close> is the sector
  size of the host.
\<close>

definition DMU_MAX_ACCESS :: nat where "DMU_MAX_ACCESS = 64 * 1024 * 1024"

definition zvol_maxphys :: nat where "zvol_maxphys = DMU_MAX_ACCESS div 2"

definition cdev_maxphys :: nat where "cdev_maxphys = drop_bit 1 DMU_MAX_ACCESS"

definition DEV_BSIZE :: int where "DEV_BSIZE = 512"

text \<open>
  The object store and the transaction layer are outside this file. Their answers are
  taken from the surroundings, as functions of the byte range of the call:
  \<open>dmu_read_err\<close> for \<open>dmu_read_by_dnode\<close> and \<open>dmu_read_uio_dnode\<close>, \<open>tx_assign_err\<close> for
  \<open>dmu_tx_assign\<close> on the transaction created for the range, \<open>dmu_write_uio_err\<close> for
  \<open>dmu_write_uio_dnode\<close>, \<open>dmu_free_err\<close> for \<open>dmu_free_long_range\<close>.
  \<open>dmu_read_uio_dnode\<close> and \<open>dmu_write_uio_dnode\<close> are handed the \<open>uio\<close> itself, so a
  call that fails may have consumed part of the chunk before it returns:
  \<open>dmu_read_uio_moved\<close> and \<open>dmu_write_uio_moved\<close> are the number of bytes by which the
  store has advanced the \<open>uio\<close> in that case.
\<close>

record io_env =
  dmu_read_err :: "nat \<Rightarrow> nat \<Rightarrow> error"
  dmu_read_uio_moved :: "nat \<Rightarrow> nat \<Rightarrow> nat"
  tx_assign_err :: "nat \<Rightarrow> nat \<Rightarrow> error"
  dmu_write_uio_err :: "nat \<Rightarrow> nat \<Rightarrow> error"
  dmu_write_uio_moved :: "nat \<Rightarrow> nat \<Rightarrow> nat"
  dmu_free_err :: "nat \<Rightarrow> nat \<Rightarrow> error"

text \<open>
  What a routine does to the store, the log and the statistics, in the order of the calls.
  \<open>DmuRead\<close> is a read that succeeded and \<open>DmuReadFailed\<close> one that returned an error;
  \<open>TxAbort\<close>, \<open>DmuWrite\<close>, \<open>LogWrite\<close> and \<open>TxCommit\<close> belong to the transaction of one
  write chunk, \<open>FreeTxAbort\<close>, \<open>LogTruncate\<close>, \<open>FreeTxCommit\<close> and \<open>DmuFree\<close> to an unmap.
  The data bytes themselves are not modelled.
\<close>

datatype io_event =
    DmuRead nat nat
  | DmuReadFailed nat nat
  | TxAbort nat nat
  | DmuWrite nat nat
  | DmuWriteFailed nat nat
  | LogWrite nat nat bool
  | TxCommit nat nat
  | FreeTxAbort nat nat
  | LogTruncate nat nat
  | FreeTxCommit nat nat
  | DmuFree nat nat
  | ZilCommit
  | KstatRead int
  | KstatWrite int

text \<open>The length of the byte range that an event of a read or write chunk covers.\<close>

fun chunk_size :: "io_event \<Rightarrow> nat" where
  "chunk_size (DmuRead off n) = n"
| "chunk_size (DmuReadFailed off n) = n"
| "chunk_size (TxAbort off n) = n"
| "chunk_size (DmuWrite off n) = n"
| "chunk_size (DmuWriteFailed off n) = n"
| "chunk_size (LogWrite off n c) = n"
| "chunk_size (TxCommit off n) = n"
| "chunk_size _ = 0"

text \<open>The bytes of the chunks that were read, and of those written in a committed transaction.\<close>

fun bytes_read :: "io_event list \<Rightarrow> nat" where
  "bytes_read [] = 0"
| "bytes_read (DmuRead off n # es) = n + bytes_read es"
| "bytes_read (e # es) = bytes_read es"

fun bytes_written :: "io_event list \<Rightarrow> nat" where
  "bytes_written [] = 0"
| "bytes_written (DmuWrite off n # es) = n + bytes_written es"
| "bytes_written (e # es) = bytes_written es"

text \<open>
  A run of write chunks each of which went through its whole transaction: the write, the
  log record and the commit.
\<close>

fun chunks_committed :: "io_event list \<Rightarrow> bool" where
  "chunks_committed [] = True"
| "chunks_committed (DmuWrite a n # LogWrite a' n' c # TxCommit a'' n'' # es) =
     (a = a' \<and> a = a'' \<and> n = n' \<and> n = n'' \<and> chunks_committed es)"
| "chunks_committed _ = False"

text \<open>A run of chunks each of which was read.\<close>

fun chunks_read :: "io_event list \<Rightarrow> bool" where
  "chunks_read [] = True"
| "chunks_read (DmuRead a n # es) = chunks_read es"
| "chunks_read _ = False"

text \<open>
  The byte ranges that the events of a request have transferred, in order: those of the
  chunks read and of the chunks written. \<open>contiguous a rs\<close> says that the ranges follow one
  another from the offset \<open>a\<close> on without gap or overlap, none of them empty; offsets are
  64-bit values. \<open>xfer_total\<close> is the number of bytes in the ranges.
\<close>

fun xfer_ranges :: "io_event list \<Rightarrow> (nat \<times> nat) list" where
  "xfer_ranges [] = []"
| "xfer_ranges (DmuRead a n # es) = (a, n) # xfer_ranges es"
| "xfer_ranges (DmuWrite a n # es) = (a, n) # xfer_ranges es"
| "xfer_ranges (e # es) = xfer_ranges es"

fun contiguous :: "nat \<Rightarrow> (nat \<times> nat) list \<Rightarrow> bool" where
  "contiguous a [] = True"
| "contiguous a ((b, n) # rs) = (b = a \<and> 0 < n \<and> contiguous ((a + n) mod 2 ^ 64) rs)"

definition xfer_total :: "io_event list \<Rightarrow> nat" where
  "xfer_total evs = sum_list (map snd (xfer_ranges evs))"

definition zvol_ensure_zilog :: "zvol_state \<Rightarrow> zvol_state" where
  "zvol_ensure_zilog zv =
     (if \<not> zv_zilog zv
      then zv\<lparr>zv_flags := zv_flags zv OR ZVOL_WRITTEN_TO, zv_zilog := True\<rparr>
      else zv)"

section \<open>The strategy routine\<close>

datatype bio_cmd = BIO_READ | BIO_WRITE | BIO_FLUSH | BIO_DELETE | BIO_OTHER

text \<open>
  The fields of \<open>struct bio\<close> that the routine uses. Offset and length are non-negative
  when GEOM or devfs hands the request over.
\<close>

record bio =
  bio_cmd :: bio_cmd
  bio_offset :: nat
  bio_length :: nat
  bio_completed :: nat

text \<open>
  The \<open>while\<close> loop of \<open>zvol_strategy_impl\<close>. It returns the error, the final \<open>off\<close> and
  \<open>resid\<close>, and the events. \<open>off\<close> is a \<open>uint64_t\<close>. A failed \<open>dmu_tx_assign\<close> aborts
  the transaction; the checksum error is converted before the loop is left.
\<close>

function strategy_loop ::
  "io_env \<Rightarrow> bool \<Rightarrow> bool \<Rightarrow> nat \<Rightarrow> nat \<Rightarrow> nat \<Rightarrow> error \<times> nat \<times> nat \<times> io_event list" where
  "strategy_loop env doread commit volsize off resid =
     (if resid \<noteq> 0 \<and> off < volsize then
        let size = min resid zvol_maxphys;
            error = (if doread then dmu_read_err env off size else tx_assign_err env off size)
        in case error of
             Some e \<Rightarrow>
               (Some (if e = ECKSUM then EIO else e), off, resid,
                [if doread then DmuReadFailed off size else TxAbort off size])
           | None \<Rightarrow>
               (case strategy_loop env doread commit volsize ((off + size) mod 2 ^ 64)
                       (resid - size) of
                  (err, off', resid', evs) \<Rightarrow>
                    (err, off', resid',
                     (if doread then [DmuRead off size]
                      else [DmuWrite off size, LogWrite off size commit, TxCommit off size])
                     @ evs))
      else (None, off, resid, []))"
  by pat_completeness auto
termination
  by (relation "measure (\<lambda>(env, doread, commit, volsize, off, resid). resid)")
     (auto simp: zvol_maxphys_def DMU_MAX_ACCESS_def)

declare strategy_loop.simps [simp del]

text \<open>
  \<open>zvol_strategy_impl\<close> for the request \<open>bp\<close> on the volume \<open>zvr->zv\<close>. The result is the
  error delivered with the request, the request, the volume and the events.
\<close>

definition strategy_io ::
  "io_env \<Rightarrow> zvol_state \<Rightarrow> bio \<Rightarrow> bool \<Rightarrow> error \<times> bio \<times> zvol_state \<times> io_event list" where
  "strategy_io env zv bp doread =
     (let off = bio_offset bp; volsize = zv_volsize zv; resid = bio_length bp in
      if resid > 0 \<and> off \<ge> volsize then (Some EIO, bp, zv, [])
      else
        let commit = (\<not> doread \<and> os_sync_always zv);
            (error, off1, resid1, evs) =
              (if bio_cmd bp = BIO_DELETE then
                 (case tx_assign_err env off resid of
                    Some e \<Rightarrow> (Some e, off, resid, [FreeTxAbort off resid])
                  | None \<Rightarrow>
                      (dmu_free_err env off resid, off, 0,
                       [LogTruncate off resid, FreeTxCommit off resid, DmuFree off resid]))
               else strategy_loop env doread commit volsize off resid);
            completed = bio_length bp - resid1;
            bp1 = bp\<lparr>bio_completed := completed\<rparr>;
            error1 = (if completed < bio_length bp \<and> off1 > volsize then Some EINVAL else error);
            stats = (case bio_cmd bp of
                       BIO_READ \<Rightarrow> [KstatRead (int completed)]
                     | BIO_WRITE \<Rightarrow> [KstatWrite (int completed)]
                     | _ \<Rightarrow> [])
        in (error1, bp1, zv, evs @ stats @ (if commit then [ZilCommit] else [])))"

definition zvol_strategy_impl ::
  "io_env \<Rightarrow> zvol_state option \<Rightarrow> bio \<Rightarrow> error \<times> bio \<times> zvol_state option \<times> io_event list" where
  "zvol_strategy_impl env zvp bp =
     (case zvp of
        None \<Rightarrow> (Some ENXIO, bp, None, [])
      | Some zv \<Rightarrow>
          if zv_flags zv AND ZVOL_REMOVING \<noteq> 0 then (Some ENXIO, bp, Some zv, [])
          else
            (case bio_cmd bp of
               BIO_READ \<Rightarrow>
                 (case strategy_io env zv bp True of
                    (e, bp', zv', evs) \<Rightarrow> (e, bp', Some zv', evs))
             | BIO_OTHER \<Rightarrow> (Some EOPNOTSUPP, bp, Some zv, [])
             | _ \<Rightarrow>
                 if zv_flags zv AND ZVOL_RDONLY \<noteq> 0 then (Some EROFS, bp, Some zv, [])
                 else if bio_cmd bp = BIO_FLUSH
                 then (None, bp, Some (zvol_ensure_zilog zv), [ZilCommit])
                 else
                   (case strategy_io env (zvol_ensure_zilog zv) bp False of
                      (e, bp', zv', evs) \<Rightarrow> (e, bp', Some zv', evs))))"

section \<open>Character-device read, write and unmap\<close>

text \<open>
  The offset and the residual count of a \<open>struct uio\<close>; both are signed 64-bit values.
  \<open>u64\<close> is the value of a signed offset once C has converted it for a comparison or a
  subtraction with the unsigned volume size.
\<close>

record uio =
  uio_offset :: int
  uio_resid :: int

definition u64 :: "int \<Rightarrow> nat" where
  "u64 x = nat (x mod 2 ^ 64)"

text \<open>
  The size of the next chunk in both character-device loops: the smaller of the residual
  count and \<open>DMU_MAX_ACCESS >> 1\<close>, cut down to what is left before the end of the
  volume.
\<close>

definition cdev_bytes :: "nat \<Rightarrow> int \<Rightarrow> int \<Rightarrow> nat" where
  "cdev_bytes volsize off resid =
     (let bytes0 = nat (min resid (int cdev_maxphys))
      in if bytes0 > volsize - u64 off then volsize - u64 off else bytes0)"

text \<open>
  The bytes of a chunk of \<open>n\<close> bytes at \<open>a\<close> that a failing \<open>dmu_read_uio_dnode\<close> has
  moved the \<open>uio\<close> by: what the store says, and never more than the chunk.
\<close>

definition failed_read_moved :: "io_env \<Rightarrow> nat \<Rightarrow> nat \<Rightarrow> nat" where
  "failed_read_moved env a n = min (dmu_read_uio_moved env a n) n"

text \<open>
  The loop of \<open>zvol_cdev_read\<close>. The store advances the \<open>uio\<close> by the bytes of a chunk it
  has read; when it returns an error the loop ends with the \<open>uio\<close> where the store has
  left it.
\<close>

function cdev_read_loop ::
  "io_env \<Rightarrow> nat \<Rightarrow> int \<Rightarrow> int \<Rightarrow> error \<times> int \<times> int \<times> io_event list" where
  "cdev_read_loop env volsize off resid =
     (if resid > 0 \<and> u64 off < volsize then
        let bytes = cdev_bytes volsize off resid
        in case dmu_read_err env (u64 off) bytes of
             Some e \<Rightarrow>
               (Some (if e = ECKSUM then EIO else e),
                off + int (failed_read_moved env (u64 off) bytes),
                resid - int (failed_read_moved env (u64 off) bytes),
                [DmuReadFailed (u64 off) bytes])
           | None \<Rightarrow>
               (case cdev_read_loop env volsize (off + int bytes) (resid - int bytes) of
                  (err, off', resid', evs) \<Rightarrow> (err, off', resid', DmuRead (u64 off) bytes # evs))
      else (None, off, resid, []))"
  by pat_completeness auto
termination
  by (relation "measure (\<lambda>(env, volsize, off, resid). nat resid)")
     (auto simp: cdev_bytes_def cdev_maxphys_def DMU_MAX_ACCESS_def Let_def)

declare cdev_read_loop.simps [simp del]

definition zvol_cdev_read :: "io_env \<Rightarrow> zvol_state \<Rightarrow> uio \<Rightarrow> error \<times> uio \<times> io_event list" where
  "zvol_cdev_read env zv u =
     (let volsize = zv_volsize zv in
      if uio_resid u > 0 \<and> (uio_offset u < 0 \<or> u64 (uio_offset u) > volsize)
      then (Some EIO, u, [])
      else
        let start_resid = uio_resid u;
            (error, off', resid', evs) = cdev_read_loop env volsize (uio_offset u) (uio_resid u);
            nread = start_resid - resid'
        in (error, u\<lparr>uio_offset := off', uio_resid := resid'\<rparr>, evs @ [KstatRead nread]))"

text \<open>
  The bytes of a chunk of \<open>n\<close> bytes at \<open>a\<close> that a failing \<open>dmu_write_uio_dnode\<close> has
  consumed from the \<open>uio\<close>: what the store says, and never more than the chunk.
\<close>

definition failed_copy_moved :: "io_env \<Rightarrow> nat \<Rightarrow> nat \<Rightarrow> nat" where
  "failed_copy_moved env a n = min (dmu_write_uio_moved env a n) n"

text \<open>
  The loop of \<open>zvol_cdev_write\<close>. A failed \<open>dmu_tx_assign\<close> aborts the transaction of the
  chunk and leaves the \<open>uio\<close> as it is. A failed \<open>dmu_write_uio_dnode\<close> writes no log
  record, and the transaction, which is assigned by then, is committed; the \<open>uio\<close> is
  left where the store has advanced it to. No error is converted.
\<close>

function cdev_write_loop ::
  "io_env \<Rightarrow> bool \<Rightarrow> nat \<Rightarrow> int \<Rightarrow> int \<Rightarrow> error \<times> int \<times> int \<times> io_event list" where
  "cdev_write_loop env commit volsize off resid =
     (if resid > 0 \<and> u64 off < volsize then
        let bytes = cdev_bytes volsize off resid
        in case tx_assign_err env (u64 off) bytes of
             Some e \<Rightarrow> (Some e, off, resid, [TxAbort (u64 off) bytes])
           | None \<Rightarrow>
               (case dmu_write_uio_err env (u64 off) bytes of
                  Some e \<Rightarrow>
                    (Some e, off + int (failed_copy_moved env (u64 off) bytes),
                     resid - int (failed_copy_moved env (u64 off) bytes),
                     [DmuWriteFailed (u64 off) bytes, TxCommit (u64 off) bytes])
                | None \<Rightarrow>
                    (case cdev_write_loop env commit volsize (off + int bytes)
                            (resid - int bytes) of
                       (err, off', resid', evs) \<Rightarrow>
                         (err, off', resid',
                          [DmuWrite (u64 off) bytes, LogWrite (u64 off) bytes commit,
                           TxCommit (u64 off) bytes] @ evs)))
      else (None, off, resid, []))"
  by pat_completeness auto
termination
  by (relation "measure (\<lambda>(env, commit, volsize, off, resid). nat resid)")
     (auto simp: cdev_bytes_def cdev_maxphys_def DMU_MAX_ACCESS_def Let_def)

declare cdev_write_loop.simps [simp del]

text \<open>\<open>io_sync\<close> is \<open>ioflag & IO_SYNC\<close>.\<close>

definition zvol_cdev_write ::
  "io_env \<Rightarrow> zvol_state \<Rightarrow> uio \<Rightarrow> bool \<Rightarrow> error \<times> uio \<times> zvol_state \<times> io_event list" where
  "zvol_cdev_write env zv u io_sync =
     (let volsize = zv_volsize zv in
      if uio_resid u > 0 \<and> (uio_offset u < 0 \<or> u64 (uio_offset u) > volsize)
      then (Some EIO, u, zv, [])
      else
        let start_resid = uio_resid u;
            commit = (io_sync \<or> os_sync_always zv);
            zv1 = zvol_ensure_zilog zv;
            (error, off', resid', evs) =
               cdev_write_loop env commit volsize (uio_offset u) (uio_resid u);
            nwritten = start_resid - resid'
        in (error, u\<lparr>uio_offset := off', uio_resid := resid'\<rparr>, zv1,
            evs @ [KstatWrite nwritten] @ (if commit then [ZilCommit] else [])))"

text \<open>
  The \<open>DIOCGDELETE\<close> case of \<open>zvol_cdev_ioctl\<close>; \<open>unmap_enabled\<close> is the global
  \<open>zvol_unmap_enabled\<close>, \<open>offset\<close> and \<open>len\<close> (\<open>length\<close> in the source) are the two \<open>off_t\<close> values of the
  argument.
\<close>

definition zvol_cdev_ioctl_delete ::
  "bool \<Rightarrow> io_env \<Rightarrow> zvol_state \<Rightarrow> int \<Rightarrow> int \<Rightarrow> error \<times> zvol_state \<times> io_event list" where
  "zvol_cdev_ioctl_delete unmap_enabled env zv offset len =
     (if \<not> unmap_enabled then (None, zv, [])
      else if offset mod DEV_BSIZE \<noteq> 0 \<or> len mod DEV_BSIZE \<noteq> 0 \<or> offset < 0
              \<or> u64 offset \<ge> zv_volsize zv \<or> len \<le> 0
      then (Some EINVAL, zv, [])
      else
        let zv1 = zvol_ensure_zilog zv
        in case tx_assign_err env (u64 offset) (nat len) of
             Some e \<Rightarrow> (Some e, zv1, [FreeTxAbort (u64 offset) (nat len)])
           | None \<Rightarrow>
               (dmu_free_err env (u64 offset) (nat len), zv1,
                [LogTruncate (u64 offset) (nat len), FreeTxCommit (u64 offset) (nat len),
                 DmuFree (u64 offset) (nat len)]
                @ (if os_sync_always zv1 then [ZilCommit] else [])))"

section \<open>Waiting for the last close\<close>

text \<open>
  \<open>zvol_wait_close\<close>. \<open>hz\<close> is the kernel's tick rate, a C \<open>int\<close>, and the timeout handed to
  the sleep is the \<open>int\<close> product \<open>10 * hz\<close>, taken in 32 bits. \<open>msleep\<close> belongs to the
  kernel, not to this file, and is a parameter: given the volume as it is when the thread
  goes to sleep on it (the sleep releases \<open>zv_state_lock\<close>) and the timeout in ticks, it
  gives the volume as the other threads have left it when the sleep ends and the number of
  ticks the sleep took, or \<open>None\<close> when the sleep never ends. The result of the routine is
  the volume when it returns and the ticks it has waited, \<open>None\<close> when it does not return.
  The return value of \<open>msleep\<close> is not looked at.
\<close>

definition zvol_wait_close ::
  "(zvol_state \<Rightarrow> int \<Rightarrow> (zvol_state \<times> nat) option) \<Rightarrow> 32 word \<Rightarrow> zvol_state
   \<Rightarrow> (zvol_state \<times> nat) option" where
  "zvol_wait_close msleep hz zv =
     (if zv_volmode zv \<noteq> ZFS_VOLMODE_GEOM then Some (zv, 0)
      else
        let zv1 = zv\<lparr>zso_dying := True\<rparr>
        in if zv_open_count zv1 \<noteq> 0 then msleep zv1 (sint (10 * hz)) else Some (zv1, 0))"

section \<open>Example volumes and surroundings\<close>

text \<open>
  Surroundings in which the namespace lock is taken at the second attempt and first-open
  setup succeeds, and two volumes that were never opened, one per mode.
\<close>

definition ex_env :: open_env where
  "ex_env = \<lparr>ns_owned = False, ns_tries = [False, True], fo_error = None, fo_handle = 7,
             fo_volsize = 1048576, incompat_enc = False\<rparr>"

definition ex_dev :: zvol_state where
  "ex_dev = \<lparr>zv_volsize = 0, zv_volmode = ZFS_VOLMODE_DEV, zv_flags = 0, zv_open_count = 0,
             zv_objset = None, zv_zilog = False, zso_dying = False, os_sync_always = False\<rparr>"

definition ex_geom :: zvol_state where
  "ex_geom = ex_dev\<lparr>zv_volmode := ZFS_VOLMODE_GEOM\<rparr>"

definition ex_rdonly :: zvol_state where
  "ex_rdonly = ex_dev\<lparr>zv_flags := ZVOL_RDONLY\<rparr>"

text \<open>The two volumes after one open: the device exclusively, the provider by one reader.\<close>

definition ex_dev_excl :: zvol_state where
  "ex_dev_excl = ex_dev\<lparr>zv_volsize := 1048576, zv_flags := ZVOL_EXCL, zv_open_count := 1,
                        zv_objset := Some 7\<rparr>"

definition ex_geom_open :: zvol_state where
  "ex_geom_open = ex_geom\<lparr>zv_volsize := 1048576, zv_open_count := 1, zv_objset := Some 7\<rparr>"

text \<open>
  An open volume of 100 MB in character-device mode, whose device node takes reads, writes
  and ioctls and hands block requests to the strategy routine, and surroundings for the
  I/O paths: a store that answers every call with success, one whose transaction for the
  chunk at 32 MB cannot be assigned, one whose copy into the chunk at 32 MB fails after
  4096 bytes, and one that reports a checksum failure from every read and every
  transaction assignment.
\<close>

definition ex_vol :: zvol_state where
  "ex_vol = \<lparr>zv_volsize = 104857600, zv_volmode = ZFS_VOLMODE_DEV, zv_flags = 0,
             zv_open_count = 1, zv_objset = Some 7, zv_zilog = True, zso_dying = False,
             os_sync_always = False\<rparr>"

definition ex_io_ok :: io_env where
  "ex_io_ok = \<lparr>dmu_read_err = (\<lambda>off n. None), dmu_read_uio_moved = (\<lambda>off n. 0),
               tx_assign_err = (\<lambda>off n. None),
               dmu_write_uio_err = (\<lambda>off n. None), dmu_write_uio_moved = (\<lambda>off n. 0),
               dmu_free_err = (\<lambda>off n. None)\<rparr>"

definition ex_io_assign_fail :: io_env where
  "ex_io_assign_fail =
     ex_io_ok\<lparr>tx_assign_err := (\<lambda>off n. if off = 33554432 then Some (EOTHER 28) else None)\<rparr>"

definition ex_io_copy_fail :: io_env where
  "ex_io_copy_fail =
     ex_io_ok\<lparr>dmu_write_uio_err := (\<lambda>off n. if off = 33554432 then Some (EOTHER 14) else None),
              dmu_write_uio_moved := (\<lambda>off n. 4096)\<rparr>"

definition ex_io_cksum :: io_env where
  "ex_io_cksum =
     ex_io_ok\<lparr>dmu_read_err := (\<lambda>off n. Some ECKSUM), tx_assign_err := (\<lambda>off n. Some ECKSUM)\<rparr>"

text \<open>
  A sleep that nobody wakes and during which the volume does not change: with a positive
  timeout it lasts the whole timeout, with any other timeout it does not end.
\<close>

definition ex_msleep :: "zvol_state \<Rightarrow> int \<Rightarrow> (zvol_state \<times> nat) option" where
  "ex_msleep z timo = (if 0 < timo then Some (z, nat timo) else None)"

lemmas open_close_defs =
  zvol_cdev_open_def zvol_cdev_open_retry.simps zvol_first_open_def open_checks_def
  out_opened_def FREAD_def FWRITE_def O_EXCL_def ZVOL_RDONLY_def ZVOL_EXCL_def
  ZVOL_REMOVING_def zvol_cdev_close_def zvol_cdev_close_zv_def zvol_last_close_def Let_def
  zvol_geom_access_def zvol_geom_open_def zvol_geom_open_retry.simps zvol_geom_close_def
  zvol_geom_close_zv_def

lemmas ex_defs = ex_env_def ex_dev_def ex_geom_def ex_rdonly_def ex_dev_excl_def ex_geom_open_def

lemmas ex_io_defs = ex_vol_def ex_io_ok_def ex_io_assign_fail_def ex_io_copy_fail_def
  ex_io_cksum_def

lemmas io_defs =
  zvol_strategy_impl_def strategy_io_def strategy_loop.simps zvol_cdev_read_def
  cdev_read_loop.simps zvol_cdev_write_def cdev_write_loop.simps cdev_bytes_def u64_def
  failed_copy_moved_def failed_read_moved_def
  zvol_cdev_ioctl_delete_def zvol_ensure_zilog_def zvol_maxphys_def cdev_maxphys_def
  DMU_MAX_ACCESS_def DEV_BSIZE_def ZVOL_REMOVING_def ZVOL_RDONLY_def ZVOL_WRITTEN_TO_def
  Let_def

section \<open>The open count\<close>

lemma excl_set: "(f OR ZVOL_EXCL) AND ZVOL_EXCL \<noteq> 0"
  by (simp add: ZVOL_EXCL_def word_ao_absorbs)

lemma excl_clear: "(f AND NOT ZVOL_EXCL) AND ZVOL_EXCL = (0::32 word)"
  by (simp add: word_bw_assocs)

lemma last_close_count [simp]: "zv_open_count (zvol_last_close zv) = zv_open_count zv"
  by (simp add: zvol_last_close_def)

lemma out_opened_count [simp]: "zv_open_count (out_opened zv) = zv_open_count zv"
  by (simp add: out_opened_def)

lemma open_checks_count:
  "open_checks w x c zv = (e, zv') \<Longrightarrow>
   zv_open_count zv' = zv_open_count zv + (if e = None then c else 0)"
  by (auto simp: open_checks_def Let_def split: if_splits)

lemma first_open_count:
  "zvol_first_open env zv = (e, zv1) \<Longrightarrow> zv_open_count zv1 = zv_open_count zv"
  by (auto simp: zvol_first_open_def split: option.splits)

lemma geom_open_retry_count:
  "zvol_geom_open_retry env tries zv flag c = Some (e, zv') \<Longrightarrow>
   zv_open_count zv' = zv_open_count zv + (if e = None then c else 0)"
proof (induction tries)
  case Nil
  then show ?case
    by (subst (asm) zvol_geom_open_retry.simps)
       (auto split: if_splits prod.splits option.splits
             dest!: open_checks_count first_open_count)
next
  case (Cons t ts)
  from Cons.prems show ?case
    by (subst (asm) zvol_geom_open_retry.simps)
       (auto split: if_splits prod.splits option.splits
             dest!: open_checks_count first_open_count Cons.IH)
qed

lemma cdev_open_retry_count:
  "zvol_cdev_open_retry env tries zv flags = Some (e, zv') \<Longrightarrow>
   zv_open_count zv' = zv_open_count zv + (if e = None then 1 else 0)"
proof (induction tries)
  case Nil
  then show ?case
    by (subst (asm) zvol_cdev_open_retry.simps)
       (auto split: if_splits prod.splits option.splits
             dest!: open_checks_count first_open_count)
next
  case (Cons t ts)
  from Cons.prems show ?case
    by (subst (asm) zvol_cdev_open_retry.simps)
       (auto split: if_splits prod.splits option.splits
             dest!: open_checks_count first_open_count Cons.IH)
qed

lemma geom_open_count:
  "zvol_geom_open probing env (Some zv) flag c = Some (e, Some zv') \<Longrightarrow>
   zv_open_count zv' = zv_open_count zv + (if e = None then c else 0)"
  by (auto simp: zvol_geom_open_def split: if_splits dest!: geom_open_retry_count)


lemma cdev_close_count: "zv_open_count (zvol_cdev_close_zv zv) = zv_open_count zv - 1"
  by (simp add: zvol_cdev_close_zv_def Let_def)

lemma cdev_open_count:
  "zvol_cdev_open env (Some zv) flags = Some (e, Some zv') \<Longrightarrow>
   zv_open_count zv' = zv_open_count zv + (if e = None then 1 else 0)"
  by (auto simp: zvol_cdev_open_def dest!: cdev_open_retry_count)



section \<open>Invariants of the open state\<close>

lemma geom_open_retry_cases:
  "zvol_geom_open_retry env tries zv flag c = Some r \<Longrightarrow>
     ((zso_dying zv \<or> zv_flags zv AND ZVOL_REMOVING \<noteq> 0) \<and> r = (Some ENXIO, zv))
   \<or> (\<not> zso_dying zv \<and> zv_flags zv AND ZVOL_REMOVING = 0 \<and> zv_open_count zv = 0
        \<and> (\<exists>e. fo_error env = Some e \<and> r = (Some e, zv)))
   \<or> (\<not> zso_dying zv \<and> zv_flags zv AND ZVOL_REMOVING = 0 \<and> zv_open_count zv = 0
        \<and> fo_error env = None
        \<and> r = open_checks
              (flag AND FWRITE \<noteq> 0 \<and> (zv_flags zv AND ZVOL_RDONLY \<noteq> 0 \<or> incompat_enc env))
              (flag AND O_EXCL \<noteq> 0) c
              (zv\<lparr>zv_volsize := fo_volsize env, zv_objset := Some (fo_handle env)\<rparr>))
   \<or> (\<not> zso_dying zv \<and> zv_flags zv AND ZVOL_REMOVING = 0 \<and> zv_open_count zv \<noteq> 0
        \<and> r = open_checks
              (flag AND FWRITE \<noteq> 0 \<and> (zv_flags zv AND ZVOL_RDONLY \<noteq> 0 \<or> incompat_enc env))
              (flag AND O_EXCL \<noteq> 0) c zv)"
proof (induction tries)
  case Nil
  then show ?case
    by (subst (asm) zvol_geom_open_retry.simps)
       (auto simp: zvol_first_open_def split: if_splits option.splits)
next
  case (Cons t ts)
  from Cons.prems show ?case
    by (subst (asm) zvol_geom_open_retry.simps)
       (auto simp: zvol_first_open_def split: if_splits option.splits dest: Cons.IH)
qed

lemma cdev_open_retry_cases:
  "zvol_cdev_open_retry env tries zv flags = Some r \<Longrightarrow>
     (zso_dying zv \<and> r = (Some ENXIO, zv))
   \<or> (\<not> zso_dying zv \<and> zv_open_count zv = 0
        \<and> (\<exists>e. fo_error env = Some e \<and> r = (Some e, zv)))
   \<or> (\<not> zso_dying zv \<and> zv_open_count zv = 0 \<and> fo_error env = None
        \<and> r = open_checks (flags AND FWRITE \<noteq> 0 \<and> zv_flags zv AND ZVOL_RDONLY \<noteq> 0)
              (flags AND O_EXCL \<noteq> 0) 1
              (zv\<lparr>zv_volsize := fo_volsize env, zv_objset := Some (fo_handle env)\<rparr>))
   \<or> (\<not> zso_dying zv \<and> zv_open_count zv \<noteq> 0
        \<and> r = open_checks (flags AND FWRITE \<noteq> 0 \<and> zv_flags zv AND ZVOL_RDONLY \<noteq> 0)
              (flags AND O_EXCL \<noteq> 0) 1 zv)"
proof (induction tries)
  case Nil
  then show ?case
    by (subst (asm) zvol_cdev_open_retry.simps)
       (auto simp: zvol_first_open_def split: if_splits option.splits)
next
  case (Cons t ts)
  from Cons.prems show ?case
    by (subst (asm) zvol_cdev_open_retry.simps)
       (auto simp: zvol_first_open_def split: if_splits option.splits dest: Cons.IH)
qed

lemma last_close_flags [simp]: "zv_flags (zvol_last_close zv) = zv_flags zv"
  by (simp add: zvol_last_close_def)

lemma out_opened_flags [simp]: "zv_flags (out_opened zv) = zv_flags zv"
  by (simp add: out_opened_def)

lemma out_opened_handle: "zv_objset zv \<noteq> None \<Longrightarrow> handle_inv (out_opened zv)"
  by (auto simp: out_opened_def handle_inv_def zvol_last_close_def)

lemma open_checks_handle:
  "zv_objset zv \<noteq> None \<Longrightarrow> handle_inv (snd (open_checks w x c zv))"
  by (auto simp: open_checks_def Let_def split: if_splits intro!: out_opened_handle)

lemma handle_inv_open:
  "handle_inv zv \<Longrightarrow> zv_open_count zv \<noteq> 0 \<Longrightarrow> \<exists>y. zv_objset zv = Some y"
  by (simp add: handle_inv_def)

lemma geom_open_retry_handle:
  assumes "handle_inv zv" "zvol_geom_open_retry env tries zv flag c = Some r"
  shows "handle_inv (snd r)"
  using geom_open_retry_cases [OF assms(2)] assms(1)
  by (auto intro!: open_checks_handle dest: handle_inv_open)

lemma cdev_open_retry_handle:
  assumes "handle_inv zv" "zvol_cdev_open_retry env tries zv flags = Some r"
  shows "handle_inv (snd r)"
  using cdev_open_retry_cases [OF assms(2)] assms(1)
  by (auto intro!: open_checks_handle dest: handle_inv_open)

lemma geom_close_handle:
  "handle_inv zv \<Longrightarrow> zv_open_count zv \<noteq> 0 \<Longrightarrow> handle_inv (zvol_geom_close_zv zv c)"
  by (auto simp: handle_inv_def zvol_geom_close_zv_def zvol_last_close_def Let_def)

lemma cdev_close_handle:
  "handle_inv zv \<Longrightarrow> zv_open_count zv \<noteq> 0 \<Longrightarrow> handle_inv (zvol_cdev_close_zv zv)"
  by (auto simp: handle_inv_def zvol_cdev_close_zv_def zvol_last_close_def Let_def)

lemma step_handle:
  assumes "handle_inv zv" "op_allowed zv x" "step zv x = Some (e, zv')"
  shows "handle_inv zv'"
proof (cases x)
  case (GeomAccess probing env acr acw ace)
  with assms show ?thesis
    by (auto simp: zvol_geom_access_def zvol_geom_open_def zvol_geom_close_def Let_def
             split: if_splits option.splits prod.splits
             dest: geom_open_retry_handle intro: geom_close_handle)
next
  case (CdevOpen env flags)
  with assms show ?thesis
    by (auto simp: zvol_cdev_open_def split: option.splits prod.splits
             dest: cdev_open_retry_handle)
next
  case CdevClose
  with assms show ?thesis
    by (auto simp: zvol_cdev_close_def intro: cdev_close_handle)
qed

lemma run_handle:
  "handle_inv zv \<Longrightarrow> run zv xs = Some zv' \<Longrightarrow> handle_inv zv'"
proof (induction xs arbitrary: zv)
  case Nil
  then show ?case by simp
next
  case (Cons x xs)
  from Cons.prems(2) obtain e zv1
    where a: "op_allowed zv x" and s: "step zv x = Some (e, zv1)" and r: "run zv1 xs = Some zv'"
    by (auto split: if_splits option.splits)
  from Cons.IH [OF step_handle [OF Cons.prems(1) a s] r] show ?case .
qed


lemma first_open_state_excl [simp]:
  "excl_inv (zv\<lparr>zv_volsize := n, zv_objset := h\<rparr>) = excl_inv zv"
  by (simp add: excl_inv_def)

lemma open_checks_excl:
  "excl_inv zv \<Longrightarrow> (x \<longrightarrow> c = 1) \<Longrightarrow> excl_inv (snd (open_checks w x c zv))"
  by (auto simp: open_checks_def excl_inv_def Let_def excl_set)

lemma access_flags_no_excl:
  "((if a then FREAD else 0) OR (if b then FWRITE else 0)) AND O_EXCL = 0"
  by (simp add: FREAD_def FWRITE_def O_EXCL_def)

lemma geom_close_excl: "zv_flags (zvol_geom_close_zv zv c) AND ZVOL_EXCL = 0"
  by (auto simp: zvol_geom_close_zv_def Let_def excl_clear)

lemma cdev_close_excl: "zv_flags (zvol_cdev_close_zv zv) AND ZVOL_EXCL = 0"
  by (auto simp: zvol_cdev_close_zv_def Let_def excl_clear)

lemma geom_open_retry_excl:
  assumes "excl_inv zv" "zvol_geom_open_retry env tries zv flag c = Some r"
    "flag AND O_EXCL = 0"
  shows "excl_inv (snd r)"
  using geom_open_retry_cases [OF assms(2)] assms(1,3)
  by (auto intro!: open_checks_excl)

lemma cdev_open_retry_excl:
  assumes "excl_inv zv" "zvol_cdev_open_retry env tries zv flags = Some r"
  shows "excl_inv (snd r)"
  using cdev_open_retry_cases [OF assms(2)] assms(1)
  by (auto intro!: open_checks_excl)

lemma step_excl:
  assumes "excl_inv zv" "step zv x = Some (e, zv')"
  shows "excl_inv zv'"
proof (cases x)
  case (GeomAccess probing env acr acw ace)
  with assms show ?thesis
    by (auto simp: zvol_geom_access_def zvol_geom_open_def zvol_geom_close_def Let_def
               excl_inv_def [of "zvol_geom_close_zv zv c" for c] geom_close_excl
             split: if_splits option.splits prod.splits
             dest: geom_open_retry_excl [OF _ _ access_flags_no_excl])
next
  case (CdevOpen env flags)
  with assms show ?thesis
    by (auto simp: zvol_cdev_open_def split: option.splits prod.splits
             dest: cdev_open_retry_excl)
next
  case CdevClose
  with assms show ?thesis
    by (auto simp: zvol_cdev_close_def excl_inv_def [of "zvol_cdev_close_zv zv"] cdev_close_excl)
qed

lemma run_excl:
  "excl_inv zv \<Longrightarrow> run zv xs = Some zv' \<Longrightarrow> excl_inv zv'"
proof (induction xs arbitrary: zv)
  case Nil
  then show ?case by simp
next
  case (Cons x xs)
  from Cons.prems(2) obtain e zv1
    where s: "step zv x = Some (e, zv1)" and r: "run zv1 xs = Some zv'"
    by (auto split: if_splits option.splits)
  from Cons.IH [OF step_excl [OF Cons.prems(1) s] r] show ?case .
qed

lemma fresh_handle: "fresh zv \<Longrightarrow> handle_inv zv"
  by (simp add: fresh_def handle_inv_def)

lemma fresh_excl: "fresh zv \<Longrightarrow> excl_inv zv"
  by (simp add: fresh_def excl_inv_def)

lemma step_fail_count:
  assumes "step zv x = Some (Some e, zv')"
  shows "zv_open_count zv' = zv_open_count zv"
proof (cases x)
  case (GeomAccess probing env acr acw ace)
  with assms show ?thesis
    by (auto simp: zvol_geom_access_def zvol_geom_close_def Let_def
             split: if_splits option.splits prod.splits dest!: geom_open_count)
next
  case (CdevOpen env flags)
  with assms show ?thesis
    by (auto split: option.splits prod.splits dest!: cdev_open_count)
next
  case CdevClose
  with assms show ?thesis by (auto simp: zvol_cdev_close_def)
qed

lemma open_checks_fail_teardown:
  "zv_open_count s = 0 \<Longrightarrow> open_checks w x c s = (Some e, s') \<Longrightarrow> s' = zvol_last_close s"
  by (auto simp: open_checks_def out_opened_def Let_def split: if_splits)

text \<open>
  Claim C7. In every state that a never-opened volume reaches through opens and closes,
  a positive open count goes with a present object-store handle and a zero open count with
  an absent one. In particular an open that returns an error while the open count is zero
  leaves the count at zero and the handle absent: when the checks after a successful
  first-open setup fail, the routine runs last-close teardown, which drops the handle that
  the setup acquired.
\<close>

theorem handle_present_iff_open:
  assumes "fresh zv0" "run zv0 ops = Some zv"
  shows "(zv_open_count zv \<noteq> 0 \<longrightarrow> zv_objset zv \<noteq> None)
     \<and> (zv_open_count zv = 0 \<longrightarrow> zv_objset zv = None)
     \<and> (\<forall>x e zv'. op_allowed zv x \<and> zv_open_count zv = 0 \<and> step zv x = Some (Some e, zv')
           \<longrightarrow> zv_open_count zv' = 0 \<and> zv_objset zv' = None)
     \<and> (\<forall>w x c s e s'. zv_open_count s = 0 \<and> open_checks w x c s = (Some e, s')
           \<longrightarrow> s' = zvol_last_close s \<and> zv_objset s' = None)"
proof -
  have h: "handle_inv zv" using run_handle [OF fresh_handle [OF assms(1)] assms(2)] .
  have a: "zv_open_count zv' = 0 \<and> zv_objset zv' = None"
    if "op_allowed zv x" "zv_open_count zv = 0" "step zv x = Some (Some e, zv')" for x e zv'
    using step_handle [OF h that(1,3)] step_fail_count [OF that(3)] that(2)
    by (simp add: handle_inv_def)
  have b: "s' = zvol_last_close s \<and> zv_objset s' = None"
    if "zv_open_count s = 0" "open_checks w x c s = (Some e, s')" for w x c s e s'
    using open_checks_fail_teardown [OF that] by (simp add: zvol_last_close_def)
  from h a b show ?thesis unfolding handle_inv_def by blast
qed

theorem handle_present_iff_open_witness:
  "fresh ex_rdonly \<and> run ex_rdonly [] = Some ex_rdonly
   \<and> op_allowed ex_rdonly (CdevOpen ex_env FWRITE) \<and> zv_open_count ex_rdonly = 0
   \<and> step ex_rdonly (CdevOpen ex_env FWRITE)
        = Some (Some EROFS, ex_rdonly\<lparr>zv_volsize := 1048576\<rparr>)
   \<and> zv_objset (ex_rdonly\<lparr>zv_volsize := 1048576\<rparr>) = None
   \<and> fresh ex_geom \<and> run ex_geom [GeomAccess False ex_env 1 0 0] = Some ex_geom_open
   \<and> zv_open_count ex_geom_open \<noteq> 0 \<and> zv_objset ex_geom_open \<noteq> None
   \<and> zv_open_count (ex_dev\<lparr>zv_objset := Some 7\<rparr>) = 0
   \<and> open_checks True False 1 (ex_dev\<lparr>zv_objset := Some 7\<rparr>) = (Some EROFS, ex_dev)
   \<and> ex_dev = zvol_last_close (ex_dev\<lparr>zv_objset := Some 7\<rparr>)"
proof -
  have f1: "fresh ex_rdonly" by (simp add: fresh_def ex_defs ZVOL_RDONLY_def ZVOL_EXCL_def)
  have r1: "run ex_rdonly [] = Some ex_rdonly" by simp
  have a1: "op_allowed ex_rdonly (CdevOpen ex_env FWRITE)" by (simp add: ex_defs)
  have z1: "zv_open_count ex_rdonly = 0" by (simp add: ex_defs)
  have s1: "step ex_rdonly (CdevOpen ex_env FWRITE)
              = Some (Some EROFS, ex_rdonly\<lparr>zv_volsize := 1048576\<rparr>)"
    by (simp add: ex_defs open_close_defs)
  have f2: "fresh ex_geom" by (simp add: fresh_def ex_defs)
  have r2: "run ex_geom [GeomAccess False ex_env 1 0 0] = Some ex_geom_open"
    by (simp add: ex_defs open_close_defs)
  have z3: "zv_open_count (ex_dev\<lparr>zv_objset := Some 7\<rparr>) = 0" by (simp add: ex_defs)
  have c3: "open_checks True False 1 (ex_dev\<lparr>zv_objset := Some 7\<rparr>) = (Some EROFS, ex_dev)"
    by (simp add: ex_defs open_close_defs)
  from handle_present_iff_open [OF f1 r1] handle_present_iff_open [OF f2 r2]
    f1 r1 a1 z1 s1 f2 r2 z3 c3
  show ?thesis by (simp add: ex_defs zvol_last_close_def)
qed


lemma excl_nonzero: "ZVOL_EXCL \<noteq> 0"
  by (simp add: ZVOL_EXCL_def)

lemma open_checks_busy:
  "\<not> w \<Longrightarrow> zv_open_count zv \<noteq> 0 \<Longrightarrow> x \<or> zv_flags zv AND ZVOL_EXCL \<noteq> 0 \<Longrightarrow>
   open_checks w x c zv = (Some EBUSY, zv)"
  by (auto simp: open_checks_def out_opened_def)

lemma open_checks_grant_excl:
  "\<not> w \<Longrightarrow> zv_open_count zv = 0 \<Longrightarrow> zv_flags zv AND ZVOL_EXCL = 0 \<Longrightarrow>
   open_checks w True 1 zv = (None, zv\<lparr>zv_flags := zv_flags zv OR ZVOL_EXCL, zv_open_count := 1\<rparr>)"
  by (simp add: open_checks_def out_opened_def Let_def)

lemma cdev_open_retry_opened:
  "\<not> zso_dying zv \<Longrightarrow> zv_open_count zv \<noteq> 0 \<Longrightarrow>
   zvol_cdev_open_retry env tries zv flags =
     Some (open_checks (flags AND FWRITE \<noteq> 0 \<and> zv_flags zv AND ZVOL_RDONLY \<noteq> 0)
             (flags AND O_EXCL \<noteq> 0) 1 zv)"
  by (subst zvol_cdev_open_retry.simps) simp

lemma geom_open_retry_opened:
  "\<not> zso_dying zv \<Longrightarrow> zv_flags zv AND ZVOL_REMOVING = 0 \<Longrightarrow> zv_open_count zv \<noteq> 0 \<Longrightarrow>
   zvol_geom_open_retry env tries zv flag c =
     Some (open_checks
             (flag AND FWRITE \<noteq> 0 \<and> (zv_flags zv AND ZVOL_RDONLY \<noteq> 0 \<or> incompat_enc env))
             (flag AND O_EXCL \<noteq> 0) c zv)"
  by (subst zvol_geom_open_retry.simps) simp

lemma cdev_open_retry_first:
  "\<not> zso_dying zv \<Longrightarrow> zv_open_count zv = 0 \<Longrightarrow> fo_error env = None \<Longrightarrow>
   ns_owned env \<or> True \<in> set tries \<Longrightarrow>
   zvol_cdev_open_retry env tries zv flags =
     Some (open_checks (flags AND FWRITE \<noteq> 0 \<and> zv_flags zv AND ZVOL_RDONLY \<noteq> 0)
             (flags AND O_EXCL \<noteq> 0) 1
             (zv\<lparr>zv_volsize := fo_volsize env, zv_objset := Some (fo_handle env)\<rparr>))"
proof (induction tries)
  case Nil
  then show ?case
    by (subst zvol_cdev_open_retry.simps) (simp add: zvol_first_open_def)
next
  case (Cons t ts)
  then show ?case
    by (subst zvol_cdev_open_retry.simps) (auto simp: zvol_first_open_def)
qed

lemma last_close_volmode [simp]: "zv_volmode (zvol_last_close zv) = zv_volmode zv"
  by (simp add: zvol_last_close_def)

lemma out_opened_volmode [simp]: "zv_volmode (out_opened zv) = zv_volmode zv"
  by (simp add: out_opened_def)

lemma open_checks_volmode [simp]: "zv_volmode (snd (open_checks w x c zv)) = zv_volmode zv"
  by (auto simp: open_checks_def Let_def)

lemma geom_close_volmode [simp]: "zv_volmode (zvol_geom_close_zv zv c) = zv_volmode zv"
  by (simp add: zvol_geom_close_zv_def Let_def)

lemma cdev_close_volmode [simp]: "zv_volmode (zvol_cdev_close_zv zv) = zv_volmode zv"
  by (simp add: zvol_cdev_close_zv_def Let_def)

lemma geom_open_retry_volmode:
  assumes "zvol_geom_open_retry env tries zv flag c = Some r"
  shows "zv_volmode (snd r) = zv_volmode zv"
  using geom_open_retry_cases [OF assms] by auto

lemma cdev_open_retry_volmode:
  assumes "zvol_cdev_open_retry env tries zv flags = Some r"
  shows "zv_volmode (snd r) = zv_volmode zv"
  using cdev_open_retry_cases [OF assms] by auto

lemma step_volmode:
  assumes "step zv x = Some (e, zv')"
  shows "zv_volmode zv' = zv_volmode zv"
proof (cases x)
  case (GeomAccess probing env acr acw ace)
  with assms show ?thesis
    by (auto simp: zvol_geom_access_def zvol_geom_open_def zvol_geom_close_def Let_def
             split: if_splits option.splits prod.splits
             dest: geom_open_retry_volmode)
next
  case (CdevOpen env flags)
  with assms show ?thesis
    by (auto simp: zvol_cdev_open_def split: option.splits prod.splits
             dest: cdev_open_retry_volmode)
next
  case CdevClose
  with assms show ?thesis
    by (auto simp: zvol_cdev_close_def)
qed

lemma run_volmode:
  "run zv xs = Some zv' \<Longrightarrow> zv_volmode zv' = zv_volmode zv"
proof (induction xs arbitrary: zv)
  case Nil
  then show ?case by simp
next
  case (Cons x xs)
  from Cons.prems obtain e zv1
    where s: "step zv x = Some (e, zv1)" and r: "run zv1 xs = Some zv'"
    by (auto split: if_splits option.splits)
  from Cons.IH [OF r] step_volmode [OF s] show ?case by simp
qed

lemma open_checks_noexcl:
  "zv_flags zv AND ZVOL_EXCL = 0 \<Longrightarrow> zv_flags (snd (open_checks w False c zv)) AND ZVOL_EXCL = 0"
  by (auto simp: open_checks_def Let_def)

lemma geom_open_retry_noexcl:
  assumes "zv_flags zv AND ZVOL_EXCL = 0" "zvol_geom_open_retry env tries zv flag c = Some r"
    "flag AND O_EXCL = 0"
  shows "zv_flags (snd r) AND ZVOL_EXCL = 0"
  using geom_open_retry_cases [OF assms(2)] assms(1,3)
  by (auto intro!: open_checks_noexcl)

lemma geom_step_noexcl:
  assumes "zv_flags zv AND ZVOL_EXCL = 0"
    "step zv (GeomAccess probing env acr acw ace) = Some (e, zv')"
  shows "zv_flags zv' AND ZVOL_EXCL = 0"
  using assms
  by (auto simp: zvol_geom_access_def zvol_geom_open_def zvol_geom_close_def Let_def
             geom_close_excl
           split: if_splits option.splits prod.splits
           dest: geom_open_retry_noexcl [OF _ _ access_flags_no_excl])

lemma run_geom_noexcl:
  "zv_volmode zv = ZFS_VOLMODE_GEOM \<Longrightarrow> zv_flags zv AND ZVOL_EXCL = 0 \<Longrightarrow>
   run zv xs = Some zv' \<Longrightarrow> zv_flags zv' AND ZVOL_EXCL = 0"
proof (induction xs arbitrary: zv)
  case Nil
  then show ?case by simp
next
  case (Cons x xs)
  from Cons.prems(3) obtain e zv1
    where a: "op_allowed zv x" and s: "step zv x = Some (e, zv1)" and r: "run zv1 xs = Some zv'"
    by (auto split: if_splits option.splits)
  from a Cons.prems(1) obtain probing env acr acw ace
    where x: "x = GeomAccess probing env acr acw ace"
    by (cases x) auto
  have m: "zv_volmode zv1 = ZFS_VOLMODE_GEOM" using step_volmode [OF s] Cons.prems(1) by simp
  have f: "zv_flags zv1 AND ZVOL_EXCL = 0"
    using geom_step_noexcl [OF Cons.prems(2) s [unfolded x]] .
  from Cons.IH [OF m f r] show ?case .
qed

lemma access_flags_write:
  "(((if a then FREAD else 0) OR (if b then FWRITE else 0)) AND FWRITE \<noteq> 0) = b"
  by (simp add: FREAD_def FWRITE_def)

lemma open_checks_grant_shared:
  "zv_flags zv AND ZVOL_EXCL = 0 \<Longrightarrow>
   open_checks False False c zv = (None, out_opened (zv\<lparr>zv_open_count := zv_open_count zv + c\<rparr>))"
  by (simp add: open_checks_def Let_def)

lemma geom_access_granted:
  assumes d: "\<not> zso_dying zv" and rm: "zv_flags zv AND ZVOL_REMOVING = 0"
    and o: "zv_open_count zv \<noteq> 0" and x: "zv_flags zv AND ZVOL_EXCL = 0"
    and n: "0 \<le> acr" "0 \<le> acw" "0 < ace"
    and w: "\<not> (acw \<noteq> 0 \<and> (zv_flags zv AND ZVOL_RDONLY \<noteq> 0 \<or> incompat_enc env))"
  shows "\<exists>zv'. step zv (GeomAccess False env acr acw ace) = Some (None, zv')
     \<and> zv_open_count zv' = zv_open_count zv + word_of_int (acr + acw + ace)
     \<and> zv_flags zv' AND ZVOL_EXCL = 0"
proof -
  let ?fl = "(if acr \<noteq> 0 \<or> ace \<noteq> 0 then FREAD else 0) OR (if acw \<noteq> 0 then FWRITE else 0)"
  let ?c = "word_of_int (acr + acw + ace) :: 32 word"
  from n have p: "acr + acw + ace > 0" by simp
  have wb: "(?fl AND FWRITE \<noteq> 0 \<and> (zv_flags zv AND ZVOL_RDONLY \<noteq> 0 \<or> incompat_enc env)) = False"
    using w unfolding access_flags_write by simp
  have ne: "(?fl AND O_EXCL \<noteq> 0) = False"
    using access_flags_no_excl [of "acr \<noteq> 0 \<or> ace \<noteq> 0" "acw \<noteq> 0"] by simp
  have r: "zvol_geom_open_retry env (ns_tries env) zv ?fl ?c
             = Some (None, out_opened (zv\<lparr>zv_open_count := zv_open_count zv + ?c\<rparr>))"
    unfolding geom_open_retry_opened [OF d rm o] wb ne
    by (simp add: open_checks_grant_shared [OF x])
  have a: "zvol_geom_access False env None (Some zv) acr acw ace
             = Some (None, Some (out_opened (zv\<lparr>zv_open_count := zv_open_count zv + ?c\<rparr>)))"
  proof -
    have "zvol_geom_access False env None (Some zv) acr acw ace
            = zvol_geom_open False env (Some zv) ?fl ?c"
      using p by (simp add: zvol_geom_access_def Let_def)
    also have "\<dots> = map_option (\<lambda>(e, zv'). (e, Some zv'))
                     (zvol_geom_open_retry env (ns_tries env) zv ?fl ?c)"
      by (simp only: zvol_geom_open_def if_False option.case)
    also have "\<dots> = Some (None,
                 Some (out_opened (zv\<lparr>zv_open_count := zv_open_count zv + ?c\<rparr>)))"
      unfolding r by simp
    finally show ?thesis .
  qed
  show ?thesis
    using x by (simp add: a)
qed

text \<open>
  Claim C1, as amended. In every state that a never-opened volume reaches through opens
  and closes, the exclusive flag is set only while the open count is one. On the
  character-device path an open that passes the earlier checks of \<open>zvol_cdev_open\<close> (volume
  not dying, no write access to a read-only volume) returns EBUSY and changes nothing when
  it asks for exclusive access while the open count is not zero, and also, whatever it asks
  for, while the exclusive flag is set; the close of the exclusive holder clears the flag
  and brings the count to zero, and with no opener an exclusive open is granted. On the
  GEOM path the rule does not hold: \<open>zvol_geom_access\<close>, the only caller of
  \<open>zvol_geom_open\<close>, never hands it \<open>O_EXCL\<close>, so the exclusive flag is never set on a
  provider, and an access request with a positive exclusive count that passes the earlier
  checks is granted while others hold the provider open. Both close routines clear the
  exclusive flag whatever the state.
\<close>

theorem exclusive_open:
  assumes "fresh zv0" "run zv0 ops = Some zv"
  shows "(zv_flags zv AND ZVOL_EXCL \<noteq> 0 \<longrightarrow> zv_open_count zv = 1)
     \<and> (\<forall>env flags.
           \<not> zso_dying zv
           \<and> \<not> (flags AND FWRITE \<noteq> 0 \<and> zv_flags zv AND ZVOL_RDONLY \<noteq> 0)
           \<and> (flags AND O_EXCL \<noteq> 0 \<and> zv_open_count zv \<noteq> 0 \<or> zv_flags zv AND ZVOL_EXCL \<noteq> 0)
           \<longrightarrow> zvol_cdev_open env (Some zv) flags = Some (Some EBUSY, Some zv))
     \<and> (zv_flags zv AND ZVOL_EXCL \<noteq> 0 \<longrightarrow>
           zv_flags (zvol_cdev_close_zv zv) AND ZVOL_EXCL = 0
           \<and> zv_open_count (zvol_cdev_close_zv zv) = 0)
     \<and> (\<forall>env flags.
           zv_open_count zv = 0 \<and> \<not> zso_dying zv \<and> fo_error env = None
           \<and> (ns_owned env \<or> True \<in> set (ns_tries env))
           \<and> flags AND O_EXCL \<noteq> 0
           \<and> \<not> (flags AND FWRITE \<noteq> 0 \<and> zv_flags zv AND ZVOL_RDONLY \<noteq> 0)
           \<longrightarrow> (\<exists>zv'. zvol_cdev_open env (Some zv) flags = Some (None, Some zv')
                  \<and> zv_flags zv' AND ZVOL_EXCL \<noteq> 0 \<and> zv_open_count zv' = 1))
     \<and> (zv_volmode zv0 = ZFS_VOLMODE_GEOM \<longrightarrow>
           zv_volmode zv = ZFS_VOLMODE_GEOM \<and> zv_flags zv AND ZVOL_EXCL = 0)
     \<and> (\<forall>env acr acw ace.
           zv_volmode zv0 = ZFS_VOLMODE_GEOM
           \<and> \<not> zso_dying zv \<and> zv_flags zv AND ZVOL_REMOVING = 0
           \<and> \<not> (acw \<noteq> 0 \<and> (zv_flags zv AND ZVOL_RDONLY \<noteq> 0 \<or> incompat_enc env))
           \<and> zv_open_count zv \<noteq> 0 \<and> 0 \<le> acr \<and> 0 \<le> acw \<and> 0 < ace
           \<longrightarrow> (\<exists>zv'. step zv (GeomAccess False env acr acw ace) = Some (None, zv')
                  \<and> zv_open_count zv' = zv_open_count zv + word_of_int (acr + acw + ace)
                  \<and> zv_flags zv' AND ZVOL_EXCL = 0))
     \<and> (\<forall>s c. zv_flags (zvol_geom_close_zv s c) AND ZVOL_EXCL = 0)
     \<and> (\<forall>s. zv_flags (zvol_cdev_close_zv s) AND ZVOL_EXCL = 0)"
proof -
  have x: "excl_inv zv" using run_excl [OF fresh_excl [OF assms(1)] assms(2)] .
  then have c1: "zv_flags zv AND ZVOL_EXCL \<noteq> 0 \<longrightarrow> zv_open_count zv = 1"
    by (simp add: excl_inv_def)
  have nz: "zv_open_count zv \<noteq> 0"
    if "flags AND O_EXCL \<noteq> 0 \<and> zv_open_count zv \<noteq> 0 \<or> zv_flags zv AND ZVOL_EXCL \<noteq> 0"
    for flags :: "32 word"
    using that c1 by auto
  have c2: "zvol_cdev_open env (Some zv) flags = Some (Some EBUSY, Some zv)"
    if "\<not> zso_dying zv"
       "\<not> (flags AND FWRITE \<noteq> 0 \<and> zv_flags zv AND ZVOL_RDONLY \<noteq> 0)"
       "flags AND O_EXCL \<noteq> 0 \<and> zv_open_count zv \<noteq> 0 \<or> zv_flags zv AND ZVOL_EXCL \<noteq> 0"
    for env flags
  proof -
    have "open_checks (flags AND FWRITE \<noteq> 0 \<and> zv_flags zv AND ZVOL_RDONLY \<noteq> 0)
            (flags AND O_EXCL \<noteq> 0) 1 zv = (Some EBUSY, zv)"
      using that(2,3) nz [OF that(3)] by (intro open_checks_busy) auto
    then show ?thesis
      by (simp add: zvol_cdev_open_def cdev_open_retry_opened [OF that(1) nz [OF that(3)]])
  qed
  have c4: "zv_flags (zvol_cdev_close_zv zv) AND ZVOL_EXCL = 0
            \<and> zv_open_count (zvol_cdev_close_zv zv) = 0"
    if "zv_flags zv AND ZVOL_EXCL \<noteq> 0"
    using that c1 by (simp add: cdev_close_excl cdev_close_count)
  have c5: "\<exists>zv'. zvol_cdev_open env (Some zv) flags = Some (None, Some zv')
              \<and> zv_flags zv' AND ZVOL_EXCL \<noteq> 0 \<and> zv_open_count zv' = 1"
    if "zv_open_count zv = 0" "\<not> zso_dying zv" "fo_error env = None"
       "ns_owned env \<or> True \<in> set (ns_tries env)" "flags AND O_EXCL \<noteq> 0"
       "\<not> (flags AND FWRITE \<noteq> 0 \<and> zv_flags zv AND ZVOL_RDONLY \<noteq> 0)"
    for env flags
  proof -
    have e: "zv_flags zv AND ZVOL_EXCL = 0" using c1 that(1) by auto
    show ?thesis
      unfolding zvol_cdev_open_def option.case
        cdev_open_retry_first [OF that(2) that(1) that(3) that(4)]
      using that(5,6) e that(1)
      by (simp add: open_checks_grant_excl excl_set excl_nonzero)
  qed
  have g: "zv_volmode zv = ZFS_VOLMODE_GEOM \<and> zv_flags zv AND ZVOL_EXCL = 0"
    if m: "zv_volmode zv0 = ZFS_VOLMODE_GEOM"
  proof -
    from assms(1) have "zv_flags zv0 AND ZVOL_EXCL = 0" by (simp add: fresh_def)
    from run_geom_noexcl [OF m this assms(2)] run_volmode [OF assms(2)] m
    show ?thesis by simp
  qed
  have c6: "\<exists>zv'. step zv (GeomAccess False env acr acw ace) = Some (None, zv')
              \<and> zv_open_count zv' = zv_open_count zv + word_of_int (acr + acw + ace)
              \<and> zv_flags zv' AND ZVOL_EXCL = 0"
    if "zv_volmode zv0 = ZFS_VOLMODE_GEOM" "\<not> zso_dying zv" "zv_flags zv AND ZVOL_REMOVING = 0"
       "\<not> (acw \<noteq> 0 \<and> (zv_flags zv AND ZVOL_RDONLY \<noteq> 0 \<or> incompat_enc env))"
       "zv_open_count zv \<noteq> 0" "0 \<le> acr" "0 \<le> acw" "0 < ace"
    for env acr acw ace
    using geom_access_granted [OF that(2,3,5) conjunct2 [OF g [OF that(1)]] that(6,7,8) that(4)] .
  have c7: "\<forall>s c. zv_flags (zvol_geom_close_zv s c) AND ZVOL_EXCL = 0"
    by (simp add: geom_close_excl)
  have c8: "\<forall>s. zv_flags (zvol_cdev_close_zv s) AND ZVOL_EXCL = 0"
    by (simp add: cdev_close_excl)
  show ?thesis
  proof (intro conjI allI impI)
    show "zv_flags zv AND ZVOL_EXCL \<noteq> 0 \<Longrightarrow> zv_open_count zv = 1" using c1 by simp
  next
    fix env flags
    assume "\<not> zso_dying zv
           \<and> \<not> (flags AND FWRITE \<noteq> 0 \<and> zv_flags zv AND ZVOL_RDONLY \<noteq> 0)
           \<and> (flags AND O_EXCL \<noteq> 0 \<and> zv_open_count zv \<noteq> 0 \<or> zv_flags zv AND ZVOL_EXCL \<noteq> 0)"
    then show "zvol_cdev_open env (Some zv) flags = Some (Some EBUSY, Some zv)"
      by (intro c2) simp_all
  next
    assume "zv_flags zv AND ZVOL_EXCL \<noteq> 0"
    from c4 [OF this] show "zv_flags (zvol_cdev_close_zv zv) AND ZVOL_EXCL = 0" by simp
  next
    assume "zv_flags zv AND ZVOL_EXCL \<noteq> 0"
    from c4 [OF this] show "zv_open_count (zvol_cdev_close_zv zv) = 0" by simp
  next
    fix env :: open_env and flags :: "32 word"
    assume "zv_open_count zv = 0 \<and> \<not> zso_dying zv \<and> fo_error env = None
           \<and> (ns_owned env \<or> True \<in> set (ns_tries env))
           \<and> flags AND O_EXCL \<noteq> 0
           \<and> \<not> (flags AND FWRITE \<noteq> 0 \<and> zv_flags zv AND ZVOL_RDONLY \<noteq> 0)"
    then show "\<exists>zv'. zvol_cdev_open env (Some zv) flags = Some (None, Some zv')
                  \<and> zv_flags zv' AND ZVOL_EXCL \<noteq> 0 \<and> zv_open_count zv' = 1"
      by (intro c5) simp_all
  next
    assume "zv_volmode zv0 = ZFS_VOLMODE_GEOM"
    from g [OF this] show "zv_volmode zv = ZFS_VOLMODE_GEOM" by simp
  next
    assume "zv_volmode zv0 = ZFS_VOLMODE_GEOM"
    from g [OF this] show "zv_flags zv AND ZVOL_EXCL = 0" by simp
  next
    fix env :: open_env and acr acw ace :: int
    assume "zv_volmode zv0 = ZFS_VOLMODE_GEOM
           \<and> \<not> zso_dying zv \<and> zv_flags zv AND ZVOL_REMOVING = 0
           \<and> \<not> (acw \<noteq> 0 \<and> (zv_flags zv AND ZVOL_RDONLY \<noteq> 0 \<or> incompat_enc env))
           \<and> zv_open_count zv \<noteq> 0 \<and> 0 \<le> acr \<and> 0 \<le> acw \<and> 0 < ace"
    then show "\<exists>zv'. step zv (GeomAccess False env acr acw ace) = Some (None, zv')
                  \<and> zv_open_count zv' = zv_open_count zv + word_of_int (acr + acw + ace)
                  \<and> zv_flags zv' AND ZVOL_EXCL = 0"
      by (intro c6) simp_all
  next
    fix s c
    show "zv_flags (zvol_geom_close_zv s c) AND ZVOL_EXCL = 0" by (rule geom_close_excl)
  next
    fix s
    show "zv_flags (zvol_cdev_close_zv s) AND ZVOL_EXCL = 0" by (rule cdev_close_excl)
  qed
qed

theorem exclusive_open_counterexample:
  "fresh ex_geom \<and> run ex_geom [GeomAccess False ex_env 1 0 0] = Some ex_geom_open
   \<and> zv_open_count ex_geom_open = 1
   \<and> step ex_geom_open (GeomAccess False ex_env 0 0 1)
       = Some (None, ex_geom_open\<lparr>zv_open_count := 2\<rparr>)"
  by (simp add: fresh_def ex_defs open_close_defs)

theorem exclusive_open_witness:
  "fresh ex_dev \<and> run ex_dev [CdevOpen ex_env O_EXCL] = Some ex_dev_excl
   \<and> zv_flags ex_dev_excl AND ZVOL_EXCL \<noteq> 0 \<and> zv_open_count ex_dev_excl = 1
   \<and> \<not> zso_dying ex_dev_excl
   \<and> \<not> (FREAD AND FWRITE \<noteq> 0 \<and> zv_flags ex_dev_excl AND ZVOL_RDONLY \<noteq> 0)
   \<and> zvol_cdev_open ex_env (Some ex_dev_excl) FREAD = Some (Some EBUSY, Some ex_dev_excl)
   \<and> zv_flags (zvol_cdev_close_zv ex_dev_excl) AND ZVOL_EXCL = 0
   \<and> zv_open_count (zvol_cdev_close_zv ex_dev_excl) = 0
   \<and> run ex_dev [] = Some ex_dev \<and> zv_open_count ex_dev = 0 \<and> \<not> zso_dying ex_dev
   \<and> fo_error ex_env = None \<and> (ns_owned ex_env \<or> True \<in> set (ns_tries ex_env))
   \<and> \<not> (O_EXCL AND FWRITE \<noteq> 0 \<and> zv_flags ex_dev AND ZVOL_RDONLY \<noteq> 0)
   \<and> zvol_cdev_open ex_env (Some ex_dev) O_EXCL = Some (None, Some ex_dev_excl)
   \<and> fresh ex_geom \<and> zv_volmode ex_geom = ZFS_VOLMODE_GEOM
   \<and> run ex_geom [GeomAccess False ex_env 1 0 0] = Some ex_geom_open
   \<and> zv_volmode ex_geom_open = ZFS_VOLMODE_GEOM \<and> zv_flags ex_geom_open AND ZVOL_EXCL = 0
   \<and> \<not> zso_dying ex_geom_open \<and> zv_flags ex_geom_open AND ZVOL_REMOVING = 0
   \<and> \<not> ((0::int) \<noteq> 0 \<and> (zv_flags ex_geom_open AND ZVOL_RDONLY \<noteq> 0 \<or> incompat_enc ex_env))
   \<and> zv_open_count ex_geom_open \<noteq> 0
   \<and> (\<exists>zv'. step ex_geom_open (GeomAccess False ex_env 0 0 1) = Some (None, zv')
         \<and> zv_open_count zv' = 2 \<and> zv_flags zv' AND ZVOL_EXCL = 0)"
proof -
  have f1: "fresh ex_dev" by (simp add: fresh_def ex_defs)
  have r1: "run ex_dev [CdevOpen ex_env O_EXCL] = Some ex_dev_excl"
    by (simp add: ex_defs open_close_defs)
  have f2: "fresh ex_geom" by (simp add: fresh_def ex_defs)
  have r2: "run ex_geom [GeomAccess False ex_env 1 0 0] = Some ex_geom_open"
    by (simp add: ex_defs open_close_defs)
  have r3: "run ex_dev [] = Some ex_dev" by simp
  have o3: "zvol_cdev_open ex_env (Some ex_dev) O_EXCL = Some (None, Some ex_dev_excl)"
    by (simp add: ex_defs open_close_defs)
  have h1: "zv_flags ex_dev_excl AND ZVOL_EXCL \<noteq> 0 \<and> \<not> zso_dying ex_dev_excl
            \<and> \<not> (FREAD AND FWRITE \<noteq> 0 \<and> zv_flags ex_dev_excl AND ZVOL_RDONLY \<noteq> 0)"
    by (simp add: ex_defs ZVOL_EXCL_def FREAD_def FWRITE_def)
  have m2: "zv_volmode ex_geom = ZFS_VOLMODE_GEOM" by (simp add: ex_defs)
  have h2: "zv_volmode ex_geom = ZFS_VOLMODE_GEOM
            \<and> \<not> zso_dying ex_geom_open \<and> zv_flags ex_geom_open AND ZVOL_REMOVING = 0
            \<and> \<not> ((0::int) \<noteq> 0
                   \<and> (zv_flags ex_geom_open AND ZVOL_RDONLY \<noteq> 0 \<or> incompat_enc ex_env))
            \<and> zv_open_count ex_geom_open \<noteq> 0 \<and> (0::int) \<le> 0 \<and> (0::int) \<le> 0 \<and> (0::int) < 1"
    by (simp add: ex_defs ZVOL_REMOVING_def)
  have h3: "zv_open_count ex_dev = 0 \<and> \<not> zso_dying ex_dev \<and> fo_error ex_env = None
            \<and> (ns_owned ex_env \<or> True \<in> set (ns_tries ex_env))
            \<and> \<not> (O_EXCL AND FWRITE \<noteq> 0 \<and> zv_flags ex_dev AND ZVOL_RDONLY \<noteq> 0)"
    by (simp add: ex_defs O_EXCL_def FWRITE_def)
  from exclusive_open [OF f1 r1] h1
  have a: "zv_open_count ex_dev_excl = 1
      \<and> zvol_cdev_open ex_env (Some ex_dev_excl) FREAD = Some (Some EBUSY, Some ex_dev_excl)
      \<and> zv_flags (zvol_cdev_close_zv ex_dev_excl) AND ZVOL_EXCL = 0
      \<and> zv_open_count (zvol_cdev_close_zv ex_dev_excl) = 0"
    by blast
  note t2 = exclusive_open [OF f2 r2, THEN conjunct2, THEN conjunct2, THEN conjunct2,
      THEN conjunct2]
  from t2 [THEN conjunct1, THEN mp, OF m2]
  have b: "zv_volmode ex_geom_open = ZFS_VOLMODE_GEOM \<and> zv_flags ex_geom_open AND ZVOL_EXCL = 0" .
  from t2 [THEN conjunct2, THEN conjunct1, THEN spec, THEN spec, THEN spec, THEN spec,
      THEN mp, OF h2]
  have c: "\<exists>zv'. step ex_geom_open (GeomAccess False ex_env 0 0 1) = Some (None, zv')
         \<and> zv_open_count zv' = 2 \<and> zv_flags zv' AND ZVOL_EXCL = 0"
    by (simp add: ex_defs)
  from a b c f1 r1 f2 m2 r2 r3 o3 h1 h2 h3 show ?thesis by blast
qed

section \<open>The open count along sequences of calls\<close>

lemma cdev_open_granted_le: "granted zv (CdevOpen env flags) \<le> 1"
  by simp











section \<open>The chunk loops\<close>

lemma strategy_loop_stop:
  "resid = 0 \<or> \<not> off < v \<Longrightarrow> strategy_loop env d c v off resid = (None, off, resid, [])"
  by (subst strategy_loop.simps) auto

lemma strategy_loop_fail:
  "resid \<noteq> 0 \<Longrightarrow> off < v \<Longrightarrow>
   (if d then dmu_read_err env off (min resid zvol_maxphys)
    else tx_assign_err env off (min resid zvol_maxphys)) = Some e \<Longrightarrow>
   strategy_loop env d c v off resid =
     (Some (if e = ECKSUM then EIO else e), off, resid,
      [if d then DmuReadFailed off (min resid zvol_maxphys)
       else TxAbort off (min resid zvol_maxphys)])"
  by (subst strategy_loop.simps) (simp add: Let_def)

lemma strategy_loop_next:
  "resid \<noteq> 0 \<Longrightarrow> off < v \<Longrightarrow>
   (if d then dmu_read_err env off (min resid zvol_maxphys)
    else tx_assign_err env off (min resid zvol_maxphys)) = None \<Longrightarrow>
   strategy_loop env d c v ((off + min resid zvol_maxphys) mod 2 ^ 64)
     (resid - min resid zvol_maxphys) = (err, off', resid', evs) \<Longrightarrow>
   strategy_loop env d c v off resid =
     (err, off', resid',
      (if d then [DmuRead off (min resid zvol_maxphys)]
       else [DmuWrite off (min resid zvol_maxphys), LogWrite off (min resid zvol_maxphys) c,
             TxCommit off (min resid zvol_maxphys)]) @ evs)"
  by (subst strategy_loop.simps) (simp add: Let_def)

lemma bytes_written_append: "bytes_written (xs @ ys) = bytes_written xs + bytes_written ys"
  by (induction xs rule: bytes_written.induct) auto

lemma bytes_read_append: "bytes_read (xs @ ys) = bytes_read xs + bytes_read ys"
  by (induction xs rule: bytes_read.induct) auto

lemma strategy_loop_write:
  "strategy_loop env False commit v off resid = (err, off', resid', evs) \<Longrightarrow>
   \<exists>pre. chunks_committed pre \<and> resid' + bytes_written pre = resid
     \<and> (case err of
           None \<Rightarrow> evs = pre
         | Some e \<Rightarrow>
             \<exists>e0. evs = pre @ [TxAbort off' (min resid' zvol_maxphys)]
                \<and> tx_assign_err env off' (min resid' zvol_maxphys) = Some e0
                \<and> e = (if e0 = ECKSUM then EIO else e0)
                \<and> off' < v \<and> resid' \<noteq> 0)"
proof (induction env "False" commit v off resid arbitrary: err off' resid' evs
       rule: strategy_loop.induct)
  case (1 env commit volsize off resid)
  show ?case
  proof (cases "resid \<noteq> 0 \<and> off < volsize")
    case False
    then have "resid = 0 \<or> \<not> off < volsize" by simp
    from "1.prems" [unfolded strategy_loop_stop [OF this]]
    have "err = None" "off' = off" "resid' = resid" "evs = []"
      by auto
    then show ?thesis
      by (intro exI [of _ "[]"]) simp
  next
    case True
    let ?size = "min resid zvol_maxphys"
    show ?thesis
    proof (cases "tx_assign_err env off ?size")
      case (Some e0)
      with True strategy_loop_fail [of resid off volsize False env e0 commit]
      have f: "strategy_loop env False commit volsize off resid =
                 (Some (if e0 = ECKSUM then EIO else e0), off, resid, [TxAbort off ?size])"
        by simp
      from "1.prems" [unfolded f]
      have "err = Some (if e0 = ECKSUM then EIO else e0)" "off' = off" "resid' = resid"
        "evs = [TxAbort off ?size]"
        by auto
      with True Some show ?thesis
        by (intro exI [of _ "[]"]) simp
    next
      case None
      obtain err1 off1 resid1 evs1 where
        r: "strategy_loop env False commit volsize ((off + ?size) mod 2 ^ 64) (resid - ?size)
              = (err1, off1, resid1, evs1)"
        by (metis prod_cases4)
      have n': "(if False then dmu_read_err env off ?size else tx_assign_err env off ?size) = None"
        using None by simp
      from True have t: "resid \<noteq> 0" "off < volsize" by simp_all
      from "1.prems" [unfolded strategy_loop_next [OF t n' r]]
      have eq: "err = err1" "off' = off1" "resid' = resid1"
        "evs = [DmuWrite off ?size, LogWrite off ?size commit, TxCommit off ?size] @ evs1"
        by auto
      from "1.hyps" [OF True refl refl n' r]
      obtain pre where p: "chunks_committed pre" "resid1 + bytes_written pre = resid - ?size"
        and c: "(case err1 of
           None \<Rightarrow> evs1 = pre
         | Some e \<Rightarrow>
             \<exists>e0. evs1 = pre @ [TxAbort off1 (min resid1 zvol_maxphys)]
                \<and> tx_assign_err env off1 (min resid1 zvol_maxphys) = Some e0
                \<and> e = (if e0 = ECKSUM then EIO else e0)
                \<and> off1 < volsize \<and> resid1 \<noteq> 0)"
        by auto
      let ?pre = "[DmuWrite off ?size, LogWrite off ?size commit, TxCommit off ?size] @ pre"
      have "chunks_committed ?pre" using p(1) by simp
      moreover have "resid' + bytes_written ?pre = resid" using p(2) eq(3) by simp
      moreover have "(case err of
           None \<Rightarrow> evs = ?pre
         | Some e \<Rightarrow>
             \<exists>e0. evs = ?pre @ [TxAbort off' (min resid' zvol_maxphys)]
                \<and> tx_assign_err env off' (min resid' zvol_maxphys) = Some e0
                \<and> e = (if e0 = ECKSUM then EIO else e0)
                \<and> off' < volsize \<and> resid' \<noteq> 0)"
        using c unfolding eq by (cases err1) auto
      ultimately show ?thesis by blast
    qed
  qed
qed


lemma strategy_loop_read:
  "strategy_loop env True commit v off resid = (err, off', resid', evs) \<Longrightarrow>
   \<exists>pre. chunks_read pre \<and> resid' + bytes_read pre = resid
     \<and> (case err of
           None \<Rightarrow> evs = pre
         | Some e \<Rightarrow>
             \<exists>e0. evs = pre @ [DmuReadFailed off' (min resid' zvol_maxphys)]
                \<and> dmu_read_err env off' (min resid' zvol_maxphys) = Some e0
                \<and> e = (if e0 = ECKSUM then EIO else e0)
                \<and> off' < v \<and> resid' \<noteq> 0)"
proof (induction env "True" commit v off resid arbitrary: err off' resid' evs
       rule: strategy_loop.induct)
  case (1 env commit volsize off resid)
  show ?case
  proof (cases "resid \<noteq> 0 \<and> off < volsize")
    case False
    then have "resid = 0 \<or> \<not> off < volsize" by simp
    from "1.prems" [unfolded strategy_loop_stop [OF this]]
    have "err = None" "off' = off" "resid' = resid" "evs = []"
      by auto
    then show ?thesis
      by (intro exI [of _ "[]"]) simp
  next
    case True
    let ?size = "min resid zvol_maxphys"
    show ?thesis
    proof (cases "dmu_read_err env off ?size")
      case (Some e0)
      with True strategy_loop_fail [of resid off volsize True env e0 commit]
      have f: "strategy_loop env True commit volsize off resid =
                 (Some (if e0 = ECKSUM then EIO else e0), off, resid, [DmuReadFailed off ?size])"
        by simp
      from "1.prems" [unfolded f]
      have "err = Some (if e0 = ECKSUM then EIO else e0)" "off' = off" "resid' = resid"
        "evs = [DmuReadFailed off ?size]"
        by auto
      with True Some show ?thesis
        by (intro exI [of _ "[]"]) simp
    next
      case None
      obtain err1 off1 resid1 evs1 where
        r: "strategy_loop env True commit volsize ((off + ?size) mod 2 ^ 64) (resid - ?size)
              = (err1, off1, resid1, evs1)"
        by (metis prod_cases4)
      have n': "(if True then dmu_read_err env off ?size else tx_assign_err env off ?size) = None"
        using None by simp
      from True have t: "resid \<noteq> 0" "off < volsize" by simp_all
      from "1.prems" [unfolded strategy_loop_next [OF t n' r]]
      have eq: "err = err1" "off' = off1" "resid' = resid1"
        "evs = [DmuRead off ?size] @ evs1"
        by auto
      from "1.hyps" [OF True refl refl n' r]
      obtain pre where p: "chunks_read pre" "resid1 + bytes_read pre = resid - ?size"
        and c: "(case err1 of
           None \<Rightarrow> evs1 = pre
         | Some e \<Rightarrow>
             \<exists>e0. evs1 = pre @ [DmuReadFailed off1 (min resid1 zvol_maxphys)]
                \<and> dmu_read_err env off1 (min resid1 zvol_maxphys) = Some e0
                \<and> e = (if e0 = ECKSUM then EIO else e0)
                \<and> off1 < volsize \<and> resid1 \<noteq> 0)"
        by auto
      let ?pre = "[DmuRead off ?size] @ pre"
      have "chunks_read ?pre" using p(1) by simp
      moreover have "resid' + bytes_read ?pre = resid" using p(2) eq(3) by simp
      moreover have "(case err of
           None \<Rightarrow> evs = ?pre
         | Some e \<Rightarrow>
             \<exists>e0. evs = ?pre @ [DmuReadFailed off' (min resid' zvol_maxphys)]
                \<and> dmu_read_err env off' (min resid' zvol_maxphys) = Some e0
                \<and> e = (if e0 = ECKSUM then EIO else e0)
                \<and> off' < volsize \<and> resid' \<noteq> 0)"
        using c unfolding eq by (cases err1) auto
      ultimately show ?thesis by blast
    qed
  qed
qed

lemma strategy_loop_sizes:
  "strategy_loop env d commit v off resid = (err, off', resid', evs) \<Longrightarrow>
   \<forall>x \<in> set evs. chunk_size x \<le> zvol_maxphys"
proof (induction env d commit v off resid arbitrary: err off' resid' evs
       rule: strategy_loop.induct)
  case (1 env d commit volsize off resid)
  show ?case
  proof (cases "resid \<noteq> 0 \<and> off < volsize")
    case False
    then have "resid = 0 \<or> \<not> off < volsize" by simp
    from "1.prems" [unfolded strategy_loop_stop [OF this]] show ?thesis by auto
  next
    case True
    then have t: "resid \<noteq> 0" "off < volsize" by simp_all
    let ?size = "min resid zvol_maxphys"
    let ?ans = "if d then dmu_read_err env off ?size else tx_assign_err env off ?size"
    show ?thesis
    proof (cases ?ans)
      case (Some e0)
      from "1.prems" [unfolded strategy_loop_fail [OF t Some]] show ?thesis
        by (cases d) auto
    next
      case None
      obtain err1 off1 resid1 evs1 where
        r: "strategy_loop env d commit volsize ((off + ?size) mod 2 ^ 64) (resid - ?size)
              = (err1, off1, resid1, evs1)"
        by (metis prod_cases4)
      from "1.IH" [OF True refl refl None r]
      have ih: "\<forall>x \<in> set evs1. chunk_size x \<le> zvol_maxphys" .
      from "1.prems" [unfolded strategy_loop_next [OF t None r]] ih show ?thesis
        by (cases d) auto
    qed
  qed
qed

lemma cdev_bytes_le_cap: "cdev_bytes v off resid \<le> cdev_maxphys"
  by (auto simp: cdev_bytes_def Let_def min_def)

lemma cdev_bytes_le_resid: "0 < resid \<Longrightarrow> int (cdev_bytes v off resid) \<le> resid"
  by (auto simp: cdev_bytes_def Let_def min_def)

lemma cdev_bytes_le_rest: "cdev_bytes v off resid \<le> v - u64 off"
  by (auto simp: cdev_bytes_def Let_def)

lemma cap_eq: "cdev_maxphys = zvol_maxphys"
  by (simp add: cdev_maxphys_def zvol_maxphys_def drop_bit_eq_div)

lemma cdev_read_loop_stop:
  "\<not> (resid > 0 \<and> u64 off < v) \<Longrightarrow> cdev_read_loop env v off resid = (None, off, resid, [])"
  by (subst cdev_read_loop.simps) auto

lemma cdev_read_loop_fail:
  "resid > 0 \<Longrightarrow> u64 off < v \<Longrightarrow>
   dmu_read_err env (u64 off) (cdev_bytes v off resid) = Some e \<Longrightarrow>
   cdev_read_loop env v off resid =
     (Some (if e = ECKSUM then EIO else e),
      off + int (failed_read_moved env (u64 off) (cdev_bytes v off resid)),
      resid - int (failed_read_moved env (u64 off) (cdev_bytes v off resid)),
      [DmuReadFailed (u64 off) (cdev_bytes v off resid)])"
  by (subst cdev_read_loop.simps) (simp add: Let_def)

lemma cdev_read_loop_next:
  "resid > 0 \<Longrightarrow> u64 off < v \<Longrightarrow>
   dmu_read_err env (u64 off) (cdev_bytes v off resid) = None \<Longrightarrow>
   cdev_read_loop env v (off + int (cdev_bytes v off resid))
     (resid - int (cdev_bytes v off resid)) = (err, off', resid', evs) \<Longrightarrow>
   cdev_read_loop env v off resid =
     (err, off', resid', DmuRead (u64 off) (cdev_bytes v off resid) # evs)"
  by (subst cdev_read_loop.simps) (simp add: Let_def)

lemma cdev_write_loop_stop:
  "\<not> (resid > 0 \<and> u64 off < v) \<Longrightarrow>
   cdev_write_loop env c v off resid = (None, off, resid, [])"
  by (subst cdev_write_loop.simps) auto

lemma cdev_write_loop_abort:
  "resid > 0 \<Longrightarrow> u64 off < v \<Longrightarrow>
   tx_assign_err env (u64 off) (cdev_bytes v off resid) = Some e \<Longrightarrow>
   cdev_write_loop env c v off resid =
     (Some e, off, resid, [TxAbort (u64 off) (cdev_bytes v off resid)])"
  by (subst cdev_write_loop.simps) (simp add: Let_def)

lemma cdev_write_loop_fail:
  "resid > 0 \<Longrightarrow> u64 off < v \<Longrightarrow>
   tx_assign_err env (u64 off) (cdev_bytes v off resid) = None \<Longrightarrow>
   dmu_write_uio_err env (u64 off) (cdev_bytes v off resid) = Some e \<Longrightarrow>
   cdev_write_loop env c v off resid =
     (Some e, off + int (failed_copy_moved env (u64 off) (cdev_bytes v off resid)),
      resid - int (failed_copy_moved env (u64 off) (cdev_bytes v off resid)),
      [DmuWriteFailed (u64 off) (cdev_bytes v off resid),
       TxCommit (u64 off) (cdev_bytes v off resid)])"
  by (subst cdev_write_loop.simps) (simp add: Let_def)

lemma cdev_write_loop_next:
  "resid > 0 \<Longrightarrow> u64 off < v \<Longrightarrow>
   tx_assign_err env (u64 off) (cdev_bytes v off resid) = None \<Longrightarrow>
   dmu_write_uio_err env (u64 off) (cdev_bytes v off resid) = None \<Longrightarrow>
   cdev_write_loop env c v (off + int (cdev_bytes v off resid))
     (resid - int (cdev_bytes v off resid)) = (err, off', resid', evs) \<Longrightarrow>
   cdev_write_loop env c v off resid =
     (err, off', resid',
      [DmuWrite (u64 off) (cdev_bytes v off resid),
       LogWrite (u64 off) (cdev_bytes v off resid) c,
       TxCommit (u64 off) (cdev_bytes v off resid)] @ evs)"
  by (subst cdev_write_loop.simps) (simp add: Let_def)

lemma cdev_read_loop_shape:
  "cdev_read_loop env v off resid = (err, off', resid', evs) \<Longrightarrow>
   \<exists>pre k. chunks_read pre \<and> resid' + int (bytes_read pre) + int k = resid
     \<and> off' = off + int (bytes_read pre) + int k
     \<and> (case err of
           None \<Rightarrow> evs = pre \<and> k = 0
         | Some e \<Rightarrow>
             \<exists>a n e0. evs = pre @ [DmuReadFailed a n]
                \<and> dmu_read_err env a n = Some e0
                \<and> e = (if e0 = ECKSUM then EIO else e0)
                \<and> k = failed_read_moved env a n)"
proof (induction env v off resid arbitrary: err off' resid' evs rule: cdev_read_loop.induct)
  case (1 env volsize off resid)
  let ?b = "cdev_bytes volsize off resid"
  show ?case
  proof (cases "resid > 0 \<and> u64 off < volsize")
    case False
    from "1.prems" [unfolded cdev_read_loop_stop [OF False]]
    have "err = None" "off' = off" "resid' = resid" "evs = []"
      by auto
    then show ?thesis
      by (intro exI [of _ "[]"] exI [of _ 0]) simp
  next
    case True
    then have t: "resid > 0" "u64 off < volsize" by simp_all
    show ?thesis
    proof (cases "dmu_read_err env (u64 off) ?b")
      case (Some e0)
      let ?k = "failed_read_moved env (u64 off) ?b"
      from "1.prems" [unfolded cdev_read_loop_fail [OF t Some]]
      have "err = Some (if e0 = ECKSUM then EIO else e0)" "off' = off + int ?k"
        "resid' = resid - int ?k" "evs = [DmuReadFailed (u64 off) ?b]"
        by auto
      with Some show ?thesis
        by (intro exI [of _ "[]"] exI [of _ ?k]) simp
    next
      case None
      obtain err1 off1 resid1 evs1 where
        r: "cdev_read_loop env volsize (off + int ?b) (resid - int ?b)
              = (err1, off1, resid1, evs1)"
        by (metis prod_cases4)
      from "1.prems" [unfolded cdev_read_loop_next [OF t None r]]
      have eq: "err = err1" "off' = off1" "resid' = resid1" "evs = DmuRead (u64 off) ?b # evs1"
        by auto
      from "1.IH" [OF True refl None r]
      obtain pre k where p: "chunks_read pre"
        "resid1 + int (bytes_read pre) + int k = resid - int ?b"
        "off1 = off + int ?b + int (bytes_read pre) + int k"
        and c: "(case err1 of
           None \<Rightarrow> evs1 = pre \<and> k = 0
         | Some e \<Rightarrow>
             \<exists>a n e0. evs1 = pre @ [DmuReadFailed a n]
                \<and> dmu_read_err env a n = Some e0
                \<and> e = (if e0 = ECKSUM then EIO else e0)
                \<and> k = failed_read_moved env a n)"
        by auto
      let ?pre = "DmuRead (u64 off) ?b # pre"
      have "chunks_read ?pre" using p(1) by simp
      moreover have "resid' + int (bytes_read ?pre) + int k = resid" using p(2) eq(3) by simp
      moreover have "off' = off + int (bytes_read ?pre) + int k" using p(3) eq(2) by simp
      moreover have "(case err of
           None \<Rightarrow> evs = ?pre \<and> k = 0
         | Some e \<Rightarrow>
             \<exists>a n e0. evs = ?pre @ [DmuReadFailed a n]
                \<and> dmu_read_err env a n = Some e0
                \<and> e = (if e0 = ECKSUM then EIO else e0)
                \<and> k = failed_read_moved env a n)"
        using c unfolding eq by (cases err1) auto
      ultimately show ?thesis by blast
    qed
  qed
qed


lemma cdev_read_loop_sizes:
  "cdev_read_loop env v off resid = (err, off', resid', evs) \<Longrightarrow>
   \<forall>x \<in> set evs. chunk_size x \<le> cdev_maxphys"
proof (induction env v off resid arbitrary: err off' resid' evs rule: cdev_read_loop.induct)
  case (1 env volsize off resid)
  let ?b = "cdev_bytes volsize off resid"
  show ?case
  proof (cases "resid > 0 \<and> u64 off < volsize")
    case False
    from "1.prems" [unfolded cdev_read_loop_stop [OF False]] show ?thesis by auto
  next
    case True
    then have t: "resid > 0" "u64 off < volsize" by simp_all
    show ?thesis
    proof (cases "dmu_read_err env (u64 off) ?b")
      case (Some e0)
      from "1.prems" [unfolded cdev_read_loop_fail [OF t Some]] show ?thesis
        by (auto simp: cdev_bytes_le_cap)
    next
      case None
      obtain err1 off1 resid1 evs1 where
        r: "cdev_read_loop env volsize (off + int ?b) (resid - int ?b)
              = (err1, off1, resid1, evs1)"
        by (metis prod_cases4)
      from "1.IH" [OF True refl None r]
      have ih: "\<forall>x \<in> set evs1. chunk_size x \<le> cdev_maxphys" .
      from "1.prems" [unfolded cdev_read_loop_next [OF t None r]] ih show ?thesis
        by (auto simp: cdev_bytes_le_cap)
    qed
  qed
qed

lemma cdev_write_loop_sizes:
  "cdev_write_loop env cm v off resid = (err, off', resid', evs) \<Longrightarrow>
   \<forall>x \<in> set evs. chunk_size x \<le> cdev_maxphys"
proof (induction env cm v off resid arbitrary: err off' resid' evs
       rule: cdev_write_loop.induct)
  case (1 env cm volsize off resid)
  let ?b = "cdev_bytes volsize off resid"
  show ?case
  proof (cases "resid > 0 \<and> u64 off < volsize")
    case False
    from "1.prems" [unfolded cdev_write_loop_stop [OF False]] show ?thesis by auto
  next
    case True
    then have t: "resid > 0" "u64 off < volsize" by simp_all
    show ?thesis
    proof (cases "tx_assign_err env (u64 off) ?b")
      case (Some e0)
      from "1.prems" [unfolded cdev_write_loop_abort [OF t Some]] show ?thesis
        by (auto simp: cdev_bytes_le_cap)
    next
      case None
      show ?thesis
      proof (cases "dmu_write_uio_err env (u64 off) ?b")
        case (Some e0)
        from "1.prems" [unfolded cdev_write_loop_fail [OF t None Some]] show ?thesis
          by (auto simp: cdev_bytes_le_cap)
      next
        case wnone: None
        obtain err1 off1 resid1 evs1 where
          r: "cdev_write_loop env cm volsize (off + int ?b) (resid - int ?b)
                = (err1, off1, resid1, evs1)"
          by (metis prod_cases4)
        from "1.IH" [OF True refl None wnone r]
        have ih: "\<forall>x \<in> set evs1. chunk_size x \<le> cdev_maxphys" .
        from "1.prems" [unfolded cdev_write_loop_next [OF t None wnone r]] ih show ?thesis
          by (auto simp: cdev_bytes_le_cap)
      qed
    qed
  qed
qed

text \<open>The strategy routine once its request has passed the checks before the loop.\<close>

lemma strategy_io_loop:
  assumes "bio_cmd bp \<noteq> BIO_DELETE" "\<not> (bio_length bp > 0 \<and> bio_offset bp \<ge> zv_volsize zv)"
    "strategy_loop env d (\<not> d \<and> os_sync_always zv) (zv_volsize zv) (bio_offset bp)
       (bio_length bp) = (err, off', resid', evs)"
  shows "strategy_io env zv bp d =
     ((if bio_length bp - resid' < bio_length bp \<and> off' > zv_volsize zv
       then Some EINVAL else err),
      bp\<lparr>bio_completed := bio_length bp - resid'\<rparr>, zv,
      evs @ (case bio_cmd bp of
               BIO_READ \<Rightarrow> [KstatRead (int (bio_length bp - resid'))]
             | BIO_WRITE \<Rightarrow> [KstatWrite (int (bio_length bp - resid'))]
             | _ \<Rightarrow> [])
          @ (if \<not> d \<and> os_sync_always zv then [ZilCommit] else []))"
proof -
  from assms(2) have c: "(bio_length bp > 0 \<and> bio_offset bp \<ge> zv_volsize zv) = False"
    by simp
  show ?thesis
    unfolding strategy_io_def Let_def c if_False using assms(1,3) by simp
qed

lemma strategy_impl_read:
  "zv_flags zv AND ZVOL_REMOVING = 0 \<Longrightarrow> bio_cmd bp = BIO_READ \<Longrightarrow>
   zvol_strategy_impl env (Some zv) bp =
     (case strategy_io env zv bp True of (e, bp', zv', evs) \<Rightarrow> (e, bp', Some zv', evs))"
  by (simp add: zvol_strategy_impl_def)

lemma strategy_impl_write:
  "zv_flags zv AND ZVOL_REMOVING = 0 \<Longrightarrow> zv_flags zv AND ZVOL_RDONLY = 0 \<Longrightarrow>
   bio_cmd bp = BIO_WRITE \<or> bio_cmd bp = BIO_DELETE \<Longrightarrow>
   zvol_strategy_impl env (Some zv) bp =
     (case strategy_io env (zvol_ensure_zilog zv) bp False of
        (e, bp', zv', evs) \<Rightarrow> (e, bp', Some zv', evs))"
  by (auto simp: zvol_strategy_impl_def)

lemma ensure_zilog_volsize [simp]: "zv_volsize (zvol_ensure_zilog zv) = zv_volsize zv"
  by (simp add: zvol_ensure_zilog_def)

lemma ensure_zilog_sync [simp]: "os_sync_always (zvol_ensure_zilog zv) = os_sync_always zv"
  by (simp add: zvol_ensure_zilog_def)

section \<open>The size of a chunk\<close>

lemma strategy_io_sizes:
  assumes "bio_cmd bp \<noteq> BIO_DELETE"
  shows "\<forall>x \<in> set (snd (snd (snd (strategy_io env zv bp d)))). chunk_size x \<le> zvol_maxphys"
proof (cases "bio_length bp > 0 \<and> bio_offset bp \<ge> zv_volsize zv")
  case True
  then show ?thesis by (simp add: strategy_io_def)
next
  case False
  obtain err off' resid' evs where
    l: "strategy_loop env d (\<not> d \<and> os_sync_always zv) (zv_volsize zv) (bio_offset bp)
          (bio_length bp) = (err, off', resid', evs)"
    by (metis prod_cases4)
  from strategy_loop_sizes [OF l] show ?thesis
    unfolding strategy_io_loop [OF assms False l]
    by (auto split: bio_cmd.splits)
qed

lemma strategy_impl_sizes:
  assumes "bio_cmd bp = BIO_READ \<or> bio_cmd bp = BIO_WRITE"
  shows "\<forall>x \<in> set (snd (snd (snd (zvol_strategy_impl env zvp bp)))). chunk_size x \<le> zvol_maxphys"
proof (cases zvp)
  case None
  then show ?thesis by (simp add: zvol_strategy_impl_def)
next
  case (Some zv)
  have d: "bio_cmd bp \<noteq> BIO_DELETE" using assms by auto
  from assms show ?thesis
  proof
    assume r: "bio_cmd bp = BIO_READ"
    obtain e bp' zv' evs where s: "strategy_io env zv bp True = (e, bp', zv', evs)"
      by (metis prod_cases4)
    with strategy_io_sizes [OF d, of env zv True] Some r show ?thesis
      by (simp add: zvol_strategy_impl_def)
  next
    assume w: "bio_cmd bp = BIO_WRITE"
    obtain e bp' zv' evs where
      s: "strategy_io env (zvol_ensure_zilog zv) bp False = (e, bp', zv', evs)"
      by (metis prod_cases4)
    with strategy_io_sizes [OF d, of env "zvol_ensure_zilog zv" False] Some w show ?thesis
      by (simp add: zvol_strategy_impl_def)
  qed
qed

lemma cdev_read_sizes:
  "\<forall>x \<in> set (snd (snd (zvol_cdev_read env zv u))). chunk_size x \<le> zvol_maxphys"
proof -
  obtain err off' resid' evs where
    l: "cdev_read_loop env (zv_volsize zv) (uio_offset u) (uio_resid u) = (err, off', resid', evs)"
    by (metis prod_cases4)
  from cdev_read_loop_sizes [OF l] show ?thesis
    by (auto simp: zvol_cdev_read_def Let_def l cap_eq)
qed

lemma cdev_write_sizes:
  "\<forall>x \<in> set (snd (snd (snd (zvol_cdev_write env zv u s)))). chunk_size x \<le> zvol_maxphys"
proof -
  obtain err off' resid' evs where
    l: "cdev_write_loop env (s \<or> os_sync_always zv) (zv_volsize zv) (uio_offset u) (uio_resid u)
          = (err, off', resid', evs)"
    by (metis prod_cases4)
  from cdev_write_loop_sizes [OF l] show ?thesis
    by (auto simp: zvol_cdev_write_def Let_def l cap_eq)
qed

section \<open>The chunks of a request\<close>

lemma xfer_ranges_append: "xfer_ranges (xs @ ys) = xfer_ranges xs @ xfer_ranges ys"
  by (induction xs rule: xfer_ranges.induct) auto

lemma xfer_total_append: "xfer_total (xs @ ys) = xfer_total xs + xfer_total ys"
  by (simp add: xfer_total_def xfer_ranges_append)

lemma xfer_total_simps [simp]:
  "xfer_total [] = 0"
  "xfer_total (DmuRead a n # es) = n + xfer_total es"
  "xfer_total (DmuWrite a n # es) = n + xfer_total es"
  "xfer_total (DmuReadFailed a n # es) = xfer_total es"
  "xfer_total (TxAbort a n # es) = xfer_total es"
  "xfer_total (DmuWriteFailed a n # es) = xfer_total es"
  "xfer_total (LogWrite a n c # es) = xfer_total es"
  "xfer_total (TxCommit a n # es) = xfer_total es"
  "xfer_total (KstatRead i # es) = xfer_total es"
  "xfer_total (KstatWrite i # es) = xfer_total es"
  "xfer_total (ZilCommit # es) = xfer_total es"
  by (simp_all add: xfer_total_def)

lemma u64_add: "u64 (off + int b) = (u64 off + b) mod 2 ^ 64"
proof -
  have "(off + int b) mod 2 ^ 64 = (off mod 2 ^ 64 + int b) mod 2 ^ 64"
    by (simp add: mod_add_left_eq)
  also have "\<dots> = int ((nat (off mod 2 ^ 64) + b) mod 2 ^ 64)"
    by (simp add: zmod_int)
  finally show ?thesis by (simp add: u64_def)
qed

lemma strategy_loop_cover:
  "strategy_loop env d commit v off resid = (err, off', resid', evs) \<Longrightarrow>
   contiguous off (xfer_ranges evs) \<and> resid' + xfer_total evs = resid"
proof (induction env d commit v off resid arbitrary: err off' resid' evs
       rule: strategy_loop.induct)
  case (1 env d commit volsize off resid)
  show ?case
  proof (cases "resid \<noteq> 0 \<and> off < volsize")
    case False
    then have "resid = 0 \<or> \<not> off < volsize" by simp
    from "1.prems" [unfolded strategy_loop_stop [OF this]] show ?thesis by auto
  next
    case True
    then have t: "resid \<noteq> 0" "off < volsize" by simp_all
    let ?size = "min resid zvol_maxphys"
    let ?ans = "if d then dmu_read_err env off ?size else tx_assign_err env off ?size"
    have pos: "0 < ?size" using t(1) by (simp add: zvol_maxphys_def DMU_MAX_ACCESS_def)
    show ?thesis
    proof (cases ?ans)
      case (Some e0)
      from "1.prems" [unfolded strategy_loop_fail [OF t Some]] show ?thesis
        by (cases d) auto
    next
      case None
      obtain err1 off1 resid1 evs1 where
        r: "strategy_loop env d commit volsize ((off + ?size) mod 2 ^ 64) (resid - ?size)
              = (err1, off1, resid1, evs1)"
        by (metis prod_cases4)
      from "1.IH" [OF True refl refl None r]
      have ih: "contiguous ((off + ?size) mod 2 ^ 64) (xfer_ranges evs1)"
        "resid1 + xfer_total evs1 = resid - ?size"
        by simp_all
      from "1.prems" [unfolded strategy_loop_next [OF t None r]] ih pos show ?thesis
        by (cases d) auto
    qed
  qed
qed

lemma strategy_loop_complete:
  "strategy_loop env d commit v off resid = (err, off', resid', evs) \<Longrightarrow>
   \<forall>a n. dmu_read_err env a n = None \<and> tx_assign_err env a n = None \<Longrightarrow>
   off + resid \<le> v \<Longrightarrow> v \<le> 2 ^ 64 \<Longrightarrow> err = None \<and> resid' = 0"
proof (induction env d commit v off resid arbitrary: err off' resid' evs
       rule: strategy_loop.induct)
  case (1 env d commit volsize off resid)
  show ?case
  proof (cases "resid \<noteq> 0 \<and> off < volsize")
    case False
    then have f: "resid = 0 \<or> \<not> off < volsize" by simp
    from "1.prems"(1) [unfolded strategy_loop_stop [OF f]] f "1.prems"(3) show ?thesis by auto
  next
    case True
    then have t: "resid \<noteq> 0" "off < volsize" by simp_all
    let ?size = "min resid zvol_maxphys"
    let ?ans = "if d then dmu_read_err env off ?size else tx_assign_err env off ?size"
    have None: "?ans = None" using "1.prems"(2) by simp
    obtain err1 off1 resid1 evs1 where
      r: "strategy_loop env d commit volsize ((off + ?size) mod 2 ^ 64) (resid - ?size)
            = (err1, off1, resid1, evs1)"
      by (metis prod_cases4)
    have le: "off + ?size \<le> 2 ^ 64" using "1.prems"(3,4) by simp
    have b: "(off + ?size) mod 2 ^ 64 + (resid - ?size) \<le> volsize"
    proof (cases "off + ?size = 2 ^ 64")
      case True
      then have "(off + ?size) mod 2 ^ 64 = 0" by simp
      moreover have "resid - ?size = 0" using True "1.prems"(3,4) by simp
      ultimately show ?thesis by simp
    next
      case False
      with le have "(off + ?size) mod 2 ^ 64 = off + ?size" by simp
      then show ?thesis using "1.prems"(3) by simp
    qed
    from "1.IH" [OF True refl refl None r "1.prems"(2) b "1.prems"(4)]
    have "err1 = None \<and> resid1 = 0" .
    with "1.prems"(1) [unfolded strategy_loop_next [OF t None r]] show ?thesis by auto
  qed
qed

lemma cdev_bytes_pos: "0 < resid \<Longrightarrow> u64 off < v \<Longrightarrow> 0 < cdev_bytes v off resid"
  by (auto simp: cdev_bytes_def Let_def cdev_maxphys_def DMU_MAX_ACCESS_def)

lemma cdev_read_loop_cover:
  "cdev_read_loop env v off resid = (err, off', resid', evs) \<Longrightarrow>
   contiguous (u64 off) (xfer_ranges evs)
   \<and> (err = None \<longrightarrow> resid' + int (xfer_total evs) = resid
                      \<and> off' = off + int (xfer_total evs))"
proof (induction env v off resid arbitrary: err off' resid' evs rule: cdev_read_loop.induct)
  case (1 env volsize off resid)
  let ?b = "cdev_bytes volsize off resid"
  show ?case
  proof (cases "resid > 0 \<and> u64 off < volsize")
    case False
    from "1.prems" [unfolded cdev_read_loop_stop [OF False]] show ?thesis by auto
  next
    case True
    then have t: "resid > 0" "u64 off < volsize" by simp_all
    show ?thesis
    proof (cases "dmu_read_err env (u64 off) ?b")
      case (Some e0)
      from "1.prems" [unfolded cdev_read_loop_fail [OF t Some]] show ?thesis by auto
    next
      case None
      obtain err1 off1 resid1 evs1 where
        r: "cdev_read_loop env volsize (off + int ?b) (resid - int ?b)
              = (err1, off1, resid1, evs1)"
        by (metis prod_cases4)
      from "1.IH" [OF True refl None r]
      have ih: "contiguous ((u64 off + ?b) mod 2 ^ 64) (xfer_ranges evs1)"
        "err1 = None \<longrightarrow> resid1 + int (xfer_total evs1) = resid - int ?b
                           \<and> off1 = off + int ?b + int (xfer_total evs1)"
        by (simp_all add: u64_add)
      from "1.prems" [unfolded cdev_read_loop_next [OF t None r]] ih cdev_bytes_pos [OF t]
      show ?thesis by auto
    qed
  qed
qed

lemma cdev_write_loop_cover:
  "cdev_write_loop env cm v off resid = (err, off', resid', evs) \<Longrightarrow>
   contiguous (u64 off) (xfer_ranges evs)
   \<and> (err = None \<longrightarrow> resid' + int (xfer_total evs) = resid
                       \<and> off' = off + int (xfer_total evs))"
proof (induction env cm v off resid arbitrary: err off' resid' evs
       rule: cdev_write_loop.induct)
  case (1 env cm volsize off resid)
  let ?b = "cdev_bytes volsize off resid"
  show ?case
  proof (cases "resid > 0 \<and> u64 off < volsize")
    case False
    from "1.prems" [unfolded cdev_write_loop_stop [OF False]] show ?thesis by auto
  next
    case True
    then have t: "resid > 0" "u64 off < volsize" by simp_all
    show ?thesis
    proof (cases "tx_assign_err env (u64 off) ?b")
      case (Some e0)
      from "1.prems" [unfolded cdev_write_loop_abort [OF t Some]] show ?thesis by auto
    next
      case None
      show ?thesis
      proof (cases "dmu_write_uio_err env (u64 off) ?b")
        case (Some e0)
        from "1.prems" [unfolded cdev_write_loop_fail [OF t None Some]] show ?thesis by auto
      next
        case wnone: None
        obtain err1 off1 resid1 evs1 where
          r: "cdev_write_loop env cm volsize (off + int ?b) (resid - int ?b)
                = (err1, off1, resid1, evs1)"
          by (metis prod_cases4)
        from "1.IH" [OF True refl None wnone r]
        have ih: "contiguous ((u64 off + ?b) mod 2 ^ 64) (xfer_ranges evs1)"
          "err1 = None \<longrightarrow> resid1 + int (xfer_total evs1) = resid - int ?b
                             \<and> off1 = off + int ?b + int (xfer_total evs1)"
          by (simp_all add: u64_add)
        from "1.prems" [unfolded cdev_write_loop_next [OF t None wnone r]] ih
          cdev_bytes_pos [OF t]
        show ?thesis by auto
      qed
    qed
  qed
qed

lemma u64_small: "0 \<le> off \<Longrightarrow> off < int v \<Longrightarrow> v \<le> 2 ^ 64 \<Longrightarrow> u64 off = nat off"
  by (simp add: u64_def)

lemma cdev_read_loop_complete:
  "cdev_read_loop env v off resid = (err, off', resid', evs) \<Longrightarrow>
   \<forall>a n. dmu_read_err env a n = None \<Longrightarrow>
   0 \<le> off \<Longrightarrow> 0 \<le> resid \<Longrightarrow> off + resid \<le> int v \<Longrightarrow> v \<le> 2 ^ 64 \<Longrightarrow>
   err = None \<and> resid' = 0"
proof (induction env v off resid arbitrary: err off' resid' evs rule: cdev_read_loop.induct)
  case (1 env volsize off resid)
  let ?b = "cdev_bytes volsize off resid"
  show ?case
  proof (cases "resid > 0 \<and> u64 off < volsize")
    case False
    have "resid = 0"
    proof (rule ccontr)
      assume "resid \<noteq> 0"
      with "1.prems"(4) have p: "resid > 0" by simp
      with "1.prems"(5) have lt: "off < int volsize" by simp
      have "u64 off = nat off" using u64_small [OF "1.prems"(3) lt "1.prems"(6)] .
      moreover have "nat off < volsize" using lt "1.prems"(3) by linarith
      ultimately have "u64 off < volsize" by simp
      with p False show False by simp
    qed
    with "1.prems"(1) [unfolded cdev_read_loop_stop [OF False]] show ?thesis by auto
  next
    case True
    then have t: "resid > 0" "u64 off < volsize" by simp_all
    have None: "dmu_read_err env (u64 off) ?b = None" using "1.prems"(2) by simp
    obtain err1 off1 resid1 evs1 where
      r: "cdev_read_loop env volsize (off + int ?b) (resid - int ?b)
            = (err1, off1, resid1, evs1)"
      by (metis prod_cases4)
    have le: "int ?b \<le> resid" using cdev_bytes_le_resid [OF t(1)] .
    have a: "0 \<le> off + int ?b" using "1.prems"(3) by simp
    have b: "0 \<le> resid - int ?b" using le by simp
    have c: "off + int ?b + (resid - int ?b) \<le> int volsize" using "1.prems"(5) by simp
    from "1.IH" [OF True refl None r "1.prems"(2) a b c "1.prems"(6)]
    have "err1 = None \<and> resid1 = 0" .
    with "1.prems"(1) [unfolded cdev_read_loop_next [OF t None r]] show ?thesis by auto
  qed
qed

lemma cdev_write_loop_complete:
  "cdev_write_loop env cm v off resid = (err, off', resid', evs) \<Longrightarrow>
   \<forall>a n. tx_assign_err env a n = None \<and> dmu_write_uio_err env a n = None \<Longrightarrow>
   0 \<le> off \<Longrightarrow> 0 \<le> resid \<Longrightarrow> off + resid \<le> int v \<Longrightarrow> v \<le> 2 ^ 64 \<Longrightarrow>
   err = None \<and> resid' = 0"
proof (induction env cm v off resid arbitrary: err off' resid' evs
       rule: cdev_write_loop.induct)
  case (1 env cm volsize off resid)
  let ?b = "cdev_bytes volsize off resid"
  show ?case
  proof (cases "resid > 0 \<and> u64 off < volsize")
    case False
    have "resid = 0"
    proof (rule ccontr)
      assume "resid \<noteq> 0"
      with "1.prems"(4) have p: "resid > 0" by simp
      with "1.prems"(5) have lt: "off < int volsize" by simp
      have "u64 off = nat off" using u64_small [OF "1.prems"(3) lt "1.prems"(6)] .
      moreover have "nat off < volsize" using lt "1.prems"(3) by linarith
      ultimately have "u64 off < volsize" by simp
      with p False show False by simp
    qed
    with "1.prems"(1) [unfolded cdev_write_loop_stop [OF False]] show ?thesis by auto
  next
    case True
    then have t: "resid > 0" "u64 off < volsize" by simp_all
    have None: "tx_assign_err env (u64 off) ?b = None" using "1.prems"(2) by simp
    have wnone: "dmu_write_uio_err env (u64 off) ?b = None" using "1.prems"(2) by simp
    obtain err1 off1 resid1 evs1 where
      r: "cdev_write_loop env cm volsize (off + int ?b) (resid - int ?b)
            = (err1, off1, resid1, evs1)"
      by (metis prod_cases4)
    have le: "int ?b \<le> resid" using cdev_bytes_le_resid [OF t(1)] .
    have a: "0 \<le> off + int ?b" using "1.prems"(3) by simp
    have b: "0 \<le> resid - int ?b" using le by simp
    have c: "off + int ?b + (resid - int ?b) \<le> int volsize" using "1.prems"(5) by simp
    from "1.IH" [OF True refl None wnone r "1.prems"(2) a b c "1.prems"(6)]
    have "err1 = None \<and> resid1 = 0" .
    with "1.prems"(1) [unfolded cdev_write_loop_next [OF t None wnone r]] show ?thesis by auto
  qed
qed

lemma xfer_stats [simp]:
  "xfer_ranges (case c of BIO_READ \<Rightarrow> [KstatRead i] | BIO_WRITE \<Rightarrow> [KstatWrite j] | _ \<Rightarrow> []) = []"
  by (cases c) simp_all

lemma strategy_io_cover:
  assumes d: "bio_cmd bp \<noteq> BIO_DELETE"
    and b: "\<not> (bio_length bp > 0 \<and> bio_offset bp \<ge> zv_volsize zv)"
  shows "contiguous (bio_offset bp) (xfer_ranges (snd (snd (snd (strategy_io env zv bp dr)))))
     \<and> bio_completed (fst (snd (strategy_io env zv bp dr)))
         = xfer_total (snd (snd (snd (strategy_io env zv bp dr))))
     \<and> ((\<forall>a n. dmu_read_err env a n = None \<and> tx_assign_err env a n = None)
          \<and> bio_offset bp + bio_length bp \<le> zv_volsize zv \<and> zv_volsize zv \<le> 2 ^ 64
        \<longrightarrow> fst (strategy_io env zv bp dr) = None
            \<and> bio_completed (fst (snd (strategy_io env zv bp dr))) = bio_length bp)"
proof -
  obtain err off' resid' evs where
    l: "strategy_loop env dr (\<not> dr \<and> os_sync_always zv) (zv_volsize zv) (bio_offset bp)
          (bio_length bp) = (err, off', resid', evs)"
    by (metis prod_cases4)
  from strategy_loop_cover [OF l]
  have c: "contiguous (bio_offset bp) (xfer_ranges evs)" "resid' + xfer_total evs = bio_length bp"
    by simp_all
  have k: "bio_length bp - resid' = xfer_total evs" using c(2) by simp
  have x: "xfer_ranges (snd (snd (snd (strategy_io env zv bp dr)))) = xfer_ranges evs"
    unfolding strategy_io_loop [OF d b l]
    by (simp add: xfer_ranges_append)
  have y: "bio_completed (fst (snd (strategy_io env zv bp dr))) = xfer_total evs"
    unfolding strategy_io_loop [OF d b l] using k by simp
  have z: "fst (strategy_io env zv bp dr) = None
            \<and> bio_completed (fst (snd (strategy_io env zv bp dr))) = bio_length bp"
    if "\<forall>a n. dmu_read_err env a n = None \<and> tx_assign_err env a n = None"
      "bio_offset bp + bio_length bp \<le> zv_volsize zv" "zv_volsize zv \<le> 2 ^ 64"
  proof -
    from strategy_loop_complete [OF l that] have "err = None" "resid' = 0" by simp_all
    then show ?thesis unfolding strategy_io_loop [OF d b l] by simp
  qed
  from c(1) x y z show ?thesis by (simp add: xfer_total_def)
qed

lemma strategy_impl_cover:
  assumes "zv_flags zv AND ZVOL_REMOVING = 0"
    "bio_cmd bp = BIO_READ \<or> bio_cmd bp = BIO_WRITE \<and> zv_flags zv AND ZVOL_RDONLY = 0"
    "\<not> (bio_length bp > 0 \<and> bio_offset bp \<ge> zv_volsize zv)"
  shows "contiguous (bio_offset bp)
           (xfer_ranges (snd (snd (snd (zvol_strategy_impl env (Some zv) bp)))))
     \<and> bio_completed (fst (snd (zvol_strategy_impl env (Some zv) bp)))
         = xfer_total (snd (snd (snd (zvol_strategy_impl env (Some zv) bp))))
     \<and> ((\<forall>a n. dmu_read_err env a n = None \<and> tx_assign_err env a n = None)
          \<and> bio_offset bp + bio_length bp \<le> zv_volsize zv \<and> zv_volsize zv \<le> 2 ^ 64
        \<longrightarrow> fst (zvol_strategy_impl env (Some zv) bp) = None
            \<and> bio_completed (fst (snd (zvol_strategy_impl env (Some zv) bp))) = bio_length bp)"
proof -
  have d: "bio_cmd bp \<noteq> BIO_DELETE" using assms(2) by auto
  from assms(2) show ?thesis
  proof
    assume r: "bio_cmd bp = BIO_READ"
    obtain e bp' zv' evs where s: "strategy_io env zv bp True = (e, bp', zv', evs)"
      by (metis prod_cases4)
    from strategy_io_cover [OF d assms(3), of env True] show ?thesis
      unfolding strategy_impl_read [OF assms(1) r] s by auto
  next
    assume w: "bio_cmd bp = BIO_WRITE \<and> zv_flags zv AND ZVOL_RDONLY = 0"
    obtain e bp' zv' evs where
      s: "strategy_io env (zvol_ensure_zilog zv) bp False = (e, bp', zv', evs)"
      by (metis prod_cases4)
    have b: "\<not> (bio_length bp > 0 \<and> bio_offset bp \<ge> zv_volsize (zvol_ensure_zilog zv))"
      using assms(3) by simp
    from strategy_io_cover [OF d b, of env False] w show ?thesis
      unfolding strategy_impl_write [OF assms(1) conjunct2 [OF w] disjI1 [OF conjunct1 [OF w]]] s
      by auto
  qed
qed

lemma cdev_read_cover:
  assumes b: "\<not> (uio_resid u > 0 \<and> (uio_offset u < 0 \<or> u64 (uio_offset u) > zv_volsize zv))"
  shows "contiguous (u64 (uio_offset u)) (xfer_ranges (snd (snd (zvol_cdev_read env zv u))))
     \<and> (fst (zvol_cdev_read env zv u) = None
        \<longrightarrow> uio_resid u - uio_resid (fst (snd (zvol_cdev_read env zv u)))
              = int (xfer_total (snd (snd (zvol_cdev_read env zv u))))
            \<and> uio_offset (fst (snd (zvol_cdev_read env zv u))) - uio_offset u
              = int (xfer_total (snd (snd (zvol_cdev_read env zv u)))))
     \<and> ((\<forall>a n. dmu_read_err env a n = None) \<and> 0 \<le> uio_offset u \<and> 0 \<le> uio_resid u
          \<and> uio_offset u + uio_resid u \<le> int (zv_volsize zv) \<and> zv_volsize zv \<le> 2 ^ 64
        \<longrightarrow> fst (zvol_cdev_read env zv u) = None
            \<and> uio_resid (fst (snd (zvol_cdev_read env zv u))) = 0)"
proof -
  obtain err off' resid' evs where
    l: "cdev_read_loop env (zv_volsize zv) (uio_offset u) (uio_resid u) = (err, off', resid', evs)"
    by (metis prod_cases4)
  from b have b': "(uio_resid u > 0 \<and> (uio_offset u < 0 \<or> u64 (uio_offset u) > zv_volsize zv))
                   = False" by simp
  have res: "zvol_cdev_read env zv u =
      (err, u\<lparr>uio_offset := off', uio_resid := resid'\<rparr>, evs @ [KstatRead (uio_resid u - resid')])"
    unfolding zvol_cdev_read_def Let_def b' if_False l by simp
  from cdev_read_loop_cover [OF l]
  have c: "contiguous (u64 (uio_offset u)) (xfer_ranges evs)"
    "err = None \<longrightarrow> resid' + int (xfer_total evs) = uio_resid u
                      \<and> off' = uio_offset u + int (xfer_total evs)"
    by simp_all
  have z: "err = None \<and> resid' = 0"
    if "\<forall>a n. dmu_read_err env a n = None" "0 \<le> uio_offset u" "0 \<le> uio_resid u"
      "uio_offset u + uio_resid u \<le> int (zv_volsize zv)" "zv_volsize zv \<le> 2 ^ 64"
    using cdev_read_loop_complete [OF l that] .
  from c z show ?thesis
    unfolding res by (auto simp: xfer_ranges_append xfer_total_append)
qed

lemma cdev_write_cover:
  assumes b: "\<not> (uio_resid u > 0 \<and> (uio_offset u < 0 \<or> u64 (uio_offset u) > zv_volsize zv))"
  shows "contiguous (u64 (uio_offset u))
           (xfer_ranges (snd (snd (snd (zvol_cdev_write env zv u s)))))
     \<and> (fst (zvol_cdev_write env zv u s) = None
        \<longrightarrow> uio_resid u - uio_resid (fst (snd (zvol_cdev_write env zv u s)))
              = int (xfer_total (snd (snd (snd (zvol_cdev_write env zv u s)))))
            \<and> uio_offset (fst (snd (zvol_cdev_write env zv u s))) - uio_offset u
              = int (xfer_total (snd (snd (snd (zvol_cdev_write env zv u s))))))
     \<and> ((\<forall>a n. tx_assign_err env a n = None \<and> dmu_write_uio_err env a n = None)
          \<and> 0 \<le> uio_offset u \<and> 0 \<le> uio_resid u
          \<and> uio_offset u + uio_resid u \<le> int (zv_volsize zv) \<and> zv_volsize zv \<le> 2 ^ 64
        \<longrightarrow> fst (zvol_cdev_write env zv u s) = None
            \<and> uio_resid (fst (snd (zvol_cdev_write env zv u s))) = 0)"
proof -
  obtain err off' resid' evs where
    l: "cdev_write_loop env (s \<or> os_sync_always zv) (zv_volsize zv) (uio_offset u) (uio_resid u)
          = (err, off', resid', evs)"
    by (metis prod_cases4)
  from b have b': "(uio_resid u > 0 \<and> (uio_offset u < 0 \<or> u64 (uio_offset u) > zv_volsize zv))
                   = False" by simp
  have res: "zvol_cdev_write env zv u s =
      (err, u\<lparr>uio_offset := off', uio_resid := resid'\<rparr>, zvol_ensure_zilog zv,
       evs @ [KstatWrite (uio_resid u - resid')]
           @ (if s \<or> os_sync_always zv then [ZilCommit] else []))"
    unfolding zvol_cdev_write_def Let_def b' if_False l by simp
  from cdev_write_loop_cover [OF l]
  have c: "contiguous (u64 (uio_offset u)) (xfer_ranges evs)"
    "err = None \<longrightarrow> resid' + int (xfer_total evs) = uio_resid u
                      \<and> off' = uio_offset u + int (xfer_total evs)"
    by simp_all
  have z: "err = None \<and> resid' = 0"
    if "\<forall>a n. tx_assign_err env a n = None \<and> dmu_write_uio_err env a n = None"
      "0 \<le> uio_offset u" "0 \<le> uio_resid u"
      "uio_offset u + uio_resid u \<le> int (zv_volsize zv)" "zv_volsize zv \<le> 2 ^ 64"
    using cdev_write_loop_complete [OF l that] .
  from c z show ?thesis
    unfolding res by (auto simp: xfer_ranges_append xfer_total_append)
qed

text \<open>
  Claim C8. A read or write request of any length is carried out in chunks none of which
  is larger than one fixed maximum, half of \<open>DMU_MAX_ACCESS\<close>: every read of the store and
  every transaction of a write chunk covers at most that many bytes, on the strategy path
  (whose cap is \<open>zvol_maxphys\<close>) and in the character-device read and write routines
  (whose cap is \<open>DMU_MAX_ACCESS >> 1\<close>, the same number). The chunks are the request: a
  request that passes the checks at the entry of its routine is transferred as consecutive
  non-empty chunks that start at the request's offset, each beginning where the one before
  ended, and the byte count the routine reports (\<open>bio_completed\<close>; the decrease of
  \<open>uio_resid\<close> when a character-device routine succeeds) is the sum of their sizes; when
  the store reports no error and the request lies inside the volume, the routine succeeds
  and the chunks add up to the whole request.
\<close>

theorem chunk_cap:
  "zvol_maxphys = DMU_MAX_ACCESS div 2 \<and> cdev_maxphys = zvol_maxphys
   \<and> (bio_cmd bp = BIO_READ \<or> bio_cmd bp = BIO_WRITE \<longrightarrow>
        (\<forall>x \<in> set (snd (snd (snd (zvol_strategy_impl env zvp bp)))).
           chunk_size x \<le> zvol_maxphys))
   \<and> (\<forall>x \<in> set (snd (snd (zvol_cdev_read env zv u))). chunk_size x \<le> zvol_maxphys)
   \<and> (\<forall>x \<in> set (snd (snd (snd (zvol_cdev_write env zv u s)))). chunk_size x \<le> zvol_maxphys)
   \<and> (zv_flags zv AND ZVOL_REMOVING = 0
        \<and> (bio_cmd bp = BIO_READ \<or> bio_cmd bp = BIO_WRITE \<and> zv_flags zv AND ZVOL_RDONLY = 0)
        \<and> \<not> (bio_length bp > 0 \<and> bio_offset bp \<ge> zv_volsize zv) \<longrightarrow>
        contiguous (bio_offset bp)
          (xfer_ranges (snd (snd (snd (zvol_strategy_impl env (Some zv) bp)))))
        \<and> bio_completed (fst (snd (zvol_strategy_impl env (Some zv) bp)))
            = xfer_total (snd (snd (snd (zvol_strategy_impl env (Some zv) bp))))
        \<and> ((\<forall>a n. dmu_read_err env a n = None \<and> tx_assign_err env a n = None)
             \<and> bio_offset bp + bio_length bp \<le> zv_volsize zv \<and> zv_volsize zv \<le> 2 ^ 64 \<longrightarrow>
             fst (zvol_strategy_impl env (Some zv) bp) = None
             \<and> xfer_total (snd (snd (snd (zvol_strategy_impl env (Some zv) bp))))
                 = bio_length bp))
   \<and> (\<not> (uio_resid u > 0 \<and> (uio_offset u < 0 \<or> u64 (uio_offset u) > zv_volsize zv)) \<longrightarrow>
        contiguous (u64 (uio_offset u)) (xfer_ranges (snd (snd (zvol_cdev_read env zv u))))
        \<and> (fst (zvol_cdev_read env zv u) = None \<longrightarrow>
             uio_resid u - uio_resid (fst (snd (zvol_cdev_read env zv u)))
               = int (xfer_total (snd (snd (zvol_cdev_read env zv u)))))
        \<and> ((\<forall>a n. dmu_read_err env a n = None) \<and> 0 \<le> uio_offset u \<and> 0 \<le> uio_resid u
             \<and> uio_offset u + uio_resid u \<le> int (zv_volsize zv) \<and> zv_volsize zv \<le> 2 ^ 64 \<longrightarrow>
             fst (zvol_cdev_read env zv u) = None
             \<and> int (xfer_total (snd (snd (zvol_cdev_read env zv u)))) = uio_resid u))
   \<and> (\<not> (uio_resid u > 0 \<and> (uio_offset u < 0 \<or> u64 (uio_offset u) > zv_volsize zv)) \<longrightarrow>
        contiguous (u64 (uio_offset u))
          (xfer_ranges (snd (snd (snd (zvol_cdev_write env zv u s)))))
        \<and> (fst (zvol_cdev_write env zv u s) = None \<longrightarrow>
             uio_resid u - uio_resid (fst (snd (zvol_cdev_write env zv u s)))
               = int (xfer_total (snd (snd (snd (zvol_cdev_write env zv u s))))))
        \<and> ((\<forall>a n. tx_assign_err env a n = None \<and> dmu_write_uio_err env a n = None)
             \<and> 0 \<le> uio_offset u \<and> 0 \<le> uio_resid u
             \<and> uio_offset u + uio_resid u \<le> int (zv_volsize zv) \<and> zv_volsize zv \<le> 2 ^ 64 \<longrightarrow>
             fst (zvol_cdev_write env zv u s) = None
             \<and> int (xfer_total (snd (snd (snd (zvol_cdev_write env zv u s))))) = uio_resid u))"
proof (intro conjI)
  show "zvol_maxphys = DMU_MAX_ACCESS div 2" by (simp add: zvol_maxphys_def)
  show "cdev_maxphys = zvol_maxphys" by (simp add: cap_eq)
  show "bio_cmd bp = BIO_READ \<or> bio_cmd bp = BIO_WRITE \<longrightarrow>
        (\<forall>x \<in> set (snd (snd (snd (zvol_strategy_impl env zvp bp)))).
           chunk_size x \<le> zvol_maxphys)"
    using strategy_impl_sizes [of bp env zvp] by simp
  show "\<forall>x \<in> set (snd (snd (zvol_cdev_read env zv u))). chunk_size x \<le> zvol_maxphys"
    by (rule cdev_read_sizes)
  show "\<forall>x \<in> set (snd (snd (snd (zvol_cdev_write env zv u s)))). chunk_size x \<le> zvol_maxphys"
    by (rule cdev_write_sizes)
  show "zv_flags zv AND ZVOL_REMOVING = 0
        \<and> (bio_cmd bp = BIO_READ \<or> bio_cmd bp = BIO_WRITE \<and> zv_flags zv AND ZVOL_RDONLY = 0)
        \<and> \<not> (bio_length bp > 0 \<and> bio_offset bp \<ge> zv_volsize zv) \<longrightarrow>
        contiguous (bio_offset bp)
          (xfer_ranges (snd (snd (snd (zvol_strategy_impl env (Some zv) bp)))))
        \<and> bio_completed (fst (snd (zvol_strategy_impl env (Some zv) bp)))
            = xfer_total (snd (snd (snd (zvol_strategy_impl env (Some zv) bp))))
        \<and> ((\<forall>a n. dmu_read_err env a n = None \<and> tx_assign_err env a n = None)
             \<and> bio_offset bp + bio_length bp \<le> zv_volsize zv \<and> zv_volsize zv \<le> 2 ^ 64 \<longrightarrow>
             fst (zvol_strategy_impl env (Some zv) bp) = None
             \<and> xfer_total (snd (snd (snd (zvol_strategy_impl env (Some zv) bp))))
                 = bio_length bp)"
  proof
    assume h: "zv_flags zv AND ZVOL_REMOVING = 0
        \<and> (bio_cmd bp = BIO_READ \<or> bio_cmd bp = BIO_WRITE \<and> zv_flags zv AND ZVOL_RDONLY = 0)
        \<and> \<not> (bio_length bp > 0 \<and> bio_offset bp \<ge> zv_volsize zv)"
    from strategy_impl_cover [OF conjunct1 [OF h] conjunct1 [OF conjunct2 [OF h]]
        conjunct2 [OF conjunct2 [OF h]], of env]
    show "contiguous (bio_offset bp)
          (xfer_ranges (snd (snd (snd (zvol_strategy_impl env (Some zv) bp)))))
        \<and> bio_completed (fst (snd (zvol_strategy_impl env (Some zv) bp)))
            = xfer_total (snd (snd (snd (zvol_strategy_impl env (Some zv) bp))))
        \<and> ((\<forall>a n. dmu_read_err env a n = None \<and> tx_assign_err env a n = None)
             \<and> bio_offset bp + bio_length bp \<le> zv_volsize zv \<and> zv_volsize zv \<le> 2 ^ 64 \<longrightarrow>
             fst (zvol_strategy_impl env (Some zv) bp) = None
             \<and> xfer_total (snd (snd (snd (zvol_strategy_impl env (Some zv) bp))))
                 = bio_length bp)"
      by auto
  qed
  show "\<not> (uio_resid u > 0 \<and> (uio_offset u < 0 \<or> u64 (uio_offset u) > zv_volsize zv)) \<longrightarrow>
        contiguous (u64 (uio_offset u)) (xfer_ranges (snd (snd (zvol_cdev_read env zv u))))
        \<and> (fst (zvol_cdev_read env zv u) = None \<longrightarrow>
             uio_resid u - uio_resid (fst (snd (zvol_cdev_read env zv u)))
               = int (xfer_total (snd (snd (zvol_cdev_read env zv u)))))
        \<and> ((\<forall>a n. dmu_read_err env a n = None) \<and> 0 \<le> uio_offset u \<and> 0 \<le> uio_resid u
             \<and> uio_offset u + uio_resid u \<le> int (zv_volsize zv) \<and> zv_volsize zv \<le> 2 ^ 64 \<longrightarrow>
             fst (zvol_cdev_read env zv u) = None
             \<and> int (xfer_total (snd (snd (zvol_cdev_read env zv u)))) = uio_resid u)"
  proof
    assume h: "\<not> (uio_resid u > 0 \<and> (uio_offset u < 0 \<or> u64 (uio_offset u) > zv_volsize zv))"
    from cdev_read_cover [OF h, of env]
    show "contiguous (u64 (uio_offset u)) (xfer_ranges (snd (snd (zvol_cdev_read env zv u))))
        \<and> (fst (zvol_cdev_read env zv u) = None \<longrightarrow>
             uio_resid u - uio_resid (fst (snd (zvol_cdev_read env zv u)))
               = int (xfer_total (snd (snd (zvol_cdev_read env zv u)))))
        \<and> ((\<forall>a n. dmu_read_err env a n = None) \<and> 0 \<le> uio_offset u \<and> 0 \<le> uio_resid u
             \<and> uio_offset u + uio_resid u \<le> int (zv_volsize zv) \<and> zv_volsize zv \<le> 2 ^ 64 \<longrightarrow>
             fst (zvol_cdev_read env zv u) = None
             \<and> int (xfer_total (snd (snd (zvol_cdev_read env zv u)))) = uio_resid u)"
      by auto
  qed
  show "\<not> (uio_resid u > 0 \<and> (uio_offset u < 0 \<or> u64 (uio_offset u) > zv_volsize zv)) \<longrightarrow>
        contiguous (u64 (uio_offset u))
          (xfer_ranges (snd (snd (snd (zvol_cdev_write env zv u s)))))
        \<and> (fst (zvol_cdev_write env zv u s) = None \<longrightarrow>
             uio_resid u - uio_resid (fst (snd (zvol_cdev_write env zv u s)))
               = int (xfer_total (snd (snd (snd (zvol_cdev_write env zv u s))))))
        \<and> ((\<forall>a n. tx_assign_err env a n = None \<and> dmu_write_uio_err env a n = None)
             \<and> 0 \<le> uio_offset u \<and> 0 \<le> uio_resid u
             \<and> uio_offset u + uio_resid u \<le> int (zv_volsize zv) \<and> zv_volsize zv \<le> 2 ^ 64 \<longrightarrow>
             fst (zvol_cdev_write env zv u s) = None
             \<and> int (xfer_total (snd (snd (snd (zvol_cdev_write env zv u s))))) = uio_resid u)"
  proof
    assume h: "\<not> (uio_resid u > 0 \<and> (uio_offset u < 0 \<or> u64 (uio_offset u) > zv_volsize zv))"
    from cdev_write_cover [OF h, of env s]
    show "contiguous (u64 (uio_offset u))
          (xfer_ranges (snd (snd (snd (zvol_cdev_write env zv u s)))))
        \<and> (fst (zvol_cdev_write env zv u s) = None \<longrightarrow>
             uio_resid u - uio_resid (fst (snd (zvol_cdev_write env zv u s)))
               = int (xfer_total (snd (snd (snd (zvol_cdev_write env zv u s))))))
        \<and> ((\<forall>a n. tx_assign_err env a n = None \<and> dmu_write_uio_err env a n = None)
             \<and> 0 \<le> uio_offset u \<and> 0 \<le> uio_resid u
             \<and> uio_offset u + uio_resid u \<le> int (zv_volsize zv) \<and> zv_volsize zv \<le> 2 ^ 64 \<longrightarrow>
             fst (zvol_cdev_write env zv u s) = None
             \<and> int (xfer_total (snd (snd (snd (zvol_cdev_write env zv u s))))) = uio_resid u)"
      by auto
  qed
qed

theorem chunk_cap_witness:
  "zvol_strategy_impl ex_io_ok (Some ex_vol)
       \<lparr>bio_cmd = BIO_READ, bio_offset = 0, bio_length = 40000000, bio_completed = 0\<rparr>
     = (None, \<lparr>bio_cmd = BIO_READ, bio_offset = 0, bio_length = 40000000,
               bio_completed = 40000000\<rparr>, Some ex_vol,
        [DmuRead 0 33554432, DmuRead 33554432 6445568, KstatRead 40000000])
   \<and> zvol_cdev_read ex_io_ok ex_vol \<lparr>uio_offset = 0, uio_resid = 40000000\<rparr>
     = (None, \<lparr>uio_offset = 40000000, uio_resid = 0\<rparr>,
        [DmuRead 0 33554432, DmuRead 33554432 6445568, KstatRead 40000000])
   \<and> snd (snd (snd (zvol_cdev_write ex_io_ok ex_vol
        \<lparr>uio_offset = 0, uio_resid = 40000000\<rparr> False)))
     = [DmuWrite 0 33554432, LogWrite 0 33554432 False, TxCommit 0 33554432,
        DmuWrite 33554432 6445568, LogWrite 33554432 6445568 False,
        TxCommit 33554432 6445568, KstatWrite 40000000]
   \<and> chunk_size (DmuRead 0 33554432) \<le> zvol_maxphys
   \<and> chunk_size (DmuWrite 0 33554432) \<le> zvol_maxphys
   \<and> contiguous 0 [(0, 33554432), (33554432, 6445568)]
   \<and> xfer_total [DmuRead 0 33554432, DmuRead 33554432 6445568, KstatRead 40000000] = 40000000
   \<and> xfer_total [DmuWrite 0 33554432, LogWrite 0 33554432 False, TxCommit 0 33554432,
        DmuWrite 33554432 6445568, LogWrite 33554432 6445568 False,
        TxCommit 33554432 6445568, KstatWrite 40000000] = 40000000"
proof -
  let ?bp = "\<lparr>bio_cmd = BIO_READ, bio_offset = 0, bio_length = 40000000, bio_completed = 0\<rparr>"
  let ?u = "\<lparr>uio_offset = 0, uio_resid = 40000000\<rparr>"
  note t = chunk_cap [of ?bp ex_io_ok "Some ex_vol" ex_vol ?u False]
  have a: "zvol_strategy_impl ex_io_ok (Some ex_vol) ?bp
     = (None, \<lparr>bio_cmd = BIO_READ, bio_offset = 0, bio_length = 40000000,
               bio_completed = 40000000\<rparr>, Some ex_vol,
        [DmuRead 0 33554432, DmuRead 33554432 6445568, KstatRead 40000000])"
    by (simp add: ex_io_defs io_defs)
  have b: "zvol_cdev_read ex_io_ok ex_vol ?u
     = (None, \<lparr>uio_offset = 40000000, uio_resid = 0\<rparr>,
        [DmuRead 0 33554432, DmuRead 33554432 6445568, KstatRead 40000000])"
    by (simp add: ex_io_defs io_defs)
  have c: "snd (snd (snd (zvol_cdev_write ex_io_ok ex_vol ?u False)))
     = [DmuWrite 0 33554432, LogWrite 0 33554432 False, TxCommit 0 33554432,
        DmuWrite 33554432 6445568, LogWrite 33554432 6445568 False,
        TxCommit 33554432 6445568, KstatWrite 40000000]"
    by (simp add: ex_io_defs io_defs)
  have hs: "zv_flags ex_vol AND ZVOL_REMOVING = 0
        \<and> (bio_cmd ?bp = BIO_READ \<or> bio_cmd ?bp = BIO_WRITE \<and> zv_flags ex_vol AND ZVOL_RDONLY = 0)
        \<and> \<not> (bio_length ?bp > 0 \<and> bio_offset ?bp \<ge> zv_volsize ex_vol)"
    by (simp add: ex_io_defs)
  have hs2: "(\<forall>a n. dmu_read_err ex_io_ok a n = None \<and> tx_assign_err ex_io_ok a n = None)
             \<and> bio_offset ?bp + bio_length ?bp \<le> zv_volsize ex_vol
             \<and> zv_volsize ex_vol \<le> 2 ^ 64"
    by (simp add: ex_io_defs)
  have hc: "\<not> (uio_resid ?u > 0 \<and> (uio_offset ?u < 0 \<or> u64 (uio_offset ?u) > zv_volsize ex_vol))"
    by (simp add: ex_io_defs u64_def)
  have hr2: "(\<forall>a n. dmu_read_err ex_io_ok a n = None) \<and> 0 \<le> uio_offset ?u \<and> 0 \<le> uio_resid ?u
             \<and> uio_offset ?u + uio_resid ?u \<le> int (zv_volsize ex_vol)
             \<and> zv_volsize ex_vol \<le> 2 ^ 64"
    by (simp add: ex_io_defs)
  have hw2: "(\<forall>a n. tx_assign_err ex_io_ok a n = None \<and> dmu_write_uio_err ex_io_ok a n = None)
             \<and> 0 \<le> uio_offset ?u \<and> 0 \<le> uio_resid ?u
             \<and> uio_offset ?u + uio_resid ?u \<le> int (zv_volsize ex_vol)
             \<and> zv_volsize ex_vol \<le> 2 ^ 64"
    by (simp add: ex_io_defs)
  have b1: "bio_cmd ?bp = BIO_READ \<or> bio_cmd ?bp = BIO_WRITE" by simp
  note caps = t [THEN conjunct2, THEN conjunct2]
  from caps [THEN conjunct1, THEN mp, OF b1]
  have d: "chunk_size (DmuRead 0 33554432) \<le> zvol_maxphys"
    unfolding a by simp
  from caps [THEN conjunct2, THEN conjunct2, THEN conjunct1]
  have e: "chunk_size (DmuWrite 0 33554432) \<le> zvol_maxphys"
    unfolding c by simp
  note cov = caps [THEN conjunct2, THEN conjunct2, THEN conjunct2]
  note s1 = cov [THEN conjunct1, THEN mp, OF hs]
  from s1 [THEN conjunct1]
  have f: "contiguous 0 [(0, 33554432), (33554432, 6445568)]"
    unfolding a by simp
  from s1 [THEN conjunct2, THEN conjunct2, THEN mp, OF hs2]
  have g: "xfer_total [DmuRead 0 33554432, DmuRead 33554432 6445568, KstatRead 40000000]
             = 40000000"
    unfolding a by simp
  note r1 = cov [THEN conjunct2, THEN conjunct1, THEN mp, OF hc]
  from r1 [THEN conjunct2, THEN conjunct2, THEN mp, OF hr2]
  have g2: "xfer_total [DmuRead 0 33554432, DmuRead 33554432 6445568, KstatRead 40000000]
             = 40000000"
    unfolding b by simp
  note w1 = cov [THEN conjunct2, THEN conjunct2, THEN mp, OF hc]
  from w1 [THEN conjunct2, THEN conjunct2, THEN mp, OF hw2]
  have i: "xfer_total [DmuWrite 0 33554432, LogWrite 0 33554432 False, TxCommit 0 33554432,
        DmuWrite 33554432 6445568, LogWrite 33554432 6445568 False,
        TxCommit 33554432 6445568, KstatWrite 40000000] = 40000000"
    unfolding c by simp
  from a b c d e f g g2 i show ?thesis by simp
qed

section \<open>A write that fails part of the way\<close>






section \<open>Requests at and beyond the end of the volume\<close>

lemma strategy_reject:
  assumes "zv_flags zv AND ZVOL_REMOVING = 0"
    "bio_cmd bp = BIO_READ \<or> bio_cmd bp = BIO_WRITE \<and> zv_flags zv AND ZVOL_RDONLY = 0"
    "bio_length bp > 0" "bio_offset bp \<ge> zv_volsize zv"
  shows "zvol_strategy_impl env (Some zv) bp =
           (Some EIO, bp, Some (if bio_cmd bp = BIO_READ then zv else zvol_ensure_zilog zv), [])"
  using assms by (auto simp: zvol_strategy_impl_def strategy_io_def)

lemma cdev_read_reject:
  "uio_resid u > 0 \<Longrightarrow> uio_offset u < 0 \<or> u64 (uio_offset u) > zv_volsize zv \<Longrightarrow>
   zvol_cdev_read env zv u = (Some EIO, u, [])"
  by (auto simp: zvol_cdev_read_def)

lemma cdev_write_reject:
  "uio_resid u > 0 \<Longrightarrow> uio_offset u < 0 \<or> u64 (uio_offset u) > zv_volsize zv \<Longrightarrow>
   zvol_cdev_write env zv u s = (Some EIO, u, zv, [])"
  by (auto simp: zvol_cdev_write_def)

lemma cdev_read_at_end:
  "uio_offset u = int (zv_volsize zv) \<Longrightarrow> zv_volsize zv < 2 ^ 63 \<Longrightarrow>
   zvol_cdev_read env zv u = (None, u, [KstatRead 0])"
  by (simp add: zvol_cdev_read_def cdev_read_loop_stop u64_def)

lemma cdev_write_at_end:
  "uio_offset u = int (zv_volsize zv) \<Longrightarrow> zv_volsize zv < 2 ^ 63 \<Longrightarrow>
   zvol_cdev_write env zv u s =
     (None, u, zvol_ensure_zilog zv,
      KstatWrite 0 # (if s \<or> os_sync_always zv then [ZilCommit] else []))"
  by (simp add: zvol_cdev_write_def cdev_write_loop_stop u64_def)

lemma cdev_read_passed:
  assumes "\<not> (uio_resid u > 0 \<and> (uio_offset u < 0 \<or> u64 (uio_offset u) > zv_volsize zv))"
  shows "snd (snd (zvol_cdev_read env zv u)) \<noteq> []"
proof -
  obtain err off' resid' evs where
    l: "cdev_read_loop env (zv_volsize zv) (uio_offset u) (uio_resid u) = (err, off', resid', evs)"
    by (metis prod_cases4)
  from assms have c: "(uio_resid u > 0 \<and> (uio_offset u < 0 \<or> u64 (uio_offset u) > zv_volsize zv))
                      = False" by simp
  show ?thesis unfolding zvol_cdev_read_def Let_def c if_False l by simp
qed

lemma cdev_write_passed:
  assumes "\<not> (uio_resid u > 0 \<and> (uio_offset u < 0 \<or> u64 (uio_offset u) > zv_volsize zv))"
  shows "snd (snd (snd (zvol_cdev_write env zv u s))) \<noteq> []"
proof -
  obtain err off' resid' evs where
    l: "cdev_write_loop env (s \<or> os_sync_always zv) (zv_volsize zv) (uio_offset u) (uio_resid u)
          = (err, off', resid', evs)"
    by (metis prod_cases4)
  from assms have c: "(uio_resid u > 0 \<and> (uio_offset u < 0 \<or> u64 (uio_offset u) > zv_volsize zv))
                      = False" by simp
  show ?thesis unfolding zvol_cdev_write_def Let_def c if_False l by simp
qed

text \<open>
  Claim C2, as amended. A read or write request of positive length whose offset is at or
  beyond the volume size, arriving on the strategy path and past that routine's earlier
  checks (the volume is not being removed, a write does not address a read-only volume),
  fails with EIO: the request is handed back unchanged and the store is not called. The
  character-device routines reject a negative offset and an offset strictly greater than
  the volume size with EIO, again without touching the store or the \<open>uio\<close>; an offset
  exactly equal to the volume size they accept, returning success with no byte
  transferred.
\<close>

theorem out_of_range_rejected:
  "(zv_flags zv AND ZVOL_REMOVING = 0
      \<and> (bio_cmd bp = BIO_READ \<or> bio_cmd bp = BIO_WRITE \<and> zv_flags zv AND ZVOL_RDONLY = 0)
      \<and> bio_length bp > 0 \<and> bio_offset bp \<ge> zv_volsize zv
    \<longrightarrow> fst (zvol_strategy_impl env (Some zv) bp) = Some EIO
        \<and> fst (snd (zvol_strategy_impl env (Some zv) bp)) = bp
        \<and> snd (snd (snd (zvol_strategy_impl env (Some zv) bp))) = [])
   \<and> (uio_resid u > 0 \<and> (uio_offset u < 0 \<or> u64 (uio_offset u) > zv_volsize cz)
    \<longrightarrow> zvol_cdev_read env cz u = (Some EIO, u, [])
        \<and> zvol_cdev_write env cz u s = (Some EIO, u, cz, []))
   \<and> (uio_resid u > 0 \<and> uio_offset u = int (zv_volsize cz) \<and> zv_volsize cz < 2 ^ 63
    \<longrightarrow> zvol_cdev_read env cz u = (None, u, [KstatRead 0])
        \<and> fst (zvol_cdev_write env cz u s) = None
        \<and> fst (snd (zvol_cdev_write env cz u s)) = u
        \<and> bytes_written (snd (snd (snd (zvol_cdev_write env cz u s)))) = 0)"
proof -
  have a: "fst (zvol_strategy_impl env (Some zv) bp) = Some EIO
        \<and> fst (snd (zvol_strategy_impl env (Some zv) bp)) = bp
        \<and> snd (snd (snd (zvol_strategy_impl env (Some zv) bp))) = []"
    if "zv_flags zv AND ZVOL_REMOVING = 0"
      "bio_cmd bp = BIO_READ \<or> bio_cmd bp = BIO_WRITE \<and> zv_flags zv AND ZVOL_RDONLY = 0"
      "bio_length bp > 0" "bio_offset bp \<ge> zv_volsize zv"
    using strategy_reject [OF that] by simp
  have b: "zvol_cdev_read env cz u = (Some EIO, u, [])
        \<and> zvol_cdev_write env cz u s = (Some EIO, u, cz, [])"
    if "uio_resid u > 0" "uio_offset u < 0 \<or> u64 (uio_offset u) > zv_volsize cz"
    using cdev_read_reject [OF that] cdev_write_reject [OF that] by simp
  have c: "zvol_cdev_read env cz u = (None, u, [KstatRead 0])
        \<and> fst (zvol_cdev_write env cz u s) = None
        \<and> fst (snd (zvol_cdev_write env cz u s)) = u
        \<and> bytes_written (snd (snd (snd (zvol_cdev_write env cz u s)))) = 0"
    if "uio_offset u = int (zv_volsize cz)" "zv_volsize cz < 2 ^ 63"
    using cdev_read_at_end [OF that] cdev_write_at_end [OF that] by simp
  from a b c show ?thesis by blast
qed

theorem out_of_range_rejected_counterexample:
  "zv_volsize ex_vol = 104857600
   \<and> zvol_cdev_write ex_io_ok ex_vol \<lparr>uio_offset = 104857600, uio_resid = 512\<rparr> False
       = (None, \<lparr>uio_offset = 104857600, uio_resid = 512\<rparr>, ex_vol, [KstatWrite 0])"
  by (simp add: ex_io_defs io_defs)

theorem out_of_range_rejected_witness:
  "zv_flags ex_vol AND ZVOL_REMOVING = 0
   \<and> bio_cmd \<lparr>bio_cmd = BIO_WRITE, bio_offset = 104857600, bio_length = 512, bio_completed = 0\<rparr>
       = BIO_WRITE
   \<and> zv_flags ex_vol AND ZVOL_RDONLY = 0
   \<and> (0::nat) < 512 \<and> zv_volsize ex_vol \<le> 104857600
   \<and> zvol_strategy_impl ex_io_ok (Some ex_vol)
        \<lparr>bio_cmd = BIO_WRITE, bio_offset = 104857600, bio_length = 512, bio_completed = 0\<rparr>
      = (Some EIO,
         \<lparr>bio_cmd = BIO_WRITE, bio_offset = 104857600, bio_length = 512, bio_completed = 0\<rparr>,
         Some ex_vol, [])
   \<and> u64 104857601 > zv_volsize ex_vol
   \<and> zvol_cdev_read ex_io_ok ex_vol \<lparr>uio_offset = 104857601, uio_resid = 512\<rparr>
      = (Some EIO, \<lparr>uio_offset = 104857601, uio_resid = 512\<rparr>, [])
   \<and> zvol_cdev_write ex_io_ok ex_vol \<lparr>uio_offset = 104857601, uio_resid = 512\<rparr> False
      = (Some EIO, \<lparr>uio_offset = 104857601, uio_resid = 512\<rparr>, ex_vol, [])
   \<and> (104857600::int) = int (zv_volsize ex_vol) \<and> zv_volsize ex_vol < 2 ^ 63
   \<and> zvol_cdev_read ex_io_ok ex_vol \<lparr>uio_offset = 104857600, uio_resid = 512\<rparr>
      = (None, \<lparr>uio_offset = 104857600, uio_resid = 512\<rparr>, [KstatRead 0])"
proof -
  let ?bp = "\<lparr>bio_cmd = BIO_WRITE, bio_offset = 104857600, bio_length = 512, bio_completed = 0\<rparr>"
  let ?u1 = "\<lparr>uio_offset = 104857601, uio_resid = 512\<rparr>"
  let ?u2 = "\<lparr>uio_offset = 104857600, uio_resid = 512\<rparr>"
  have h1: "zv_flags ex_vol AND ZVOL_REMOVING = 0
      \<and> (bio_cmd ?bp = BIO_READ \<or> bio_cmd ?bp = BIO_WRITE \<and> zv_flags ex_vol AND ZVOL_RDONLY = 0)
      \<and> bio_length ?bp > 0 \<and> bio_offset ?bp \<ge> zv_volsize ex_vol"
    by (simp add: ex_io_defs)
  have h2: "uio_resid ?u1 > 0 \<and> (uio_offset ?u1 < 0 \<or> u64 (uio_offset ?u1) > zv_volsize ex_vol)"
    by (simp add: ex_io_defs u64_def)
  have h3: "uio_resid ?u2 > 0 \<and> uio_offset ?u2 = int (zv_volsize ex_vol)
            \<and> zv_volsize ex_vol < 2 ^ 63"
    by (simp add: ex_io_defs)
  have z: "zvol_ensure_zilog ex_vol = ex_vol" by (simp add: ex_io_defs zvol_ensure_zilog_def)
  from out_of_range_rejected [of ex_vol ?bp ex_io_ok ?u1 ex_vol False,
      THEN conjunct1, THEN mp, OF h1]
  have c1: "zvol_strategy_impl ex_io_ok (Some ex_vol) ?bp = (Some EIO, ?bp, Some ex_vol, [])"
    by (cases "zvol_strategy_impl ex_io_ok (Some ex_vol) ?bp")
       (simp add: zvol_strategy_impl_def ex_io_defs ZVOL_REMOVING_def ZVOL_RDONLY_def
          strategy_io_def zvol_ensure_zilog_def)
  from out_of_range_rejected [of ex_vol ?bp ex_io_ok ?u1 ex_vol False,
      THEN conjunct2, THEN conjunct1, THEN mp, OF h2]
  have c2: "zvol_cdev_read ex_io_ok ex_vol ?u1 = (Some EIO, ?u1, [])
            \<and> zvol_cdev_write ex_io_ok ex_vol ?u1 False = (Some EIO, ?u1, ex_vol, [])" .
  from out_of_range_rejected [of ex_vol ?bp ex_io_ok ?u2 ex_vol False,
      THEN conjunct2, THEN conjunct2, THEN mp, OF h3]
  have c3: "zvol_cdev_read ex_io_ok ex_vol ?u2 = (None, ?u2, [KstatRead 0])" by simp
  from h1 h2 h3 c1 c2 c3 show ?thesis by simp
qed

text \<open>
  Claim C10. At the character-device interface a read or write with a positive residual
  count whose offset equals the volume size is accepted: the loop does not run, no byte is
  transferred and the call returns success. With a positive residual count the routines
  reject the request at their bounds check (EIO, store and \<open>uio\<close> untouched) exactly when
  the offset is negative or strictly greater than the volume size. The strategy routine
  rejects every offset greater than or equal to the volume size.
\<close>

theorem cdev_offset_at_end_accepted:
  "(uio_resid u > 0 \<and> uio_offset u = int (zv_volsize zv) \<and> zv_volsize zv < 2 ^ 63
    \<longrightarrow> zvol_cdev_read env zv u = (None, u, [KstatRead 0])
        \<and> zvol_cdev_write env zv u s =
            (None, u, zvol_ensure_zilog zv,
             KstatWrite 0 # (if s \<or> os_sync_always zv then [ZilCommit] else [])))
   \<and> (uio_resid u > 0
    \<longrightarrow> ((uio_offset u < 0 \<or> u64 (uio_offset u) > zv_volsize zv)
           = (zvol_cdev_read env zv u = (Some EIO, u, [])))
        \<and> ((uio_offset u < 0 \<or> u64 (uio_offset u) > zv_volsize zv)
           = (zvol_cdev_write env zv u s = (Some EIO, u, zv, []))))
   \<and> (zv_flags zv AND ZVOL_REMOVING = 0
      \<and> (bio_cmd bp = BIO_READ \<or> bio_cmd bp = BIO_WRITE \<and> zv_flags zv AND ZVOL_RDONLY = 0)
      \<and> bio_length bp > 0 \<and> bio_offset bp \<ge> zv_volsize zv
    \<longrightarrow> fst (zvol_strategy_impl env (Some zv) bp) = Some EIO)"
proof -
  have a: "zvol_cdev_read env zv u = (None, u, [KstatRead 0])
        \<and> zvol_cdev_write env zv u s =
            (None, u, zvol_ensure_zilog zv,
             KstatWrite 0 # (if s \<or> os_sync_always zv then [ZilCommit] else []))"
    if "uio_offset u = int (zv_volsize zv)" "zv_volsize zv < 2 ^ 63"
    using cdev_read_at_end [OF that] cdev_write_at_end [OF that] by simp
  have b1: "(uio_offset u < 0 \<or> u64 (uio_offset u) > zv_volsize zv)
           = (zvol_cdev_read env zv u = (Some EIO, u, []))"
    if r: "uio_resid u > 0"
  proof
    assume "uio_offset u < 0 \<or> u64 (uio_offset u) > zv_volsize zv"
    from cdev_read_reject [OF r this] show "zvol_cdev_read env zv u = (Some EIO, u, [])" .
  next
    assume e: "zvol_cdev_read env zv u = (Some EIO, u, [])"
    show "uio_offset u < 0 \<or> u64 (uio_offset u) > zv_volsize zv"
    proof (rule ccontr)
      assume "\<not> (uio_offset u < 0 \<or> u64 (uio_offset u) > zv_volsize zv)"
      then have "\<not> (uio_resid u > 0 \<and> (uio_offset u < 0 \<or> u64 (uio_offset u) > zv_volsize zv))"
        by simp
      from cdev_read_passed [OF this, of env] e show False by simp
    qed
  qed
  have b2: "(uio_offset u < 0 \<or> u64 (uio_offset u) > zv_volsize zv)
           = (zvol_cdev_write env zv u s = (Some EIO, u, zv, []))"
    if r: "uio_resid u > 0"
  proof
    assume "uio_offset u < 0 \<or> u64 (uio_offset u) > zv_volsize zv"
    from cdev_write_reject [OF r this] show "zvol_cdev_write env zv u s = (Some EIO, u, zv, [])" .
  next
    assume e: "zvol_cdev_write env zv u s = (Some EIO, u, zv, [])"
    show "uio_offset u < 0 \<or> u64 (uio_offset u) > zv_volsize zv"
    proof (rule ccontr)
      assume "\<not> (uio_offset u < 0 \<or> u64 (uio_offset u) > zv_volsize zv)"
      then have "\<not> (uio_resid u > 0 \<and> (uio_offset u < 0 \<or> u64 (uio_offset u) > zv_volsize zv))"
        by simp
      from cdev_write_passed [OF this, of env s] e show False by simp
    qed
  qed
  have c: "fst (zvol_strategy_impl env (Some zv) bp) = Some EIO"
    if "zv_flags zv AND ZVOL_REMOVING = 0"
      "bio_cmd bp = BIO_READ \<or> bio_cmd bp = BIO_WRITE \<and> zv_flags zv AND ZVOL_RDONLY = 0"
      "bio_length bp > 0" "bio_offset bp \<ge> zv_volsize zv"
    using strategy_reject [OF that] by simp
  from a b1 b2 c show ?thesis by blast
qed

theorem cdev_offset_at_end_accepted_witness:
  "uio_resid \<lparr>uio_offset = 104857600, uio_resid = 512\<rparr> > 0
   \<and> uio_offset \<lparr>uio_offset = 104857600, uio_resid = 512\<rparr> = int (zv_volsize ex_vol)
   \<and> zv_volsize ex_vol < 2 ^ 63
   \<and> zvol_cdev_read ex_io_ok ex_vol \<lparr>uio_offset = 104857600, uio_resid = 512\<rparr>
      = (None, \<lparr>uio_offset = 104857600, uio_resid = 512\<rparr>, [KstatRead 0])
   \<and> zvol_cdev_write ex_io_ok ex_vol \<lparr>uio_offset = 104857600, uio_resid = 512\<rparr> True
      = (None, \<lparr>uio_offset = 104857600, uio_resid = 512\<rparr>, ex_vol, [KstatWrite 0, ZilCommit])
   \<and> zvol_cdev_read ex_io_ok ex_vol \<lparr>uio_offset = 104857600, uio_resid = 512\<rparr>
      \<noteq> (Some EIO, \<lparr>uio_offset = 104857600, uio_resid = 512\<rparr>, [])
   \<and> zv_flags ex_vol AND ZVOL_REMOVING = 0
   \<and> bio_cmd \<lparr>bio_cmd = BIO_READ, bio_offset = 104857600, bio_length = 512, bio_completed = 0\<rparr>
       = BIO_READ
   \<and> fst (zvol_strategy_impl ex_io_ok (Some ex_vol)
        \<lparr>bio_cmd = BIO_READ, bio_offset = 104857600, bio_length = 512, bio_completed = 0\<rparr>)
      = Some EIO"
proof -
  let ?u = "\<lparr>uio_offset = 104857600, uio_resid = 512\<rparr>"
  let ?bp = "\<lparr>bio_cmd = BIO_READ, bio_offset = 104857600, bio_length = 512, bio_completed = 0\<rparr>"
  note t = cdev_offset_at_end_accepted [of ?u ex_vol ex_io_ok True ?bp]
  have h1: "uio_resid ?u > 0 \<and> uio_offset ?u = int (zv_volsize ex_vol)
            \<and> zv_volsize ex_vol < 2 ^ 63"
    by (simp add: ex_io_defs)
  have h2: "uio_resid ?u > 0" by simp
  have h3: "zv_flags ex_vol AND ZVOL_REMOVING = 0
      \<and> (bio_cmd ?bp = BIO_READ \<or> bio_cmd ?bp = BIO_WRITE \<and> zv_flags ex_vol AND ZVOL_RDONLY = 0)
      \<and> bio_length ?bp > 0 \<and> bio_offset ?bp \<ge> zv_volsize ex_vol"
    by (simp add: ex_io_defs)
  have z: "zvol_ensure_zilog ex_vol = ex_vol" by (simp add: ex_io_defs zvol_ensure_zilog_def)
  from t [THEN conjunct1, THEN mp, OF h1]
  have c1: "zvol_cdev_read ex_io_ok ex_vol ?u = (None, ?u, [KstatRead 0])
        \<and> zvol_cdev_write ex_io_ok ex_vol ?u True = (None, ?u, ex_vol, [KstatWrite 0, ZilCommit])"
    by (simp add: z)
  from t [THEN conjunct2, THEN conjunct1, THEN mp, OF h2]
  have c2: "zvol_cdev_read ex_io_ok ex_vol ?u \<noteq> (Some EIO, ?u, [])"
    by (simp add: ex_io_defs u64_def)
  from t [THEN conjunct2, THEN conjunct2, THEN mp, OF h3]
  have c3: "fst (zvol_strategy_impl ex_io_ok (Some ex_vol) ?bp) = Some EIO" .
  from h1 h3 c1 c2 c3 show ?thesis by simp
qed

section \<open>Unmap requests and the end of the volume\<close>








section \<open>Checksum errors of the store\<close>

lemma strategy_io_no_cksum:
  assumes "bio_cmd bp \<noteq> BIO_DELETE"
  shows "fst (strategy_io env zv bp d) \<noteq> Some ECKSUM"
proof (cases "bio_length bp > 0 \<and> bio_offset bp \<ge> zv_volsize zv")
  case True
  then show ?thesis by (simp add: strategy_io_def)
next
  case False
  obtain err off' resid' evs where
    l: "strategy_loop env d (\<not> d \<and> os_sync_always zv) (zv_volsize zv) (bio_offset bp)
          (bio_length bp) = (err, off', resid', evs)"
    by (metis prod_cases4)
  have "err \<noteq> Some ECKSUM"
  proof (cases d)
    case True
    with l have "strategy_loop env True False (zv_volsize zv) (bio_offset bp) (bio_length bp)
                   = (err, off', resid', evs)"
      by simp
    from strategy_loop_read [OF this] show ?thesis
      by (auto split: option.splits if_splits)
  next
    case False
    with l have "strategy_loop env False (os_sync_always zv) (zv_volsize zv) (bio_offset bp)
                   (bio_length bp) = (err, off', resid', evs)"
      by simp
    from strategy_loop_write [OF this] show ?thesis
      by (auto split: option.splits if_splits)
  qed
  then show ?thesis
    unfolding strategy_io_loop [OF assms False l] by simp
qed

lemma checksum_not_surfaced:
  "(bio_cmd bp = BIO_READ \<or> bio_cmd bp = BIO_WRITE
      \<longrightarrow> fst (zvol_strategy_impl env zvp bp) \<noteq> Some ECKSUM)
   \<and> fst (zvol_cdev_read env zv u) \<noteq> Some ECKSUM"
proof (intro conjI impI)
  assume c: "bio_cmd bp = BIO_READ \<or> bio_cmd bp = BIO_WRITE"
  then have d: "bio_cmd bp \<noteq> BIO_DELETE" by auto
  show "fst (zvol_strategy_impl env zvp bp) \<noteq> Some ECKSUM"
  proof (cases zvp)
    case None
    then show ?thesis by (simp add: zvol_strategy_impl_def)
  next
    case (Some z)
    from c show ?thesis
    proof
      assume r: "bio_cmd bp = BIO_READ"
      obtain e bp' zv' evs where s: "strategy_io env z bp True = (e, bp', zv', evs)"
        by (metis prod_cases4)
      with strategy_io_no_cksum [OF d, of env z True] Some r show ?thesis
        by (simp add: zvol_strategy_impl_def)
    next
      assume w: "bio_cmd bp = BIO_WRITE"
      obtain e bp' zv' evs where
        s: "strategy_io env (zvol_ensure_zilog z) bp False = (e, bp', zv', evs)"
        by (metis prod_cases4)
      with strategy_io_no_cksum [OF d, of env "zvol_ensure_zilog z" False] Some w show ?thesis
        by (simp add: zvol_strategy_impl_def)
    qed
  qed
next
  obtain err off' resid' evs where
    l: "cdev_read_loop env (zv_volsize zv) (uio_offset u) (uio_resid u) = (err, off', resid', evs)"
    by (metis prod_cases4)
  from cdev_read_loop_shape [OF l] have "err \<noteq> Some ECKSUM"
    by (auto split: option.splits if_splits)
  then show "fst (zvol_cdev_read env zv u) \<noteq> Some ECKSUM"
    by (simp add: zvol_cdev_read_def Let_def l)
qed

text \<open>
  Claim C4. The strategy routine converts a checksum error of the store into EIO for reads
  and for writes, and so does the character-device read routine; the character-device
  write routine has no such conversion. With a store whose transaction assignment reports
  a checksum failure, the same write of 512 bytes at offset 0 returns ECKSUM through
  \<open>zvol_cdev_write\<close> and EIO through \<open>zvol_strategy_impl\<close>.
\<close>

theorem cdev_write_surfaces_checksum_error:
  "tx_assign_err ex_io_cksum 0 512 = Some ECKSUM
   \<and> zvol_cdev_write ex_io_cksum ex_vol \<lparr>uio_offset = 0, uio_resid = 512\<rparr> False
      = (Some ECKSUM, \<lparr>uio_offset = 0, uio_resid = 512\<rparr>, ex_vol,
         [TxAbort 0 512, KstatWrite 0])
   \<and> zvol_strategy_impl ex_io_cksum (Some ex_vol)
        \<lparr>bio_cmd = BIO_WRITE, bio_offset = 0, bio_length = 512, bio_completed = 0\<rparr>
      = (Some EIO,
         \<lparr>bio_cmd = BIO_WRITE, bio_offset = 0, bio_length = 512, bio_completed = 0\<rparr>,
         Some ex_vol, [TxAbort 0 512, KstatWrite 0])
   \<and> zvol_cdev_read ex_io_cksum ex_vol \<lparr>uio_offset = 0, uio_resid = 512\<rparr>
      = (Some EIO, \<lparr>uio_offset = 0, uio_resid = 512\<rparr>, [DmuReadFailed 0 512, KstatRead 0])"
  by (simp add: ex_io_defs io_defs)

section \<open>Waiting for the last close before removal\<close>

lemma ten_hz:
  fixes hz :: "32 word"
  assumes "0 < sint hz" "10 * sint hz < 2 ^ 31"
  shows "sint (10 * hz) = 10 * sint hz"
proof -
  have "sint (10 * hz) = signed_take_bit 31 (sint (10 :: 32 word) * sint hz)"
    by (simp add: sint_word_ariths word_size)
  also have "sint (10 :: 32 word) = 10" by simp
  also have "signed_take_bit 31 (10 * sint hz) = 10 * sint hz"
    using assms by (intro signed_take_bit_int_eq_self) simp_all
  finally show ?thesis .
qed

text \<open>
  Claim C9, as amended. For a volume in GEOM mode \<open>zvol_wait_close\<close> sets the dying
  flag, after which \<open>zvol_geom_open\<close> answers ENXIO. With no opener it returns at once.
  With openers it sleeps on the volume once, with the timeout \<open>10 * hz\<close>, has no loop and
  does not look at the open count afterwards: when \<open>hz\<close> is positive, \<open>10 * hz\<close> fits the
  C \<open>int\<close>, and \<open>msleep\<close> ends a sleep with a positive timeout within that many ticks, it
  returns within \<open>10 * hz\<close> ticks whatever the openers have done; it fails to return only
  when \<open>msleep\<close> does. For a volume in any other mode it returns at once: the flag is not
  set and nothing is waited for.
\<close>

theorem wait_close_once:
  "(zv_volmode zv = ZFS_VOLMODE_GEOM \<and> zv_open_count zv = 0 \<longrightarrow>
      zvol_wait_close msleep hz zv = Some (zv\<lparr>zso_dying := True\<rparr>, 0))
   \<and> (zv_volmode zv = ZFS_VOLMODE_GEOM \<and> zv_open_count zv \<noteq> 0
        \<and> 0 < sint hz \<and> 10 * sint hz < 2 ^ 31
        \<and> (\<forall>z timo. 0 < timo \<longrightarrow> (\<exists>z' t. msleep z timo = Some (z', t) \<and> t \<le> nat timo)) \<longrightarrow>
      (\<exists>z' t. zvol_wait_close msleep hz zv = Some (z', t) \<and> t \<le> 10 * nat (sint hz)
          \<and> msleep (zv\<lparr>zso_dying := True\<rparr>) (10 * sint hz) = Some (z', t)))
   \<and> (zv_volmode zv = ZFS_VOLMODE_GEOM \<and> zv_open_count zv \<noteq> 0
        \<and> zvol_wait_close msleep hz zv = None \<longrightarrow>
      msleep (zv\<lparr>zso_dying := True\<rparr>) (sint (10 * hz)) = None)
   \<and> (zv_volmode zv = ZFS_VOLMODE_GEOM \<longrightarrow>
      zvol_geom_open False env (Some (zv\<lparr>zso_dying := True\<rparr>)) flag c
        = Some (Some ENXIO, Some (zv\<lparr>zso_dying := True\<rparr>)))
   \<and> (zv_volmode zv \<noteq> ZFS_VOLMODE_GEOM \<longrightarrow> zvol_wait_close msleep hz zv = Some (zv, 0))"
proof (intro conjI impI)
  assume "zv_volmode zv = ZFS_VOLMODE_GEOM \<and> zv_open_count zv = 0"
  then show "zvol_wait_close msleep hz zv = Some (zv\<lparr>zso_dying := True\<rparr>, 0)"
    by (simp add: zvol_wait_close_def)
next
  assume h: "zv_volmode zv = ZFS_VOLMODE_GEOM \<and> zv_open_count zv \<noteq> 0
        \<and> 0 < sint hz \<and> 10 * sint hz < 2 ^ 31
        \<and> (\<forall>z timo. 0 < timo \<longrightarrow> (\<exists>z' t. msleep z timo = Some (z', t) \<and> t \<le> nat timo))"
  then have p: "0 < sint hz" "10 * sint hz < 2 ^ 31" by simp_all
  have e: "sint (10 * hz) = 10 * sint hz" by (rule ten_hz [OF p])
  from h have w: "zvol_wait_close msleep hz zv = msleep (zv\<lparr>zso_dying := True\<rparr>) (10 * sint hz)"
    by (simp add: zvol_wait_close_def e)
  from p have "0 < 10 * sint hz" by simp
  with h obtain z' t where
    m: "msleep (zv\<lparr>zso_dying := True\<rparr>) (10 * sint hz) = Some (z', t)" "t \<le> nat (10 * sint hz)"
    by blast
  from m(2) p have "t \<le> 10 * nat (sint hz)" by simp
  with m(1) w
  show "\<exists>z' t. zvol_wait_close msleep hz zv = Some (z', t) \<and> t \<le> 10 * nat (sint hz)
          \<and> msleep (zv\<lparr>zso_dying := True\<rparr>) (10 * sint hz) = Some (z', t)"
    by simp
next
  assume "zv_volmode zv = ZFS_VOLMODE_GEOM \<and> zv_open_count zv \<noteq> 0
        \<and> zvol_wait_close msleep hz zv = None"
  then show "msleep (zv\<lparr>zso_dying := True\<rparr>) (sint (10 * hz)) = None"
    by (auto simp: zvol_wait_close_def Let_def)
next
  assume "zv_volmode zv = ZFS_VOLMODE_GEOM"
  then show "zvol_geom_open False env (Some (zv\<lparr>zso_dying := True\<rparr>)) flag c
        = Some (Some ENXIO, Some (zv\<lparr>zso_dying := True\<rparr>))"
    by (simp add: zvol_geom_open_def zvol_geom_open_retry.simps)
next
  assume "zv_volmode zv \<noteq> ZFS_VOLMODE_GEOM"
  then show "zvol_wait_close msleep hz zv = Some (zv, 0)"
    by (simp add: zvol_wait_close_def)
qed

theorem wait_close_once_counterexample:
  "zv_volmode ex_dev_excl = ZFS_VOLMODE_DEV \<and> zv_open_count ex_dev_excl = 1
   \<and> zvol_wait_close ex_msleep 1000 ex_dev_excl = Some (ex_dev_excl, 0)
   \<and> \<not> zso_dying ex_dev_excl"
  by (simp add: zvol_wait_close_def ex_defs)

theorem wait_close_once_witness:
  "zv_volmode ex_geom_open = ZFS_VOLMODE_GEOM \<and> zv_open_count ex_geom_open \<noteq> 0
   \<and> 0 < sint (1000 :: 32 word) \<and> 10 * sint (1000 :: 32 word) < 2 ^ 31
   \<and> ex_msleep (ex_geom_open\<lparr>zso_dying := True\<rparr>) 10000
       = Some (ex_geom_open\<lparr>zso_dying := True\<rparr>, 10000)
   \<and> zvol_wait_close ex_msleep 1000 ex_geom_open
       = Some (ex_geom_open\<lparr>zso_dying := True\<rparr>, 10000)
   \<and> (10000 :: nat) \<le> 10 * nat (sint (1000 :: 32 word))
   \<and> zv_open_count ex_geom = 0
   \<and> zvol_wait_close ex_msleep 1000 ex_geom = Some (ex_geom\<lparr>zso_dying := True\<rparr>, 0)
   \<and> zvol_wait_close ex_msleep 0 ex_geom_open = None
   \<and> ex_msleep (ex_geom_open\<lparr>zso_dying := True\<rparr>) (sint (10 * (0 :: 32 word))) = None
   \<and> zvol_geom_open False ex_env (Some (ex_geom_open\<lparr>zso_dying := True\<rparr>)) FREAD 1
       = Some (Some ENXIO, Some (ex_geom_open\<lparr>zso_dying := True\<rparr>))
   \<and> zv_volmode ex_dev_excl \<noteq> ZFS_VOLMODE_GEOM
   \<and> zvol_wait_close ex_msleep 1000 ex_dev_excl = Some (ex_dev_excl, 0)"
proof -
  note t = wait_close_once [of ex_geom_open ex_msleep 1000 ex_env FREAD 1]
  have g: "zv_volmode ex_geom_open = ZFS_VOLMODE_GEOM" by (simp add: ex_defs)
  have n: "zv_open_count ex_geom_open \<noteq> 0" by (simp add: ex_defs)
  have hz: "0 < sint (1000 :: 32 word)" "10 * sint (1000 :: 32 word) < 2 ^ 31" by simp_all
  have k: "\<forall>z timo. 0 < timo \<longrightarrow> (\<exists>z' t. ex_msleep z timo = Some (z', t) \<and> t \<le> nat timo)"
    by (simp add: ex_msleep_def)
  have h2: "zv_volmode ex_geom_open = ZFS_VOLMODE_GEOM \<and> zv_open_count ex_geom_open \<noteq> 0
        \<and> 0 < sint (1000 :: 32 word) \<and> 10 * sint (1000 :: 32 word) < 2 ^ 31
        \<and> (\<forall>z timo. 0 < timo \<longrightarrow> (\<exists>z' t. ex_msleep z timo = Some (z', t) \<and> t \<le> nat timo))"
    using g n hz k by simp
  have s: "ex_msleep (ex_geom_open\<lparr>zso_dying := True\<rparr>) 10000
       = Some (ex_geom_open\<lparr>zso_dying := True\<rparr>, 10000)"
    by (simp add: ex_msleep_def)
  from t [THEN conjunct2, THEN conjunct1, THEN mp, OF h2] s
  have c2: "zvol_wait_close ex_msleep 1000 ex_geom_open
       = Some (ex_geom_open\<lparr>zso_dying := True\<rparr>, 10000)
       \<and> (10000 :: nat) \<le> 10 * nat (sint (1000 :: 32 word))"
    by auto
  have g0: "zv_volmode ex_geom = ZFS_VOLMODE_GEOM \<and> zv_open_count ex_geom = 0"
    by (simp add: ex_defs)
  from wait_close_once [of ex_geom ex_msleep 1000 ex_env FREAD 1, THEN conjunct1, THEN mp, OF g0]
  have c1: "zvol_wait_close ex_msleep 1000 ex_geom = Some (ex_geom\<lparr>zso_dying := True\<rparr>, 0)" .
  have z: "zvol_wait_close ex_msleep 0 ex_geom_open = None"
    by (simp add: zvol_wait_close_def ex_msleep_def ex_defs)
  have h3: "zv_volmode ex_geom_open = ZFS_VOLMODE_GEOM \<and> zv_open_count ex_geom_open \<noteq> 0
        \<and> zvol_wait_close ex_msleep 0 ex_geom_open = None"
    using g n z by simp
  from wait_close_once [of ex_geom_open ex_msleep 0 ex_env FREAD 1, THEN conjunct2,
      THEN conjunct2, THEN conjunct1, THEN mp, OF h3]
  have c3: "ex_msleep (ex_geom_open\<lparr>zso_dying := True\<rparr>) (sint (10 * (0 :: 32 word))) = None" .
  from t [THEN conjunct2, THEN conjunct2, THEN conjunct2, THEN conjunct1, THEN mp, OF g]
  have c4: "zvol_geom_open False ex_env (Some (ex_geom_open\<lparr>zso_dying := True\<rparr>)) FREAD 1
       = Some (Some ENXIO, Some (ex_geom_open\<lparr>zso_dying := True\<rparr>))" .
  have d: "zv_volmode ex_dev_excl \<noteq> ZFS_VOLMODE_GEOM" by (simp add: ex_defs)
  from wait_close_once [of ex_dev_excl ex_msleep 1000 ex_env FREAD 1, THEN conjunct2,
      THEN conjunct2, THEN conjunct2, THEN conjunct2, THEN mp, OF d]
  have c5: "zvol_wait_close ex_msleep 1000 ex_dev_excl = Some (ex_dev_excl, 0)" .
  from g n hz s c2 g0 c1 z c3 c4 d c5 show ?thesis by simp
qed

end
